(* ===== verification/Prelude.thy ===== *)
theory Prelude
  imports Main
begin

section \<open>Results, errors, contexts and actions\<close>

text \<open>
  The vocabulary every component of the identity service shares: Go errors as values with
  their wrap chain (\<open>errors.New\<close>, \<open>fmt.Errorf("...: %w")\<close>, \<open>errors.Is\<close>), the three
  outcomes of a call (a value, an error, a panic), calls as functions of the state of the
  world, instants and durations in nanoseconds, and the request context.

  \<^item> \<open>go_error\<close>: the sentinel errors of the repository, one constructor each, then the
    errors made inside a function body, the wrapped ones and those of third parties.
  \<^item> \<open>('w, 'a) act\<close>: a call that may read and change the world \<open>'w\<close>. \<open>bindA m f\<close> is
    the pattern \<open>x, err := m(); if err != nil { return err }; f(x)\<close>.
  \<^item> The collection \<open>act_simps\<close> evaluates such calls, \<open>act_elims\<close> takes a successful
    run apart.
\<close>

named_theorems act_simps \<open>evaluation of actions\<close>
named_theorems act_elims \<open>inversion of successful actions\<close>

subsection \<open>Lists and maps\<close>

lemma find_SomeD: "find P xs = Some x \<Longrightarrow> x \<in> set xs \<and> P x"
  by (induction xs) (auto split: if_splits)

lemma find_append_None: "find P (xs @ ys) = (case find P xs of None \<Rightarrow> find P ys | Some x \<Rightarrow> Some x)"
  by (induction xs) auto

lemma map_leD: "m \<subseteq>\<^sub>m n \<Longrightarrow> m k = Some v \<Longrightarrow> n k = Some v"
  by (auto simp: map_le_def dom_def)

lemma map_leI: "(\<And>k v. m k = Some v \<Longrightarrow> n k = Some v) \<Longrightarrow> m \<subseteq>\<^sub>m n"
  by (auto simp: map_le_def dom_def)

subsection \<open>Errors\<close>

datatype go_error =
    ErrInvalidOAuthState
  | ErrKYCEmailMismatch
  | ErrUserNotFound
  | ErrInvalidArgument
  | ErrMarketAlreadySet
  | ErrInvalidMarket
  | ErrInvalidLanguage
  | ErrDatabaseDisabled
  | ErrInvalidToken
  | ErrRecordNotFound
  | NewError string
  | Wrapped string go_error
  | External string

fun unwrap :: "go_error \<Rightarrow> go_error option" where
  "unwrap (Wrapped m e) = Some e"
| "unwrap _ = None"

text \<open>\<open>errors.Is\<close>: the error itself or one it wraps is the target.\<close>

fun errors_Is :: "go_error \<Rightarrow> go_error \<Rightarrow> bool" where
  "errors_Is (Wrapped m e) t = (Wrapped m e = t \<or> errors_Is e t)"
| "errors_Is e t = (e = t)"

lemma errors_Is_refl [simp]: "errors_Is e e"
  by (cases e) auto

lemma errors_Is_Wrapped [simp]: "errors_Is e t \<Longrightarrow> errors_Is (Wrapped m e) t"
  by simp

text \<open>
  The errors the services themselves report. An error of a library, a server or a data
  access object is \<open>outside\<close>: it is none of them and wraps none of them.
\<close>

definition service_errors :: "go_error list" where
  "service_errors = [ErrInvalidOAuthState, ErrKYCEmailMismatch, ErrUserNotFound, ErrInvalidArgument,
     ErrMarketAlreadySet, ErrInvalidMarket, ErrInvalidLanguage]"

definition outside :: "go_error \<Rightarrow> bool" where
  "outside e \<longleftrightarrow> list_all (\<lambda>t. \<not> errors_Is e t) service_errors"

lemma outside_simps [simp]:
  "outside ErrDatabaseDisabled" "outside ErrRecordNotFound" "outside ErrInvalidToken"
  "outside (NewError m)" "outside (External m)" "outside (Wrapped m e) = outside e"
  by (simp_all add: outside_def service_errors_def)

lemma outside_not_Is [simp]:
  "outside e \<Longrightarrow> \<not> errors_Is e ErrInvalidOAuthState" "outside e \<Longrightarrow> \<not> errors_Is e ErrKYCEmailMismatch"
  "outside e \<Longrightarrow> \<not> errors_Is e ErrUserNotFound" "outside e \<Longrightarrow> \<not> errors_Is e ErrInvalidArgument"
  "outside e \<Longrightarrow> \<not> errors_Is e ErrMarketAlreadySet" "outside e \<Longrightarrow> \<not> errors_Is e ErrInvalidMarket"
  "outside e \<Longrightarrow> \<not> errors_Is e ErrInvalidLanguage"
  by (simp_all add: outside_def service_errors_def)

lemma outside_not_service [simp]:
  "\<not> outside ErrInvalidOAuthState" "\<not> outside ErrKYCEmailMismatch" "\<not> outside ErrUserNotFound"
  "\<not> outside ErrInvalidArgument" "\<not> outside ErrMarketAlreadySet" "\<not> outside ErrInvalidMarket"
  "\<not> outside ErrInvalidLanguage"
  by (simp_all add: outside_def service_errors_def)

text \<open>
  \<open>err.Error()\<close>. The text of an error that the code formats from values is abbreviated in its
  \<open>NewError\<close>.
\<close>

fun error_text :: "go_error \<Rightarrow> string" where
  "error_text ErrInvalidOAuthState = ''invalid or expired oauth state''"
| "error_text ErrKYCEmailMismatch = ''singpass email does not match authenticated user''"
| "error_text ErrUserNotFound = ''user not found''"
| "error_text ErrInvalidArgument = ''invalid argument''"
| "error_text ErrMarketAlreadySet = ''market already set''"
| "error_text ErrInvalidMarket = ''invalid market''"
| "error_text ErrInvalidLanguage = ''invalid language''"
| "error_text ErrDatabaseDisabled = ''database is disabled or not initialized''"
| "error_text ErrInvalidToken = ''invalid clerk token''"
| "error_text ErrRecordNotFound = ''record not found''"
| "error_text (NewError m) = m"
| "error_text (Wrapped m e) = m @ '': '' @ error_text e"
| "error_text (External m) = m"

subsection \<open>Outcomes and actions\<close>

datatype 'a res = Ok 'a | Err go_error | Panicked string

fun is_Ok :: "'a res \<Rightarrow> bool" where
  "is_Ok (Ok a) = True" | "is_Ok (Err e) = False" | "is_Ok (Panicked p) = False"

lemma is_OkE: "is_Ok r \<Longrightarrow> (\<And>a. r = Ok a \<Longrightarrow> P) \<Longrightarrow> P"
  by (cases r) auto

type_synonym ('w, 'a) act = "'w \<Rightarrow> 'a res \<times> 'w"

definition ret :: "'a \<Rightarrow> ('w, 'a) act" where
  "ret a = (\<lambda>w. (Ok a, w))"

definition throw :: "go_error \<Rightarrow> ('w, 'a) act" where
  "throw e = (\<lambda>w. (Err e, w))"

definition panic :: "string \<Rightarrow> ('w, 'a) act" where
  "panic m = (\<lambda>w. (Panicked m, w))"

definition bindA :: "('w, 'a) act \<Rightarrow> ('a \<Rightarrow> ('w, 'b) act) \<Rightarrow> ('w, 'b) act" where
  "bindA m f = (\<lambda>w. case m w of
      (Ok a, w') \<Rightarrow> f a w'
    | (Err e, w') \<Rightarrow> (Err e, w')
    | (Panicked p, w') \<Rightarrow> (Panicked p, w'))"

text \<open>
  \<open>tryA m f g\<close> lets the caller see the error: \<open>f\<close> runs on the value, \<open>g\<close> on the error.
  A panic unwinds through both.
\<close>

definition tryA ::
    "('w, 'a) act \<Rightarrow> ('a \<Rightarrow> ('w, 'b) act) \<Rightarrow> (go_error \<Rightarrow> ('w, 'b) act) \<Rightarrow> ('w, 'b) act" where
  "tryA m f g = (\<lambda>w. case m w of
      (Ok a, w') \<Rightarrow> f a w'
    | (Err e, w') \<Rightarrow> g e w'
    | (Panicked p, w') \<Rightarrow> (Panicked p, w'))"

abbreviation seqA :: "('w, 'a) act \<Rightarrow> ('w, 'b) act \<Rightarrow> ('w, 'b) act" where
  "seqA m n \<equiv> bindA m (\<lambda>_. n)"

text \<open>A call whose error the code drops (\<open>_ = f()\<close> or a warning in the log).\<close>

definition best_effort :: "('w, 'a) act \<Rightarrow> ('w, unit) act" where
  "best_effort m = tryA m (\<lambda>_. ret ()) (\<lambda>_. ret ())"

lemma ret_apply [act_simps]: "ret a w = (Ok a, w)"
  by (simp add: ret_def)

lemma throw_apply [act_simps]: "throw e w = (Err e, w)"
  by (simp add: throw_def)

lemma panic_apply [act_simps]: "panic p w = (Panicked p, w)"
  by (simp add: panic_def)

lemma bindA_ret [act_simps]: "bindA (ret a) f = f a"
  by (simp add: bindA_def ret_def)

lemma bindA_throw [act_simps]: "bindA (throw e) f = throw e"
  by (simp add: bindA_def throw_def)

lemma bindA_panic [act_simps]: "bindA (panic p) f = panic p"
  by (simp add: bindA_def panic_def)

lemma bindA_ret_right: "bindA m ret = m"
  by (auto simp: bindA_def ret_def fun_eq_iff split: prod.splits res.splits)

lemma bindA_assoc: "bindA (bindA m f) g = bindA m (\<lambda>a. bindA (f a) g)"
  by (auto simp: bindA_def fun_eq_iff split: prod.splits res.splits)

lemma bindA_step [act_simps]:
  "m w = (Ok a, w') \<Longrightarrow> bindA m f w = f a w'"
  "m w = (Err e, w') \<Longrightarrow> bindA m f w = (Err e, w')"
  "m w = (Panicked p, w') \<Longrightarrow> bindA m f w = (Panicked p, w')"
  by (simp_all add: bindA_def)

lemma tryA_step [act_simps]:
  "m w = (Ok a, w') \<Longrightarrow> tryA m f g w = f a w'"
  "m w = (Err e, w') \<Longrightarrow> tryA m f g w = g e w'"
  "m w = (Panicked p, w') \<Longrightarrow> tryA m f g w = (Panicked p, w')"
  by (simp_all add: tryA_def)

lemma bindA_OkE [act_elims]:
  assumes "bindA m f w = (Ok b, w2)"
  obtains a w1 where "m w = (Ok a, w1)" and "f a w1 = (Ok b, w2)"
  using assms by (auto simp: bindA_def split: prod.splits res.splits)

lemma bindA_ErrE:
  assumes "bindA m f w = (Err e, w2)"
  obtains "m w = (Err e, w2)"
  | a w1 where "m w = (Ok a, w1)" and "f a w1 = (Err e, w2)"
  using assms by (auto simp: bindA_def split: prod.splits res.splits)

lemma res_cases3:
  obtains (Ok) a w' where "m w = (Ok a, w')"
  | (Err) e w' where "m w = (Err e, w')"
  | (Panicked) p w' where "m w = (Panicked p, w')"
  by (cases "m w"; cases "fst (m w)") auto

lemma ret_OkE [act_elims]: "ret a w = (Ok b, w') \<Longrightarrow> (a = b \<Longrightarrow> w = w' \<Longrightarrow> P) \<Longrightarrow> P"
  by (simp add: ret_def)

lemma throw_OkE [act_elims]: "throw e w = (Ok b, w') \<Longrightarrow> P"
  by (simp add: throw_def)

lemma panic_OkE [act_elims]: "panic p w = (Ok b, w') \<Longrightarrow> P"
  by (simp add: panic_def)

text \<open>What a call leaves unchanged: frame rules for the combinators.\<close>

definition keeps :: "('w \<Rightarrow> 'v) \<Rightarrow> ('w, 'a) act \<Rightarrow> bool" where
  "keeps v m \<longleftrightarrow> (\<forall>w. v (snd (m w)) = v w)"

lemma keepsD: "keeps v m \<Longrightarrow> m w = (r, w') \<Longrightarrow> v w' = v w"
  unfolding keeps_def by (metis snd_conv)

lemma keeps_ret [intro!]: "keeps v (ret a)"
  by (simp add: keeps_def ret_def)

lemma keeps_throw [intro!]: "keeps v (throw e)"
  by (simp add: keeps_def throw_def)

lemma keeps_panic [intro!]: "keeps v (panic p)"
  by (simp add: keeps_def panic_def)

lemma keeps_bindA [intro]: "keeps v m \<Longrightarrow> (\<And>a. keeps v (f a)) \<Longrightarrow> keeps v (bindA m f)"
  by (auto simp: keeps_def bindA_def split: prod.splits res.splits) (metis snd_conv)+

lemma keeps_tryA [intro]:
  "keeps v m \<Longrightarrow> (\<And>a. keeps v (f a)) \<Longrightarrow> (\<And>e. keeps v (g e)) \<Longrightarrow> keeps v (tryA m f g)"
  by (auto simp: keeps_def tryA_def split: prod.splits res.splits) (metis snd_conv)+

lemma keeps_best_effort [intro]: "keeps v m \<Longrightarrow> keeps v (best_effort m)"
  unfolding best_effort_def by (rule keeps_tryA) auto

lemma best_effort_not_Err [simp]: "best_effort m w \<noteq> (Err e, w')"
  by (auto simp: best_effort_def tryA_def ret_def split: prod.splits res.splits)

subsection \<open>What a call guarantees\<close>

text \<open>
  \<open>runs m w P Q\<close>: started in \<open>w\<close>, the call does not panic; if it returns a value the
  value and the new world satisfy \<open>P\<close>, if it returns an error they satisfy \<open>Q\<close>. The
  rules below compose such facts along the combinators.
\<close>

definition runs ::
    "('w, 'a) act \<Rightarrow> 'w \<Rightarrow> ('a \<Rightarrow> 'w \<Rightarrow> bool) \<Rightarrow> (go_error \<Rightarrow> 'w \<Rightarrow> bool) \<Rightarrow> bool" where
  "runs m w P Q \<longleftrightarrow> (case m w of
      (Ok a, w') \<Rightarrow> P a w'
    | (Err e, w') \<Rightarrow> Q e w'
    | (Panicked p, w') \<Rightarrow> False)"

lemma runs_OkD: "runs m w P Q \<Longrightarrow> m w = (Ok a, w') \<Longrightarrow> P a w'"
  by (simp add: runs_def)

lemma runs_ErrD: "runs m w P Q \<Longrightarrow> m w = (Err e, w') \<Longrightarrow> Q e w'"
  by (simp add: runs_def)

lemma runs_not_panic: "runs m w P Q \<Longrightarrow> m w \<noteq> (Panicked p, w')"
  by (auto simp: runs_def)

lemma runsI:
  assumes "\<And>a w'. m w = (Ok a, w') \<Longrightarrow> P a w'"
    and "\<And>e w'. m w = (Err e, w') \<Longrightarrow> Q e w'"
    and "\<And>p w'. m w \<noteq> (Panicked p, w')"
  shows "runs m w P Q"
  using assms by (auto simp: runs_def split: prod.splits res.splits)

lemma runsE:
  assumes "runs m w P Q"
  obtains (Ok) a w' where "m w = (Ok a, w')" and "P a w'"
  | (Err) e w' where "m w = (Err e, w')" and "Q e w'"
  using assms by (auto simp: runs_def split: prod.splits res.splits)

lemma runs_mono:
  assumes "runs m w P Q" and "\<And>a w'. P a w' \<Longrightarrow> P' a w'" and "\<And>e w'. Q e w' \<Longrightarrow> Q' e w'"
  shows "runs m w P' Q'"
  using assms by (auto simp: runs_def split: prod.splits res.splits)

lemma runs_conj:
  "runs m w P Q \<Longrightarrow> runs m w P' Q' \<Longrightarrow> runs m w (\<lambda>a w. P a w \<and> P' a w) (\<lambda>e w. Q e w \<and> Q' e w)"
  by (auto simp: runs_def split: prod.splits res.splits)

lemma runs_ret [simp]: "runs (ret a) w P Q = P a w"
  by (simp add: runs_def ret_def)

lemma runs_throw [simp]: "runs (throw e) w P Q = Q e w"
  by (simp add: runs_def throw_def)

lemma runs_panic [simp]: "\<not> runs (panic p) w P Q"
  by (simp add: runs_def panic_def)

lemma runs_bindA:
  assumes "runs m w P Q" and "\<And>a w'. P a w' \<Longrightarrow> runs (f a) w' P' Q'"
    and "\<And>e w'. Q e w' \<Longrightarrow> Q' e w'"
  shows "runs (bindA m f) w P' Q'"
proof (cases rule: runsE [OF assms(1)])
  case (1 a w')
  then show ?thesis using assms(2) [of a w'] by (simp add: runs_def bindA_def)
next
  case (2 e w')
  then show ?thesis using assms(3) [of e w'] by (simp add: runs_def bindA_def)
qed

lemma runs_tryA:
  assumes "runs m w P Q" and "\<And>a w'. P a w' \<Longrightarrow> runs (f a) w' P' Q'"
    and "\<And>e w'. Q e w' \<Longrightarrow> runs (g e) w' P' Q'"
  shows "runs (tryA m f g) w P' Q'"
proof (cases rule: runsE [OF assms(1)])
  case (1 a w')
  then show ?thesis using assms(2) [of a w'] by (simp add: runs_def tryA_def)
next
  case (2 e w')
  then show ?thesis using assms(3) [of e w'] by (simp add: runs_def tryA_def)
qed

lemma runs_best_effort:
  assumes "runs m w P Q" and "\<And>a w'. P a w' \<Longrightarrow> R () w'" and "\<And>e w'. Q e w' \<Longrightarrow> R () w'"
  shows "runs (best_effort m) w R Q'"
  unfolding best_effort_def by (rule runs_tryA [OF assms(1)]) (simp_all add: assms(2,3))

subsection \<open>Memory of the process beside the world\<close>

text \<open>
  A component that keeps state of its own runs on pairs of that state and the outside world;
  \<open>onSnd\<close> lets a call that only concerns the outside run on such pairs.
\<close>

definition onSnd :: "('e, 'a) act \<Rightarrow> ('m \<times> 'e, 'a) act" where
  "onSnd m = (\<lambda>(s, w). case m w of (r, w') \<Rightarrow> (r, (s, w')))"

lemma runs_onSnd:
  "runs m w P Q \<Longrightarrow> runs (onSnd m) (s, w) (\<lambda>a sw. fst sw = s \<and> P a (snd sw)) (\<lambda>e sw. fst sw = s \<and> Q e (snd sw))"
  by (auto simp: runs_def onSnd_def split: prod.splits res.splits)

lemma runs_onSnd':
  "runs m (snd sw) P Q \<Longrightarrow> runs (onSnd m) sw (\<lambda>a sw'. P a (snd sw')) (\<lambda>e sw'. Q e (snd sw'))"
  by (cases sw) (auto elim!: runs_mono [OF runs_onSnd])

lemma keeps_onSnd [intro, simp]: "keeps fst (onSnd m)"
  by (auto simp: keeps_def onSnd_def split: prod.splits)

lemma keeps_onSnd_comp [simp]: "keeps (\<lambda>sw. f (fst sw)) (onSnd m)"
  by (auto simp: keeps_def onSnd_def split: prod.splits)

subsection \<open>Instants and durations\<close>

text \<open>
  \<open>time.Time\<close> is an instant: nanoseconds since 1 January of year 1 UTC, so that the zero
  \<open>time.Time\<close> is \<open>0\<close>; \<open>time.Duration\<close> is a number of nanoseconds.
\<close>

type_synonym instant = int
type_synonym duration = int

definition Second :: duration where "Second = 1000000000"
definition Minute :: duration where "Minute = 60 * Second"
definition Hour :: duration where "Hour = 60 * Minute"

definition IsZero :: "instant \<Rightarrow> bool" where "IsZero t \<longleftrightarrow> t = 0"
definition After :: "instant \<Rightarrow> instant \<Rightarrow> bool" where "After t u \<longleftrightarrow> u < t"
definition Before :: "instant \<Rightarrow> instant \<Rightarrow> bool" where "Before t u \<longleftrightarrow> t < u"

text \<open>Seconds between year 1 and the Unix epoch, and \<open>Time.Unix\<close>.\<close>

definition unix_epoch :: int where "unix_epoch = 62135596800"

definition Unix :: "instant \<Rightarrow> int" where
  "Unix t = t div Second - unix_epoch"

lemmas time_defs = Second_def Minute_def Hour_def IsZero_def After_def Before_def

subsection \<open>Loggers\<close>

text \<open>
  A sugared logger of zap: the lowest level it writes (\<open>None\<close> for the no-op logger) and the
  fields put before those of a line. A duration is kept in microseconds; the code writes it as
  milliseconds. \<close>

datatype LogLevel = DebugLevel | InfoLevel | WarnLevel | ErrorLevel | DPanicLevel | PanicLevel | FatalLevel

datatype LogValue = LogString string | LogInt int | LogBool bool | LogMicros int | LogError go_error | LogStrings "string list"

type_synonym LogField = "string \<times> LogValue"

record Logger =
  Logger_Level :: "LogLevel option"
  Logger_Fields :: "LogField list"

record LogEntry =
  Entry_Level :: LogLevel
  Entry_Message :: string
  Entry_Fields :: "LogField list"

subsection \<open>Request contexts\<close>

text \<open>
  The identity a request carries (\<open>auth.User\<close> of common/auth/context.go) and the part of
  \<open>context.Context\<close> the code looks at: that identity, whether the client has gone, the
  time limit set on the work, the logger of the request, and the trace and span id of the
  active span when there is a valid one (OpenTelemetry).
\<close>

record AuthUser =
  AuthUser_InternalUserID :: int
  AuthUser_ClerkUserID :: string
  AuthUser_Email :: string
  AuthUser_Role :: string

record ctx =
  ctx_user :: "AuthUser option"
  ctx_cancelled :: bool
  ctx_timeout :: "duration option"
  ctx_logger :: "Logger option"
  ctx_span :: "(string \<times> string) option"

definition WithoutCancel :: "ctx \<Rightarrow> ctx" where
  "WithoutCancel c = c\<lparr>ctx_cancelled := False, ctx_timeout := None\<rparr>"

definition WithTimeout :: "ctx \<Rightarrow> duration \<Rightarrow> ctx" where
  "WithTimeout c d = c\<lparr>ctx_timeout := Some (case ctx_timeout c of None \<Rightarrow> d | Some d' \<Rightarrow> min d d')\<rparr>"

definition Background :: ctx where
  "Background = \<lparr>ctx_user = None, ctx_cancelled = False, ctx_timeout = None, ctx_logger = None, ctx_span = None\<rparr>"

text \<open>common/auth/context.go: the identity stored in and read from a context.\<close>

definition WithUser :: "ctx \<Rightarrow> AuthUser option \<Rightarrow> ctx" where
  "WithUser c user = c\<lparr>ctx_user := user\<rparr>"

definition GetUser :: "ctx \<Rightarrow> AuthUser option" where
  "GetUser c = ctx_user c"

text \<open>The logger stored in a context under the key of server/log.\<close>

definition WithLogger :: "ctx \<Rightarrow> Logger \<Rightarrow> ctx" where
  "WithLogger c logger = c\<lparr>ctx_logger := Some logger\<rparr>"

definition GetUserID :: "ctx \<Rightarrow> int option" where
  "GetUserID c = (case GetUser c of None \<Rightarrow> None | Some user \<Rightarrow> Some (AuthUser_InternalUserID user))"

lemma GetUser_WithUser [simp]: "GetUser (WithUser c u) = u"
  by (simp add: GetUser_def WithUser_def)

lemma GetUser_WithLogger [simp]: "GetUser (WithLogger c l) = GetUser c"
  by (simp add: GetUser_def WithLogger_def)

lemma GetUserID_WithUser [simp]:
  "GetUserID (WithUser c u) = map_option AuthUser_InternalUserID u"
  by (simp add: GetUserID_def split: option.splits)

lemma detached_ctx_eq:
  "ctx_user c = ctx_user c' \<Longrightarrow> ctx_logger c = ctx_logger c' \<Longrightarrow> ctx_span c = ctx_span c' \<Longrightarrow> WithTimeout (WithoutCancel c) d = WithTimeout (WithoutCancel c') d"
  by (cases c; cases c') (simp add: WithoutCancel_def WithTimeout_def)

end
