(* ===== verification/GoStrings.thy ===== *)
theory GoStrings
  imports Prelude "HOL-Library.Sublist" "HOL-Library.Char_ord"
begin

section \<open>The string library of Go\<close>

text \<open>
  Go strings are byte sequences: \<open>string\<close> is a list of \<open>char\<close>, one per byte. This theory
  models what the repository uses of packages \<open>strings\<close>, \<open>strconv\<close> and \<open>encoding/hex\<close>:
  trimming (Unicode white space, recognised by its UTF-8 encodings), cutting, splitting,
  replacing, case folding, parsing and printing 64-bit integers. \<open>strings.EqualFold\<close>
  takes the case-folding orbits of the Unicode character database beyond ASCII as its
  argument \<open>orbit\<close>; on ASCII text it does not look at it.
\<close>

subsection \<open>Trimming white space\<close>

text \<open>The UTF-8 encodings of the characters of \<open>unicode.IsSpace\<close>.\<close>

definition space_runes :: "string list" where
  "space_runes =
    [[CHR 0x09], [CHR 0x0A], [CHR 0x0B], [CHR 0x0C], [CHR 0x0D], [CHR 0x20],
     [CHR 0xC2, CHR 0x85], [CHR 0xC2, CHR 0xA0], [CHR 0xE1, CHR 0x9A, CHR 0x80],
     [CHR 0xE2, CHR 0x80, CHR 0x80], [CHR 0xE2, CHR 0x80, CHR 0x81], [CHR 0xE2, CHR 0x80, CHR 0x82],
     [CHR 0xE2, CHR 0x80, CHR 0x83], [CHR 0xE2, CHR 0x80, CHR 0x84], [CHR 0xE2, CHR 0x80, CHR 0x85],
     [CHR 0xE2, CHR 0x80, CHR 0x86], [CHR 0xE2, CHR 0x80, CHR 0x87], [CHR 0xE2, CHR 0x80, CHR 0x88],
     [CHR 0xE2, CHR 0x80, CHR 0x89], [CHR 0xE2, CHR 0x80, CHR 0x8A], [CHR 0xE2, CHR 0x80, CHR 0xA8],
     [CHR 0xE2, CHR 0x80, CHR 0xA9], [CHR 0xE2, CHR 0x80, CHR 0xAF], [CHR 0xE2, CHR 0x81, CHR 0x9F],
     [CHR 0xE3, CHR 0x80, CHR 0x80]]"

text \<open>The first of the given pieces that \<open>s\<close> starts with, dropped as often as there is one.\<close>

definition lead :: "string list \<Rightarrow> string \<Rightarrow> nat" where
  "lead ps s = (case find (\<lambda>p. p \<noteq> [] \<and> prefix p s) ps of None \<Rightarrow> 0 | Some p \<Rightarrow> length p)"

function trim_front :: "string list \<Rightarrow> string \<Rightarrow> string" where
  "trim_front ps s = (if lead ps s = 0 then s else trim_front ps (drop (lead ps s) s))"
  by pat_completeness auto
termination
proof (relation "measure (\<lambda>(ps, s). length s)")
  fix ps s
  assume l: "lead ps s \<noteq> 0"
  then obtain p where "p \<noteq> []" and "prefix p s"
    by (auto simp: lead_def find_Some_iff split: option.splits)
  then have "s \<noteq> []" by auto
  with l show "((ps, drop (lead ps s) s), ps, s) \<in> measure (\<lambda>(ps, s). length s)" by simp
qed simp

declare trim_front.simps [simp del]

definition trim_back :: "string list \<Rightarrow> string \<Rightarrow> string" where
  "trim_back ps s = rev (trim_front (map rev ps) (rev s))"

definition TrimSpace :: "string \<Rightarrow> string" where
  "TrimSpace s = trim_back space_runes (trim_front space_runes s)"

text \<open>\<open>strings.TrimRight(s, "/")\<close> and its kin, for a cutset of ASCII characters.\<close>

definition TrimRight :: "string \<Rightarrow> string \<Rightarrow> string" where
  "TrimRight s cutset = rev (dropWhile (\<lambda>c. c \<in> set cutset) (rev s))"

lemma lead_0_iff: "lead ps s = 0 \<longleftrightarrow> (\<forall>p \<in> set ps. p \<noteq> [] \<longrightarrow> \<not> prefix p s)"
  by (auto simp: lead_def find_None_iff find_Some_iff split: option.splits) 

lemma lead_Nil [simp]: "lead ps [] = 0"
  by (simp add: lead_0_iff)

lemma trim_front_Nil [simp]: "trim_front ps [] = []"
  by (subst trim_front.simps) simp

lemma trim_front_id: "lead ps s = 0 \<Longrightarrow> trim_front ps s = s"
  by (subst trim_front.simps) simp

lemma lead_trim_front [simp]: "lead ps (trim_front ps s) = 0"
  by (induction ps s rule: trim_front.induct) (subst trim_front.simps, auto simp: trim_front_id)

lemma suffix_trim_front: "suffix (trim_front ps s) s"
proof (induction ps s rule: trim_front.induct)
  case (1 ps s)
  then show ?case
    by (subst trim_front.simps) (auto intro: suffix_order.trans suffix_drop)
qed

lemma trim_front_idem [simp]: "trim_front ps (trim_front ps s) = trim_front ps s"
  by (rule trim_front_id) simp

lemma prefix_trim_back: "prefix (trim_back ps s) s"
  using suffix_trim_front [of "map rev ps" "rev s"]
  by (simp add: trim_back_def suffix_to_prefix)

lemma trim_back_idem [simp]: "trim_back ps (trim_back ps s) = trim_back ps s"
  by (simp add: trim_back_def)

lemma trim_back_Nil [simp]: "trim_back ps [] = []"
  by (simp add: trim_back_def)

lemma lead_prefix: "prefix t s \<Longrightarrow> lead ps s = 0 \<Longrightarrow> lead ps t = 0"
  by (auto simp: lead_0_iff intro: prefix_order.trans)

lemma lead_TrimSpace [simp]: "lead space_runes (TrimSpace s) = 0"
  unfolding TrimSpace_def by (rule lead_prefix [OF prefix_trim_back]) simp

lemma TrimSpace_idem [simp]: "TrimSpace (TrimSpace s) = TrimSpace s"
proof -
  have "trim_front space_runes (TrimSpace s) = TrimSpace s"
    by (rule trim_front_id) simp
  then show ?thesis
    unfolding TrimSpace_def [of "TrimSpace s"] by (simp add: TrimSpace_def)
qed

lemma TrimSpace_Nil [simp]: "TrimSpace [] = []"
  by (simp add: TrimSpace_def)

lemma TrimSpace_sublist: "sublist (TrimSpace s) s"
proof -
  have "prefix (TrimSpace s) (trim_front space_runes s)"
    unfolding TrimSpace_def by (rule prefix_trim_back)
  then show ?thesis
    using suffix_trim_front [of space_runes s]
    by (meson prefix_imp_sublist suffix_imp_sublist sublist_order.order.trans)
qed

lemma set_TrimSpace: "set (TrimSpace s) \<subseteq> set s"
  using TrimSpace_sublist set_mono_sublist by blast

lemma length_TrimSpace: "length (TrimSpace s) \<le> length s"
  using TrimSpace_sublist sublist_length_le by blast

text \<open>A string whose first and last byte are plain characters is its own trim.\<close>

definition plain :: "char \<Rightarrow> bool" where
  "plain c \<longleftrightarrow> 0x20 < (of_char c :: nat) \<and> (of_char c :: nat) < 0x80"

lemma lead_plain:
  assumes "plain (hd s)" and "s \<noteq> []" and "\<And>p. p \<in> set ps \<Longrightarrow> p \<noteq> [] \<Longrightarrow> \<not> plain (hd p)"
  shows "lead ps s = 0"
proof -
  have "\<not> prefix p s" if "p \<in> set ps" "p \<noteq> []" for p
  proof
    assume "prefix p s"
    then have "hd p = hd s" using that by (auto simp: prefix_def)
    with assms that show False by metis
  qed
  then show ?thesis by (simp add: lead_0_iff)
qed

lemma space_runes_not_plain:
  "p \<in> set space_runes \<Longrightarrow> \<not> plain (hd p)"
  "p \<in> set (map rev space_runes) \<Longrightarrow> \<not> plain (hd p)"
  by (auto simp: space_runes_def plain_def)

lemma TrimSpace_plain:
  assumes "s \<noteq> []" and "plain (hd s)" and "plain (last s)"
  shows "TrimSpace s = s"
proof -
  have "trim_front space_runes s = s"
    by (rule trim_front_id, rule lead_plain) (use assms space_runes_not_plain in auto)
  moreover have "trim_front (map rev space_runes) (rev s) = rev s"
    by (rule trim_front_id, rule lead_plain)
      (use assms space_runes_not_plain(2) in \<open>auto simp: hd_rev\<close>)
  ultimately show ?thesis by (simp add: TrimSpace_def trim_back_def)
qed

text \<open>Trimming white space never removes a plain character.\<close>

lemma trim_front_plain:
  assumes "\<And>p x. p \<in> set ps \<Longrightarrow> x \<in> set p \<Longrightarrow> \<not> plain x" and "plain c" and "c \<in> set s"
  shows "c \<in> set (trim_front ps s)"
  using assms
proof (induction ps s rule: trim_front.induct)
  case (1 ps s)
  show ?case
  proof (cases "lead ps s = 0")
    case False
    then obtain p where p: "p \<in> set ps" "prefix p s" "lead ps s = length p"
      by (auto simp: lead_def find_Some_iff split: option.splits) (metis nth_mem)
    then have "c \<in> set (drop (lead ps s) s)"
      using 1(2-4) by (auto simp: prefix_def)
    with 1 False show ?thesis by (subst trim_front.simps) auto
  qed (use 1 in \<open>simp add: trim_front_id\<close>)
qed

lemma TrimSpace_plain_in: "plain c \<Longrightarrow> c \<in> set s \<Longrightarrow> c \<in> set (TrimSpace s)"
proof -
  assume c: "plain c" "c \<in> set s"
  have runes: "\<not> plain x" if "p \<in> set space_runes \<union> set (map rev space_runes)" "x \<in> set p" for p x
    using that by (auto simp: space_runes_def plain_def)
  have "c \<in> set (trim_front space_runes s)" by (rule trim_front_plain) (use runes c in auto)
  then show ?thesis
    unfolding TrimSpace_def trim_back_def set_rev
    by (intro trim_front_plain) (use runes c in auto)
qed

subsection \<open>Prefixes, cutting, splitting, replacing\<close>

definition HasPrefix :: "string \<Rightarrow> string \<Rightarrow> bool" where
  "HasPrefix s p \<longleftrightarrow> prefix p s"

definition TrimPrefix :: "string \<Rightarrow> string \<Rightarrow> string" where
  "TrimPrefix s p = (if prefix p s then drop (length p) s else s)"

text \<open>\<open>strings.CutSuffix\<close>: the base and whether the suffix was there.\<close>

definition CutSuffix :: "string \<Rightarrow> string \<Rightarrow> string \<times> bool" where
  "CutSuffix s e = (if suffix e s then (take (length s - length e) s, True) else (s, False))"

text \<open>\<open>strings.Cut\<close> and \<open>strings.Split\<close> for a separator of one byte.\<close>

definition Cut :: "string \<Rightarrow> char \<Rightarrow> string \<times> string \<times> bool" where
  "Cut s c = (if c \<in> set s then (takeWhile (\<lambda>x. x \<noteq> c) s, tl (dropWhile (\<lambda>x. x \<noteq> c) s), True)
              else (s, [], False))"

fun Split :: "string \<Rightarrow> char \<Rightarrow> string list" where
  "Split [] c = [[]]"
| "Split (x # xs) c =
     (if x = c then [] # Split xs c
      else (case Split xs c of [] \<Rightarrow> [[x]] | p # ps \<Rightarrow> (x # p) # ps))"

definition Contains :: "string \<Rightarrow> char \<Rightarrow> bool" where
  "Contains s c \<longleftrightarrow> c \<in> set s"

text \<open>\<open>strings.Join\<close>.\<close>

fun Join :: "string list \<Rightarrow> string \<Rightarrow> string" where
  "Join [] sep = []"
| "Join [s] sep = s"
| "Join (s # t # ss) sep = s @ sep @ Join (t # ss) sep"

text \<open>\<open>strings.ReplaceAll\<close> for a non-empty \<open>old\<close>: leftmost occurrences, not overlapping.\<close>

function ReplaceAll :: "string \<Rightarrow> string \<Rightarrow> string \<Rightarrow> string" where
  "ReplaceAll s old new =
     (case s of [] \<Rightarrow> []
      | c # cs \<Rightarrow> if old \<noteq> [] \<and> prefix old s then new @ ReplaceAll (drop (length old) s) old new
                  else c # ReplaceAll cs old new)"
  by pat_completeness auto
termination
  by (relation "measure (\<lambda>(s, old, new). length s)") auto

declare ReplaceAll.simps [simp del]

lemma Split_not_Nil [simp]: "Split s c \<noteq> []"
  by (induction s) (auto split: list.splits)

lemma Split_no_sep: "c \<notin> set s \<Longrightarrow> Split s c = [s]"
  by (induction s) auto

lemma Split_append: "c \<notin> set p \<Longrightarrow> Split (p @ c # s) c = p # Split s c"
  by (induction p) auto

lemma Join_Split: "Join (Split s c) [c] = s"
proof (induction s)
  case (Cons x xs)
  obtain p ps where "Split xs c = p # ps" by (cases "Split xs c") auto
  with Cons show ?case by (cases ps) auto
qed simp

lemma Split_Join: "ps \<noteq> [] \<Longrightarrow> (\<And>p. p \<in> set ps \<Longrightarrow> c \<notin> set p) \<Longrightarrow> Split (Join ps [c]) c = ps"
  by (induction ps "[c]" rule: Join.induct) (simp_all add: Split_no_sep Split_append)

lemma Split_parts: "p \<in> set (Split s c) \<Longrightarrow> c \<notin> set p \<and> set p \<subseteq> set s"
proof (induction s arbitrary: p)
  case (Cons x xs)
  obtain q qs where q: "Split xs c = q # qs" by (cases "Split xs c") auto
  with Cons.IH [of q] Cons.IH [of p] Cons.prems show ?case
    by (auto split: if_splits)
qed simp

lemma Cut_append: "c \<notin> set p \<Longrightarrow> Cut (p @ c # s) c = (p, s, True)"
  by (induction p) (auto simp: Cut_def)

lemma Cut_found: "Cut s c = (l, r, True) \<Longrightarrow> s = l @ c # r \<and> c \<notin> set l"
proof -
  assume a: "Cut s c = (l, r, True)"
  then have "c \<in> set s" by (auto simp: Cut_def split: if_splits)
  then obtain p q where "s = p @ c # q" and "c \<notin> set p" by (meson split_list_first)
  with a show ?thesis by (simp add: Cut_append)
qed

lemma Cut_not_found: "c \<notin> set s \<Longrightarrow> Cut s c = (s, [], False)"
  by (simp add: Cut_def)

lemma TrimPrefix_append [simp]: "TrimPrefix (p @ s) p = s"
  by (simp add: TrimPrefix_def)

lemma ReplaceAll_Nil [simp]: "ReplaceAll [] old new = []"
  by (subst ReplaceAll.simps) simp

lemma ReplaceAll_absent: "\<not> sublist old s \<Longrightarrow> ReplaceAll s old new = s"
proof (induction s)
  case (Cons c cs)
  then have "\<not> prefix old (c # cs)" and "\<not> sublist old cs"
    by (auto simp: sublist_Cons_right)
  with Cons show ?case by (subst ReplaceAll.simps) simp
qed simp

lemma ReplaceAll_append:
  assumes "old \<noteq> []" and "hd old \<notin> set s"
  shows "ReplaceAll (s @ t) old new = s @ ReplaceAll t old new"
  using assms(2)
proof (induction s)
  case (Cons c cs)
  then have "\<not> prefix old (c # cs @ t)" using assms(1) by (cases old) auto
  with Cons show ?case by (subst ReplaceAll.simps) simp
qed simp

lemma ReplaceAll_hit: "old \<noteq> [] \<Longrightarrow> ReplaceAll (old @ s) old new = new @ ReplaceAll s old new"
proof -
  assume "old \<noteq> []"
  then obtain x xs where old: "old = x # xs" by (cases old) auto
  show ?thesis
    unfolding old by (simp add: ReplaceAll.simps [of "x # xs @ s"])
qed

subsection \<open>Case folding\<close>

text \<open>
  \<open>utf8_runes\<close> decodes UTF-8 as \<open>for _, r := range s\<close> does: an invalid byte is the rune
  U+FFFD, one byte wide. \<open>EqualFold\<close> compares the runes pairwise: equal, or the two cases
  of an ASCII letter, or, when one of them is beyond ASCII, in the same orbit of
  \<open>unicode.SimpleFold\<close>.
\<close>

definition byte :: "char \<Rightarrow> nat" where "byte c = of_char c"

definition cont :: "nat \<Rightarrow> nat \<Rightarrow> char \<Rightarrow> bool" where
  "cont lo hi c \<longleftrightarrow> lo \<le> byte c \<and> byte c \<le> hi"

text \<open>The rune at the front of a non-empty string and its width (\<open>utf8.DecodeRuneInString\<close>).\<close>

definition decode_rune :: "string \<Rightarrow> nat \<times> nat" where
  "decode_rune s =
    (let b0 = byte (s ! 0); n = length s; bad = (0xFFFD, 1) in
     if b0 < 0x80 then (b0, 1)
     else if 0xC2 \<le> b0 \<and> b0 \<le> 0xDF then
       (if 1 < n \<and> cont 0x80 0xBF (s ! 1) then ((b0 - 0xC0) * 64 + (byte (s ! 1) - 0x80), 2) else bad)
     else if 0xE0 \<le> b0 \<and> b0 \<le> 0xEF then
       (if 2 < n \<and> cont (if b0 = 0xE0 then 0xA0 else 0x80) (if b0 = 0xED then 0x9F else 0xBF) (s ! 1)
            \<and> cont 0x80 0xBF (s ! 2)
        then ((b0 - 0xE0) * 4096 + (byte (s ! 1) - 0x80) * 64 + (byte (s ! 2) - 0x80), 3) else bad)
     else if 0xF0 \<le> b0 \<and> b0 \<le> 0xF4 then
       (if 3 < n \<and> cont (if b0 = 0xF0 then 0x90 else 0x80) (if b0 = 0xF4 then 0x8F else 0xBF) (s ! 1)
            \<and> cont 0x80 0xBF (s ! 2) \<and> cont 0x80 0xBF (s ! 3)
        then ((b0 - 0xF0) * 262144 + (byte (s ! 1) - 0x80) * 4096 + (byte (s ! 2) - 0x80) * 64
               + (byte (s ! 3) - 0x80), 4) else bad)
     else bad)"

lemma decode_rune_width: "0 < snd (decode_rune s)"
  by (simp add: decode_rune_def Let_def)

function utf8_runes :: "string \<Rightarrow> nat list" where
  "utf8_runes s = (if s = [] then []
     else fst (decode_rune s) # utf8_runes (drop (snd (decode_rune s)) s))"
  by pat_completeness auto
termination
  by (relation "measure length") (auto simp: decode_rune_width)

declare utf8_runes.simps [simp del]

definition fold_eq :: "(nat \<Rightarrow> nat \<Rightarrow> bool) \<Rightarrow> nat \<Rightarrow> nat \<Rightarrow> bool" where
  "fold_eq orbit s t =
    (let sr = min s t; tr = max s t in
     sr = tr
     \<or> (if tr < 0x80 then 0x41 \<le> sr \<and> sr \<le> 0x5A \<and> tr = sr + 0x20 else orbit sr tr))"

definition EqualFold :: "(nat \<Rightarrow> nat \<Rightarrow> bool) \<Rightarrow> string \<Rightarrow> string \<Rightarrow> bool" where
  "EqualFold orbit s t = list_all2 (fold_eq orbit) (utf8_runes s) (utf8_runes t)"

definition ascii :: "string \<Rightarrow> bool" where
  "ascii s \<longleftrightarrow> (\<forall>c \<in> set s. byte c < 0x80)"

definition lower :: "nat \<Rightarrow> nat" where
  "lower r = (if 0x41 \<le> r \<and> r \<le> 0x5A then r + 0x20 else r)"

lemma utf8_runes_Nil [simp]: "utf8_runes [] = []"
  by (subst utf8_runes.simps) simp

lemma utf8_runes_Cons_ascii: "byte c < 0x80 \<Longrightarrow> utf8_runes (c # s) = byte c # utf8_runes s"
  by (subst utf8_runes.simps) (simp add: decode_rune_def)

lemma utf8_runes_code [code]:
  "utf8_runes [] = []"
  "utf8_runes (c # s) = (if byte c < 0x80 then byte c # utf8_runes s
     else fst (decode_rune (c # s)) # utf8_runes (drop (snd (decode_rune (c # s))) (c # s)))"
  by (simp_all add: utf8_runes_Cons_ascii) (subst utf8_runes.simps, simp)

lemma utf8_runes_ascii: "ascii s \<Longrightarrow> utf8_runes s = map byte s"
  by (induction s) (auto simp: ascii_def utf8_runes_Cons_ascii)

lemma fold_eq_refl [simp]: "fold_eq orbit r r"
  by (simp add: fold_eq_def)

lemma fold_eq_sym: "fold_eq orbit r s = fold_eq orbit s r"
  by (simp add: fold_eq_def min.commute max.commute)

lemma fold_eq_ascii: "r < 0x80 \<Longrightarrow> s < 0x80 \<Longrightarrow> fold_eq orbit r s \<longleftrightarrow> lower r = lower s"
  by (auto simp: fold_eq_def lower_def Let_def min_def max_def)

lemma EqualFold_refl [simp]: "EqualFold orbit s s"
  by (simp add: EqualFold_def list_all2_same)

lemma EqualFold_sym: "EqualFold orbit s t = EqualFold orbit t s"
  unfolding EqualFold_def by (auto simp: list_all2_conv_all_nth fold_eq_sym)

text \<open>On ASCII text the comparison is equality of the lower-case text.\<close>

lemma EqualFold_ascii:
  assumes "ascii s" and "ascii t"
  shows "EqualFold orbit s t \<longleftrightarrow> map (lower \<circ> byte) s = map (lower \<circ> byte) t"
proof -
  have "list_all2 (fold_eq orbit) (map byte s) (map byte t)
      \<longleftrightarrow> list_all2 (\<lambda>a b. lower (byte a) = lower (byte b)) s t"
    using assms by (auto simp: list_all2_conv_all_nth fold_eq_ascii ascii_def)
  also have "\<dots> \<longleftrightarrow> map (lower \<circ> byte) s = map (lower \<circ> byte) t"
    by (auto simp: list_eq_iff_nth_eq list_all2_conv_all_nth)
  finally show ?thesis using assms by (simp add: EqualFold_def utf8_runes_ascii)
qed

lemma set_ReplaceAll_empty: "set (ReplaceAll s old []) \<subseteq> set s"
proof (induction s old "[] :: string" rule: ReplaceAll.induct)
  case (1 s old)
  show ?case
  proof (cases s)
    case (Cons c cs)
    with 1 show ?thesis
      using set_drop_subset [of "length old" "c # cs"] by (subst ReplaceAll.simps) auto
  qed simp
qed

lemma ascii_subset: "ascii s \<Longrightarrow> set t \<subseteq> set s \<Longrightarrow> ascii t"
  by (auto simp: ascii_def)

subsection \<open>Printing and parsing integers\<close>

text \<open>\<open>strconv.FormatInt(i, 10)\<close> and \<open>strconv.ParseInt(s, 10, 64)\<close> (\<open>None\<close> for an error).\<close>

definition digit_char :: "nat \<Rightarrow> char" where "digit_char d = char_of (48 + d)"

fun nat_digits :: "nat \<Rightarrow> string" where
  "nat_digits n = (if n < 10 then [digit_char n] else nat_digits (n div 10) @ [digit_char (n mod 10)])"

declare nat_digits.simps [simp del]

definition FormatInt :: "int \<Rightarrow> string" where
  "FormatInt i = (if i < 0 then CHR ''-'' # nat_digits (nat (- i)) else nat_digits (nat i))"

definition digit_val :: "char \<Rightarrow> nat option" where
  "digit_val c = (if 48 \<le> byte c \<and> byte c \<le> 57 then Some (byte c - 48) else None)"

fun parse_digits :: "nat \<Rightarrow> string \<Rightarrow> nat option" where
  "parse_digits acc [] = Some acc"
| "parse_digits acc (c # cs) =
     (case digit_val c of None \<Rightarrow> None | Some d \<Rightarrow> parse_digits (10 * acc + d) cs)"

definition ParseInt :: "string \<Rightarrow> int option" where
  "ParseInt s =
    (let neg = (s \<noteq> [] \<and> hd s = CHR ''-'');
         ds = (if s \<noteq> [] \<and> (hd s = CHR ''+'' \<or> hd s = CHR ''-'') then tl s else s) in
     if ds = [] then None
     else case parse_digits 0 ds of
       None \<Rightarrow> None
     | Some n \<Rightarrow>
         if \<not> neg \<and> 2 ^ 63 \<le> n then None
         else if neg \<and> 2 ^ 63 < n then None
         else Some (if neg then - int n else int n))"

definition int64 :: "int \<Rightarrow> bool" where
  "int64 i \<longleftrightarrow> - (2 ^ 63) \<le> i \<and> i < 2 ^ 63"

lemma byte_digit_char: "d < 10 \<Longrightarrow> byte (digit_char d) = 48 + d"
  by (simp add: byte_def digit_char_def)

lemma digit_val_char [simp]: "d < 10 \<Longrightarrow> digit_val (digit_char d) = Some d"
  by (simp add: digit_val_def byte_digit_char)

lemma parse_digits_append:
  "parse_digits acc (s @ t) = (case parse_digits acc s of None \<Rightarrow> None | Some a \<Rightarrow> parse_digits a t)"
  by (induction s arbitrary: acc) (auto split: option.splits)

lemma parse_nat_digits: "parse_digits 0 (nat_digits n) = Some n"
proof (induction n rule: nat_digits.induct)
  case (1 n)
  then show ?case
    by (subst nat_digits.simps) (auto simp: parse_digits_append)
qed

lemma nat_digits_digits: "c \<in> set (nat_digits n) \<Longrightarrow> 48 \<le> byte c \<and> byte c \<le> 57"
proof (induction n rule: nat_digits.induct)
  case (1 n)
  then show ?case
    by (subst (asm) (2) nat_digits.simps) (auto simp: byte_digit_char split: if_splits)
qed

lemma nat_digits_not_Nil [simp]: "nat_digits n \<noteq> []"
  by (subst nat_digits.simps) simp

lemma byte_signs: "byte (CHR ''-'') = 45" "byte (CHR ''+'') = 43"
  by (simp_all add: byte_def)

lemma hd_nat_digits: "hd (nat_digits n) \<noteq> CHR ''-'' \<and> hd (nat_digits n) \<noteq> CHR ''+''"
proof -
  have "hd (nat_digits n) \<in> set (nat_digits n)" by simp
  then have "48 \<le> byte (hd (nat_digits n))" using nat_digits_digits by blast
  then show ?thesis by (auto simp: byte_signs)
qed

lemma ParseInt_FormatInt: "int64 i \<Longrightarrow> ParseInt (FormatInt i) = Some i"
  using hd_nat_digits [of "nat i"]
  by (auto simp: ParseInt_def FormatInt_def int64_def parse_nat_digits Let_def)

lemma ParseInt_int64: "ParseInt s = Some i \<Longrightarrow> int64 i"
  by (auto simp: ParseInt_def int64_def Let_def split: if_splits option.splits)

lemma FormatInt_plain:
  "FormatInt i \<noteq> []" "plain (hd (FormatInt i))" "plain (last (FormatInt i))"
proof -
  have *: "plain c" if "c \<in> set (nat_digits n)" for c n
    using nat_digits_digits [OF that] by (simp add: plain_def byte_def)
  show "FormatInt i \<noteq> []" by (simp add: FormatInt_def)
  have hd_last: "plain (hd (nat_digits n))" "plain (last (nat_digits n))" for n
    by (rule * [of _ n], simp)+
  show "plain (hd (FormatInt i))" "plain (last (FormatInt i))"
    by (simp_all add: FormatInt_def hd_last plain_def [of "CHR ''-''"])
qed

lemma TrimSpace_FormatInt [simp]: "TrimSpace (FormatInt i) = FormatInt i"
  by (rule TrimSpace_plain) (rule FormatInt_plain)+

lemma nat_digits_eq [simp]: "nat_digits m = nat_digits n \<longleftrightarrow> m = n"
  by (metis parse_nat_digits option.inject)

lemma FormatInt_eq [simp]: "FormatInt i = FormatInt j \<longleftrightarrow> i = j"
proof -
  have "CHR ''-'' # s \<noteq> nat_digits n" for s n
    using hd_nat_digits [of n] by (metis list.sel(1))
  moreover from this have "nat_digits n \<noteq> CHR ''-'' # s" for s n by metis
  ultimately show ?thesis by (auto simp: FormatInt_def)
qed

text \<open>Wrap-around at 64 bits, and \<open>Time.UnixNano\<close>, which wraps outside 1678 to 2262.\<close>

definition wrap64 :: "int \<Rightarrow> int" where
  "wrap64 i = (i + 2 ^ 63) mod 2 ^ 64 - 2 ^ 63"

lemma wrap64_int64 [simp]: "int64 i \<Longrightarrow> wrap64 i = i"
  by (simp add: wrap64_def int64_def)

lemma int64_wrap64: "int64 (wrap64 i)"
  by (simp add: wrap64_def int64_def)

definition UnixNano :: "instant \<Rightarrow> int" where
  "UnixNano t = wrap64 (t - unix_epoch * Second)"

text \<open>\<open>fmt\<close>'s \<open>%06d\<close> for a non-negative number.\<close>

definition pad :: "nat \<Rightarrow> string \<Rightarrow> string" where
  "pad n s = replicate (n - length s) (CHR ''0'') @ s"

lemma length_nat_digits: "0 < k \<Longrightarrow> n < 10 ^ k \<Longrightarrow> length (nat_digits n) \<le> k"
proof (induction n arbitrary: k rule: nat_digits.induct)
  case (1 n)
  show ?case
  proof (cases "n < 10")
    case True
    with "1.prems" show ?thesis by (subst nat_digits.simps) simp
  next
    case False
    have "k \<noteq> 1" using False "1.prems" by auto
    then obtain j where k: "k = Suc j" and "0 < j"
      using "1.prems" by (cases k) auto
    with "1.prems" have "n div 10 < 10 ^ j" by (simp add: less_mult_imp_div_less mult.commute)
    with "1.IH" [OF False \<open>0 < j\<close>] False k show ?thesis by (subst nat_digits.simps) simp
  qed
qed

subsection \<open>Hexadecimal\<close>

definition hex_char :: "nat \<Rightarrow> char" where
  "hex_char d = (if d < 10 then char_of (48 + d) else char_of (87 + d))"

definition hex_EncodeToString :: "string \<Rightarrow> string" where
  "hex_EncodeToString bs = concat (map (\<lambda>b. [hex_char (byte b div 16), hex_char (byte b mod 16)]) bs)"

lemma byte_hex_char: "d < 16 \<Longrightarrow> byte (hex_char d) = (if d < 10 then 48 + d else 87 + d)"
  by (auto simp: byte_def hex_char_def)

lemma byte_less_256 [simp]: "byte c < 256"
  by (simp add: byte_def)

lemma byte_inj: "byte a = byte b \<longleftrightarrow> a = b"
  by (simp add: byte_def)

lemma byte_nibbles: "byte c div 16 < 16" "byte c mod 16 < 16"
  by (rule less_mult_imp_div_less) simp_all

lemma hex_char_inj:
  assumes "a < 16" and "b < 16" and "hex_char a = hex_char b"
  shows "a = b"
proof -
  have "byte (hex_char a) = byte (hex_char b)" by (simp add: assms(3))
  then have "(if a < 10 then 48 + a else 87 + a) = (if b < 10 then 48 + b else 87 + b)"
    by (simp only: byte_hex_char [OF assms(1)] byte_hex_char [OF assms(2)])
  with assms(1,2) show ?thesis by (simp split: if_splits)
qed

lemma length_hex [simp]: "length (hex_EncodeToString bs) = 2 * length bs"
  by (induction bs) (auto simp: hex_EncodeToString_def)

lemma hex_inj: "hex_EncodeToString a = hex_EncodeToString b \<Longrightarrow> a = b"
proof (induction a arbitrary: b)
  case Nil
  then show ?case by (cases b) (auto simp: hex_EncodeToString_def)
next
  case (Cons x xs)
  then obtain y ys where b: "b = y # ys" by (cases b) (auto simp: hex_EncodeToString_def)
  from Cons.prems b have "hex_char (byte x div 16) = hex_char (byte y div 16)"
      "hex_char (byte x mod 16) = hex_char (byte y mod 16)"
      and tl: "hex_EncodeToString xs = hex_EncodeToString ys"
    by (auto simp: hex_EncodeToString_def)
  then have "byte x div 16 = byte y div 16" "byte x mod 16 = byte y mod 16"
    by (blast intro: hex_char_inj byte_nibbles)+
  then have "byte x = byte y" by (metis div_mult_mod_eq)
  with Cons.IH [OF tl] b show ?case by (simp add: byte_inj)
qed

lemma hex_chars: "c \<in> set (hex_EncodeToString bs) \<Longrightarrow>
    (48 \<le> byte c \<and> byte c \<le> 57) \<or> (97 \<le> byte c \<and> byte c \<le> 102)"
proof -
  assume "c \<in> set (hex_EncodeToString bs)"
  then obtain b where "c = hex_char (byte b div 16) \<or> c = hex_char (byte b mod 16)"
    by (auto simp: hex_EncodeToString_def)
  then obtain d where "d < 16" and "c = hex_char d"
    using byte_nibbles by blast
  then show ?thesis by (simp add: byte_hex_char split: if_splits)
qed

end
