(* ===== verification/Gin.thy ===== *)
theory Gin
  imports Prelude GoStrings
begin

section \<open>HTTP requests and handlers\<close>

text \<open>
  What the handlers see of gin and \<open>net/http\<close>. A \<open>Gin\<close> is the request as it is now (a
  middleware may replace its context and headers) and the response written so far; a handler
  maps it to the next one. \<open>c.Next()\<close> is the argument \<open>next\<close> of a middleware: the rest of the
  chain. Bodies are the shapes of JSON the code writes, \<open>'p\<close> being the payloads of the API.
  Header names are stored in canonical form, as \<open>net/http\<close> stores them.
\<close>

text \<open>
  \<open>In_URI\<close> is the target of the request as it was sent. A request body: the bytes that arrive,
  and the error that ends them, if any.
\<close>

record Request =
  In_Method :: string
  In_Host :: string
  In_URI :: string
  In_Path :: string
  In_Query :: "(string \<times> string) list"
  In_Header :: "(string \<times> string) list"
  In_RemoteAddr :: string
  In_Body :: "string \<times> go_error option"
  In_Ctx :: ctx

datatype 'p Body =
    NoBody
  | Envelope int string "'p option"
  | ErrorJSON string
  | IdpErrorJSON string string string
  | MessageJSON string
  | CodeMessageJSON int string
  | Location string

record 'p Gin =
  g_Request :: Request
  g_Status :: int
  g_Header :: "(string \<times> string) list"
  g_Body :: "'p Body"
  g_Errors :: "string list"

type_synonym ('w, 'p) handler = "'p Gin \<Rightarrow> ('w, 'p Gin) act"

definition new_Gin :: "Request \<Rightarrow> 'p Gin" where
  "new_Gin req = \<lparr>g_Request = req, g_Status = 200, g_Header = [], g_Body = NoBody, g_Errors = []\<rparr>"

definition c_Status :: "int \<Rightarrow> 'p Gin \<Rightarrow> 'p Gin" where
  "c_Status n c = c\<lparr>g_Status := n\<rparr>"

definition c_JSON :: "int \<Rightarrow> 'p Body \<Rightarrow> 'p Gin \<Rightarrow> 'p Gin" where
  "c_JSON n b c = c\<lparr>g_Status := n, g_Body := b\<rparr>"

subsection \<open>Headers\<close>

definition token_char :: "char \<Rightarrow> bool" where
  "token_char c \<longleftrightarrow> (let b = byte c in 97 \<le> b \<and> b \<le> 122 \<or> 65 \<le> b \<and> b \<le> 90 \<or> 48 \<le> b \<and> b \<le> 57
     \<or> c \<in> set ''!#$%&*+-.^_`|~'' \<or> b = 39)"

definition upper_char :: "char \<Rightarrow> char" where
  "upper_char c = (if 97 \<le> byte c \<and> byte c \<le> 122 then char_of (byte c - 32) else c)"

definition lower_char :: "char \<Rightarrow> char" where
  "lower_char c = (if 65 \<le> byte c \<and> byte c \<le> 90 then char_of (byte c + 32) else c)"

fun canonical :: "bool \<Rightarrow> string \<Rightarrow> string" where
  "canonical up [] = []"
| "canonical up (c # cs) = (if up then upper_char c else lower_char c) # canonical (c = CHR ''-'') cs"

text \<open>\<open>http.CanonicalHeaderKey\<close>.\<close>

definition CanonicalHeaderKey :: "string \<Rightarrow> string" where
  "CanonicalHeaderKey s = (if list_all token_char s then canonical True s else s)"

definition header_get :: "(string \<times> string) list \<Rightarrow> string \<Rightarrow> string" where
  "header_get h k = (case map_of h (CanonicalHeaderKey k) of None \<Rightarrow> [] | Some v \<Rightarrow> v)"

definition header_set :: "string \<Rightarrow> string \<Rightarrow> (string \<times> string) list \<Rightarrow> (string \<times> string) list" where
  "header_set k v h = (CanonicalHeaderKey k, v) # filter (\<lambda>e. fst e \<noteq> CanonicalHeaderKey k) h"

definition GetHeader :: "'p Gin \<Rightarrow> string \<Rightarrow> string" where
  "GetHeader c k = header_get (In_Header (g_Request c)) k"

text \<open>\<open>c.Header(k, v)\<close>: an empty value removes the header.\<close>

definition c_Header :: "string \<Rightarrow> string \<Rightarrow> 'p Gin \<Rightarrow> 'p Gin" where
  "c_Header k v c = c\<lparr>g_Header := (if v = [] then filter (\<lambda>e. fst e \<noteq> CanonicalHeaderKey k) (g_Header c)
     else header_set k v (g_Header c))\<rparr>"

text \<open>\<open>c.Query(k)\<close>.\<close>

definition Query :: "'p Gin \<Rightarrow> string \<Rightarrow> string" where
  "Query c k = (case map_of (In_Query (g_Request c)) k of None \<Rightarrow> [] | Some v \<Rightarrow> v)"

lemma map_of_drop: "map_of (filter (\<lambda>e. fst e \<noteq> a) h) k = (if k = a then None else map_of h k)"
  by (induction h) auto

lemma header_get_set: "header_get (header_set k v h) k' =
    (if CanonicalHeaderKey k = CanonicalHeaderKey k' then v else header_get h k')"
  by (auto simp: header_get_def header_set_def map_of_drop)

subsection \<open>Chains of handlers\<close>

definition set_ctx :: "ctx \<Rightarrow> 'p Gin \<Rightarrow> 'p Gin" where
  "set_ctx x c = c\<lparr>g_Request := (g_Request c)\<lparr>In_Ctx := x\<rparr>\<rparr>"

definition req_ctx :: "'p Gin \<Rightarrow> ctx" where
  "req_ctx c = In_Ctx (g_Request c)"

lemma req_ctx_simps [simp]: "req_ctx (set_ctx x c) = x" "In_Header (g_Request (set_ctx x c)) = In_Header (g_Request c)"
  "g_Status (set_ctx x c) = g_Status c" "g_Body (set_ctx x c) = g_Body c" "g_Header (set_ctx x c) = g_Header c"
  by (simp_all add: req_ctx_def set_ctx_def)

text \<open>A new context leaves the rest of the request as it was.\<close>

lemma set_ctx_request [simp]: "GetHeader (set_ctx x c) k = GetHeader c k" "Query (set_ctx x c) k = Query c k"
  "In_Body (g_Request (set_ctx x c)) = In_Body (g_Request c)" "In_Method (g_Request (set_ctx x c)) = In_Method (g_Request c)"
  "In_Path (g_Request (set_ctx x c)) = In_Path (g_Request c)" "In_RemoteAddr (g_Request (set_ctx x c)) = In_RemoteAddr (g_Request c)"
  "In_Host (g_Request (set_ctx x c)) = In_Host (g_Request c)" "In_URI (g_Request (set_ctx x c)) = In_URI (g_Request c)"
  "set_ctx y (set_ctx x c) = set_ctx y c"
  by (simp_all add: GetHeader_def Query_def set_ctx_def)

lemma writes_simps [simp]:
  "g_Status (c_Status n c) = n" "g_Body (c_Status n c) = g_Body c" "g_Header (c_Status n c) = g_Header c"
  "g_Status (c_JSON n b c) = n" "g_Body (c_JSON n b c) = b" "g_Header (c_JSON n b c) = g_Header c"
  "g_Request (c_Status n c) = g_Request c" "g_Request (c_JSON n b c) = g_Request c"
  "g_Status (c_Header k v c) = g_Status c" "g_Body (c_Header k v c) = g_Body c" "g_Request (c_Header k v c) = g_Request c"
  by (simp_all add: c_Status_def c_JSON_def c_Header_def)

end
