(* ===== verification/Net.thy ===== *)
theory Net
  imports GoStrings
begin

section \<open>Addresses of peers\<close>

text \<open>
  What common/auth uses of package \<open>net\<close>: \<open>SplitHostPort\<close> (the host, or \<open>None\<close> for an error),
  \<open>ParseIP\<close> (sixteen bytes, or \<open>None\<close>) and the predicates \<open>IsLoopback\<close>, \<open>IsPrivate\<close> and
  \<open>IsLinkLocalUnicast\<close>. An address is the list of its bytes as numbers; IPv4 addresses are
  held in their IPv6-mapped form, as Go does.
\<close>

type_synonym IP = "nat list"

subsection \<open>Hosts and ports\<close>

definition after_last :: "char \<Rightarrow> string \<Rightarrow> string" where
  "after_last c s = rev (takeWhile (\<lambda>x. x \<noteq> c) (rev s))"

definition before_last :: "char \<Rightarrow> string \<Rightarrow> string" where
  "before_last c s = rev (tl (dropWhile (\<lambda>x. x \<noteq> c) (rev s)))"

definition SplitHostPort :: "string \<Rightarrow> string option" where
  "SplitHostPort hostport =
    (if CHR '':'' \<notin> set hostport then None
     else if hd hostport = CHR ''['' then
       (if CHR '']'' \<notin> set hostport then None
        else let inner = takeWhile (\<lambda>c. c \<noteq> CHR '']'') hostport; rest = tl (dropWhile (\<lambda>c. c \<noteq> CHR '']'') hostport) in
          if rest = [] \<or> hd rest \<noteq> CHR '':'' \<or> CHR '':'' \<in> set (tl rest) then None
          else if CHR ''['' \<in> set (tl hostport) \<or> CHR '']'' \<in> set rest then None
          else Some (tl inner))
     else let host = before_last CHR '':'' hostport in
       if CHR '':'' \<in> set host \<or> CHR ''['' \<in> set hostport \<or> CHR '']'' \<in> set hostport then None
       else Some host)"

subsection \<open>Parsing addresses\<close>

definition hex_digit :: "char \<Rightarrow> nat option" where
  "hex_digit c = (if 48 \<le> byte c \<and> byte c \<le> 57 then Some (byte c - 48)
     else if 97 \<le> byte c \<and> byte c \<le> 102 then Some (byte c - 87)
     else if 65 \<le> byte c \<and> byte c \<le> 70 then Some (byte c - 55) else None)"

text \<open>One field of a dotted address: decimal, at most 255, no leading zero.\<close>

fun dec_value :: "nat \<Rightarrow> string \<Rightarrow> nat option" where
  "dec_value v [] = Some v"
| "dec_value v (c # cs) = (case digit_val c of
      None \<Rightarrow> None
    | Some d \<Rightarrow> if 255 < v * 10 + d then None else dec_value (v * 10 + d) cs)"

definition v4_field :: "string \<Rightarrow> nat option" where
  "v4_field s = (if s = [] \<or> (hd s = CHR ''0'' \<and> length s \<noteq> 1) then None else dec_value 0 s)"

definition parseIPv4Fields :: "string \<Rightarrow> IP option" where
  "parseIPv4Fields s = (case Split s CHR ''.'' of
      [a, b, c, d] \<Rightarrow> (case (v4_field a, v4_field b, v4_field c, v4_field d) of
          (Some a, Some b, Some c, Some d) \<Rightarrow> Some [a, b, c, d]
        | _ \<Rightarrow> None)
    | _ \<Rightarrow> None)"

definition v4_mapped :: "IP \<Rightarrow> IP" where
  "v4_mapped ip = replicate 10 0 @ [255, 255] @ ip"

text \<open>
  \<open>v6_groups\<close> is the loop of \<open>parseIPv6\<close>: \<open>ip\<close> are the bytes so far, \<open>ell\<close> the place of the
  ellipsis; \<open>v6_finish\<close> expands the ellipsis.
\<close>

fun hex_value_of :: "nat \<Rightarrow> string \<Rightarrow> nat" where
  "hex_value_of v [] = v"
| "hex_value_of v (c # cs) = (case hex_digit c of None \<Rightarrow> v | Some d \<Rightarrow> hex_value_of (v * 16 + d) cs)"

definition v6_finish :: "string \<Rightarrow> IP \<Rightarrow> nat option \<Rightarrow> IP option" where
  "v6_finish s ip ell =
    (if s \<noteq> [] then None
     else if length ip < 16 then (case ell of
         None \<Rightarrow> None
       | Some e \<Rightarrow> Some (take e ip @ replicate (16 - length ip) 0 @ drop e ip))
     else if ell \<noteq> None then None else Some ip)"

function v6_groups :: "string \<Rightarrow> IP \<Rightarrow> nat option \<Rightarrow> IP option" where
  "v6_groups s ip ell =
    (if 16 \<le> length ip then v6_finish s ip ell
     else let digits = takeWhile (\<lambda>c. hex_digit c \<noteq> None) s; rest = dropWhile (\<lambda>c. hex_digit c \<noteq> None) s in
       if digits = [] \<or> 4 < length digits then None
       else if rest \<noteq> [] \<and> hd rest = CHR ''.'' then
         (if (ell = None \<and> length ip \<noteq> 12) \<or> 16 < length ip + 4 then None
          else case parseIPv4Fields s of None \<Rightarrow> None | Some v4 \<Rightarrow> v6_finish [] (ip @ v4) ell)
       else let acc = hex_value_of 0 digits; ip' = ip @ [acc div 256, acc mod 256] in
         (case rest of
            [] \<Rightarrow> v6_finish [] ip' ell
          | c # rest' \<Rightarrow>
              if c \<noteq> CHR '':'' \<or> rest' = [] then None
              else if hd rest' = CHR '':'' then
                (if ell \<noteq> None then None
                 else if tl rest' = [] then v6_finish [] ip' (Some (length ip'))
                 else v6_groups (tl rest') ip' (Some (length ip')))
              else v6_groups rest' ip' ell))"
  by pat_completeness auto
termination
proof (relation "measure (\<lambda>(s, ip, ell). length s)", goal_cases)
  case (2 s ip ell digits rest acc ip' c rest')
  then have "Suc (length rest') \<le> length s"
    by (metis length_Cons length_dropWhile_le)
  then show ?case by simp
next
  case (3 s ip ell digits rest acc ip' c rest')
  then have "Suc (length rest') \<le> length s"
    by (metis length_Cons length_dropWhile_le)
  then show ?case by simp
qed simp

declare v6_groups.simps [simp del]

definition parseIPv6 :: "string \<Rightarrow> (IP \<times> string) option" where
  "parseIPv6 s0 = (case Cut s0 CHR ''%'' of (s, zone, found) \<Rightarrow>
     if found \<and> zone = [] then None
     else map_option (\<lambda>ip. (ip, zone))
       (if HasPrefix s ''::'' then
          (if drop 2 s = [] then Some (replicate 16 0) else v6_groups (drop 2 s) [] (Some 0))
        else v6_groups s [] None))"

definition ParseIP :: "string \<Rightarrow> IP option" where
  "ParseIP s = (case find (\<lambda>c. c \<in> set ''.:%'') s of
      Some c \<Rightarrow>
        if c = CHR ''.'' then map_option v4_mapped (parseIPv4Fields s)
        else if c = CHR '':'' then (case parseIPv6 s of
            Some (ip, zone) \<Rightarrow> if zone = [] then Some ip else None
          | None \<Rightarrow> None)
        else None
    | None \<Rightarrow> None)"

subsection \<open>Kinds of addresses\<close>

definition To4 :: "IP \<Rightarrow> IP option" where
  "To4 ip = (if length ip = 4 then Some ip
     else if length ip = 16 \<and> take 12 ip = replicate 10 0 @ [255, 255] then Some (drop 12 ip) else None)"

definition IsLoopback :: "IP \<Rightarrow> bool" where
  "IsLoopback ip = (case To4 ip of Some ip4 \<Rightarrow> ip4 ! 0 = 127 | None \<Rightarrow> ip = replicate 15 0 @ [1])"

definition IsPrivate :: "IP \<Rightarrow> bool" where
  "IsPrivate ip = (case To4 ip of
      Some ip4 \<Rightarrow> ip4 ! 0 = 10 \<or> (ip4 ! 0 = 172 \<and> ip4 ! 1 div 16 = 1) \<or> (ip4 ! 0 = 192 \<and> ip4 ! 1 = 168)
    | None \<Rightarrow> length ip = 16 \<and> ip ! 0 div 2 = 0x7e)"

definition IsLinkLocalUnicast :: "IP \<Rightarrow> bool" where
  "IsLinkLocalUnicast ip = (case To4 ip of
      Some ip4 \<Rightarrow> ip4 ! 0 = 169 \<and> ip4 ! 1 = 254
    | None \<Rightarrow> length ip = 16 \<and> ip ! 0 = 0xfe \<and> ip ! 1 div 64 = 2)"

subsection \<open>Dotted addresses\<close>

definition dotted :: "nat \<Rightarrow> nat \<Rightarrow> nat \<Rightarrow> nat \<Rightarrow> string" where
  "dotted a b c d = nat_digits a @ ''.'' @ nat_digits b @ ''.'' @ nat_digits c @ ''.'' @ nat_digits d"

lemma parse_digits_ge: "parse_digits v s = Some n \<Longrightarrow> v \<le> n"
  by (induction s arbitrary: v) (fastforce split: option.splits)+

lemma dec_value_parse: "parse_digits v s = Some n \<Longrightarrow> n \<le> 255 \<Longrightarrow> dec_value v s = Some n"
proof (induction s arbitrary: v)
  case (Cons c s)
  then obtain d where d: "digit_val c = Some d" "parse_digits (10 * v + d) s = Some n" by (auto split: option.splits)
  then have "v * 10 + d \<le> n" using parse_digits_ge by fastforce
  with Cons d show ?case by (simp add: mult.commute)
qed simp

lemma hd_nat_digits_0: "hd (nat_digits n) = CHR ''0'' \<Longrightarrow> n = 0"
proof (induction n rule: nat_digits.induct)
  case (1 n)
  show ?case
  proof (cases "n < 10")
    case True
    then have "nat_digits n = [digit_char n]" by (subst nat_digits.simps) simp
    with 1(2) have "byte (digit_char n) = byte (CHR ''0'')" by simp
    then show ?thesis using True by (simp add: byte_digit_char) (simp add: byte_def)
  next
    case False
    then have "nat_digits n = nat_digits (n div 10) @ [digit_char (n mod 10)]" by (subst nat_digits.simps) simp
    with 1 False show ?thesis by simp
  qed
qed

lemma v4_field_digits: "n < 256 \<Longrightarrow> v4_field (nat_digits n) = Some n"
proof (cases "n = 0")
  case True
  have "nat_digits 0 = [CHR ''0'']" by code_simp
  with True show ?thesis by (simp add: v4_field_def digit_val_def byte_def)
next
  case False
  assume "n < 256"
  with False show ?thesis
    using hd_nat_digits_0 [of n] by (auto simp: v4_field_def dec_value_parse [OF parse_nat_digits])
qed

lemma nat_digits_no: "byte c < 48 \<or> 57 < byte c \<Longrightarrow> c \<notin> set (nat_digits n)"
  using nat_digits_digits [of c n] by auto

lemma byte_marks: "byte (CHR ''.'') = 46" "byte (CHR '':'') = 58" "byte (CHR ''['') = 91" "byte (CHR '']'') = 93" "byte (CHR ''%'') = 37"
  by (simp_all add: byte_def)

lemma digits_no_marks [simp]:
  "CHR ''.'' \<notin> set (nat_digits n)" "CHR '':'' \<notin> set (nat_digits n)" "CHR ''['' \<notin> set (nat_digits n)"
  "CHR '']'' \<notin> set (nat_digits n)" "CHR ''%'' \<notin> set (nat_digits n)"
  by (rule nat_digits_no, simp add: byte_marks)+

lemma parse_dotted:
  assumes "a < 256" "b < 256" "c < 256" "d < 256"
  shows "ParseIP (dotted a b c d) = Some (v4_mapped [a, b, c, d])"
proof -
  have "find (\<lambda>x. x \<in> set ''.:%'') (p @ CHR ''.'' # q) = Some CHR ''.''" if "set p \<inter> set ''.:%'' = {}" for p q
    using that by (induction p) auto
  from this [of "nat_digits a"] have "find (\<lambda>x. x \<in> set ''.:%'') (dotted a b c d) = Some CHR ''.''"
    by (simp add: dotted_def)
  moreover have "Split (dotted a b c d) CHR ''.'' = [nat_digits a, nat_digits b, nat_digits c, nat_digits d]"
    by (simp add: dotted_def Split_append Split_no_sep)
  ultimately show ?thesis
    by (simp add: ParseIP_def parseIPv4Fields_def v4_field_digits assms)
qed

lemma SplitHostPort_plain:
  assumes "h \<noteq> []" and "set h \<inter> set '':[]'' = {}" and "set p \<inter> set '':[]'' = {}"
  shows "SplitHostPort (h @ CHR '':'' # p) = Some h"
proof -
  have "dropWhile (\<lambda>x. x \<noteq> CHR '':'') (rev p @ CHR '':'' # rev h) = CHR '':'' # rev h"
    using assms(3) by (subst dropWhile_append2) auto
  then have "before_last CHR '':'' (h @ CHR '':'' # p) = h" by (simp add: before_last_def)
  moreover have "hd h \<noteq> CHR ''[''" using assms(1,2) by (cases h) auto
  ultimately show ?thesis using assms by (simp add: SplitHostPort_def Let_def)
qed

lemma To4_mapped: "length ip = 4 \<Longrightarrow> To4 (v4_mapped ip) = Some ip"
  by (simp add: To4_def v4_mapped_def)

end
