(* ===== verification/Model.thy ===== *)
theory Model
  imports GoStrings
begin

section \<open>Rows and constants\<close>

text \<open>
  server/repository/model: the rows of the tables \<open>users\<close> and \<open>user_auth_mapping\<close>, the
  KYC statuses and the roles; server/http/data/const.go: the markets and languages a user
  may choose. Integers of type \<open>int64\<close> are \<open>int\<close>, bounded by \<open>int64\<close> where the code
  parses or prints them; times are instants.
\<close>

subsection \<open>server/repository/model\<close>

record User =
  User_ID :: int
  User_Name :: string
  User_Market :: string
  User_Language :: string
  User_Segment :: string
  User_KYCStatus :: string
  User_RiskLevel :: string
  User_CreatedAt :: instant

text \<open>\<open>model.User{}\<close>, the zero value.\<close>

definition zero_User :: User where
  "zero_User = \<lparr>User_ID = 0, User_Name = [], User_Market = [], User_Language = [],
     User_Segment = [], User_KYCStatus = [], User_RiskLevel = [], User_CreatedAt = 0\<rparr>"

definition User_TableName :: string where "User_TableName = ''users''"

record UserAuthMapping =
  Mapping_ID :: int
  Mapping_ClerkUserID :: string
  Mapping_Email :: string
  Mapping_InternalUserID :: int
  Mapping_Role :: string
  Mapping_CreatedAt :: instant
  Mapping_UpdatedAt :: instant

definition UserAuthMapping_TableName :: string where
  "UserAuthMapping_TableName = ''user_auth_mapping''"

definition RoleAdmin :: string where "RoleAdmin = ''admin''"
definition RoleUser :: string where "RoleUser = ''user''"

definition KYCStatusPassed :: string where "KYCStatusPassed = ''PASSED''"
definition KYCStatusPending :: string where "KYCStatusPending = ''PENDING''"
definition KYCStatusFailed :: string where "KYCStatusFailed = ''FAILED''"

lemmas kyc_status_defs = KYCStatusPassed_def KYCStatusPending_def KYCStatusFailed_def

lemma kyc_status_distinct [simp]:
  "KYCStatusPassed \<noteq> KYCStatusFailed" "KYCStatusFailed \<noteq> KYCStatusPassed"
  "KYCStatusPassed \<noteq> KYCStatusPending" "KYCStatusPending \<noteq> KYCStatusPassed"
  "KYCStatusFailed \<noteq> KYCStatusPending" "KYCStatusPending \<noteq> KYCStatusFailed"
  "KYCStatusPassed \<noteq> []" "KYCStatusFailed \<noteq> []" "KYCStatusPending \<noteq> []"
  by (simp_all add: kyc_status_defs)

subsection \<open>server/http/data/const.go\<close>

definition validMarkets :: "string list" where
  "validMarkets = [''GLOBAL'', ''SG'', ''HK'', ''US'', ''EEA'', ''UK'', ''UAE'', ''AU'', ''JP'',
     ''KR'', ''TR'', ''BR'', ''LATAM'', ''SEA'']"

definition IsValidMarket :: "string \<Rightarrow> bool" where
  "IsValidMarket v \<longleftrightarrow> v \<in> set validMarkets"

definition validLanguages :: "string list" where
  "validLanguages = [''en'', ''zh-CN'', ''zh-TW'', ''es'', ''pt-BR'', ''ja'', ''ko'', ''ar'', ''tr'',
     ''fr'', ''de'', ''vi'', ''id'', ''th'']"

definition IsValidLanguage :: "string \<Rightarrow> bool" where
  "IsValidLanguage v \<longleftrightarrow> v \<in> set validLanguages"

text \<open>Every market and language is a non-empty string without white space at its ends.\<close>

lemma market_shape: "IsValidMarket m \<Longrightarrow> m \<noteq> [] \<and> TrimSpace m = m"
proof -
  have "list_all (\<lambda>m. m \<noteq> [] \<and> plain (hd m) \<and> plain (last m)) validMarkets"
    by (simp add: validMarkets_def plain_def)
  then show "IsValidMarket m \<Longrightarrow> m \<noteq> [] \<and> TrimSpace m = m"
    by (auto simp: IsValidMarket_def list_all_iff intro: TrimSpace_plain)
qed

lemma language_shape: "IsValidLanguage l \<Longrightarrow> l \<noteq> [] \<and> TrimSpace l = l"
proof -
  have "list_all (\<lambda>l. l \<noteq> [] \<and> plain (hd l) \<and> plain (last l)) validLanguages"
    by (simp add: validLanguages_def plain_def)
  then show "IsValidLanguage l \<Longrightarrow> l \<noteq> [] \<and> TrimSpace l = l"
    by (auto simp: IsValidLanguage_def list_all_iff intro: TrimSpace_plain)
qed

end
