(* ===== verification/Clients.thy ===== *)
theory Clients
  imports Model
begin

section \<open>Third-party clients and what is relied on\<close>

text \<open>
  The code talks to MySQL through gorm, to Redis through go-redis, to Kafka through
  franz-go, and to other services through \<open>net/http\<close>; it reads the clock, the random
  source and the process environment. None of that code is in the repository: each client
  is a record of functions, an argument of the definitions that use it, one field for each
  call the code makes. The predicates \<open>gorm_ok\<close>, \<open>redis_ok\<close>, \<open>kafka_ok\<close> state the
  documented behaviour of these calls on what the servers store (\<open>Stores\<close>, read off the
  world by a function \<open>S\<close>). Calls may fail at any time; a failed write may or may not
  have reached the server; a cached entry may expire at any time; a transaction that
  reports an error has either been rolled back or been applied as a whole.
\<close>

subsection \<open>The calls\<close>

datatype MappingWhere =
    clerk_user_id_eq string
  | email_eq string
  | internal_user_id_eq int

record 'w GormDB =
  gorm_FirstUser :: "ctx \<Rightarrow> int \<Rightarrow> ('w, User) act"
  gorm_FirstMapping :: "ctx \<Rightarrow> MappingWhere \<Rightarrow> ('w, UserAuthMapping) act"
  gorm_CreateUser :: "User \<Rightarrow> ('w, User) act"
  gorm_CreateMapping :: "UserAuthMapping \<Rightarrow> ('w, UserAuthMapping) act"
  gorm_UpdateKYCStatus :: "ctx \<Rightarrow> int \<Rightarrow> string \<Rightarrow> ('w, int) act"
  gorm_UpdatesUser :: "ctx \<Rightarrow> int \<Rightarrow> User \<Rightarrow> ('w, int) act"
  gorm_Transaction :: "ctx \<Rightarrow> ('w, User) act \<Rightarrow> ('w, User) act"

record 'w RedisClient =
  redis_Get :: "ctx \<Rightarrow> string \<Rightarrow> ('w, string) act"
  redis_Set :: "ctx \<Rightarrow> string \<Rightarrow> string \<Rightarrow> duration \<Rightarrow> ('w, unit) act"
  redis_Del :: "ctx \<Rightarrow> string \<Rightarrow> ('w, unit) act"

record KafkaRecord =
  Record_Topic :: string
  Record_Key :: string
  Record_Value :: string
  Record_Headers :: "(string \<times> string) list"

record 'w KgoClient =
  kgo_ProduceSync :: "ctx \<Rightarrow> KafkaRecord \<Rightarrow> ('w, unit) act"

record HttpRequest =
  Req_Method :: string
  Req_URL :: string
  Req_Header :: "(string \<times> string) list"
  Req_Body :: string

text \<open>A response, its body with the error that reading it may give.\<close>

record HttpResponse =
  Resp_StatusCode :: int
  Resp_Body :: "go_error + string"

record 'w HttpClient =
  http_Do :: "ctx \<Rightarrow> HttpRequest \<Rightarrow> ('w, HttpResponse) act"

text \<open>
  Clock, random source and environment; the package variable \<open>log.Logger\<close> and the sink of its
  lines; and OpenTelemetry: a span is started in a context, which then carries it, and is
  called by its handle; a context is injected into headers.
\<close>

datatype SpanKind = SpanKindInternal | SpanKindServer | SpanKindClient | SpanKindProducer | SpanKindConsumer

datatype SpanCode = SpanError | SpanOk

datatype SpanCall = RecordError go_error | SetStatus SpanCode string | EndSpan

record 'w Runtime =
  time_Now :: "'w \<Rightarrow> instant \<times> 'w"
  rand_Read :: "nat \<Rightarrow> ('w, string) act"
  rand_Int :: "int \<Rightarrow> ('w, int) act"
  os_Getenv :: "string \<Rightarrow> string"
  log_Logger :: Logger
  log_Write :: "LogEntry \<Rightarrow> 'w \<Rightarrow> 'w"
  otel_Start :: "string \<Rightarrow> string \<Rightarrow> SpanKind \<Rightarrow> (string \<times> string) list \<Rightarrow> ctx \<Rightarrow> 'w \<Rightarrow> (ctx \<times> nat option) \<times> 'w"
  otel_Span :: "nat \<Rightarrow> SpanCall \<Rightarrow> 'w \<Rightarrow> 'w"
  otel_Inject :: "ctx \<Rightarrow> (string \<times> string) list"

definition now :: "'w Runtime \<Rightarrow> ('w, instant) act" where
  "now R = (\<lambda>w. case time_Now R w of (t, w') \<Rightarrow> (Ok t, w'))"

subsection \<open>What the servers store\<close>

record Stores =
  st_users :: "int \<Rightarrow> User option"
  st_mappings :: "UserAuthMapping list"
  st_cache :: "string \<Rightarrow> string option"
  st_events :: "KafkaRecord list"

text \<open>\<open>coll\<close> is the collation of the text columns: which strings MySQL compares as equal.\<close>

fun where_holds :: "(string \<Rightarrow> string \<Rightarrow> bool) \<Rightarrow> MappingWhere \<Rightarrow> UserAuthMapping \<Rightarrow> bool" where
  "where_holds coll (clerk_user_id_eq s) m = coll (Mapping_ClerkUserID m) s"
| "where_holds coll (email_eq s) m = coll (Mapping_Email m) s"
| "where_holds coll (internal_user_id_eq i) m = (Mapping_InternalUserID m = i)"

text \<open>
  \<open>Updates\<close> with a struct writes its non-zero fields only.
\<close>

definition set_kyc_status :: "int \<Rightarrow> string \<Rightarrow> Stores \<Rightarrow> Stores" where
  "set_kyc_status i s st = (case st_users st i of
      None \<Rightarrow> st
    | Some u \<Rightarrow> st\<lparr>st_users := (st_users st)(i \<mapsto> u\<lparr>User_KYCStatus := s\<rparr>)\<rparr>)"

definition nonzero :: "string \<Rightarrow> string \<Rightarrow> string" where
  "nonzero new old = (if new \<noteq> [] then new else old)"

definition merge_User :: "User \<Rightarrow> User \<Rightarrow> User" where
  "merge_User u r = r\<lparr>
     User_Name := nonzero (User_Name u) (User_Name r),
     User_Market := nonzero (User_Market u) (User_Market r),
     User_Language := nonzero (User_Language u) (User_Language r),
     User_Segment := nonzero (User_Segment u) (User_Segment r),
     User_KYCStatus := nonzero (User_KYCStatus u) (User_KYCStatus r),
     User_RiskLevel := nonzero (User_RiskLevel u) (User_RiskLevel r),
     User_CreatedAt := (if User_CreatedAt u \<noteq> 0 then User_CreatedAt u else User_CreatedAt r)\<rparr>"

definition update_user :: "int \<Rightarrow> User \<Rightarrow> Stores \<Rightarrow> Stores" where
  "update_user i u st = (case st_users st i of
      None \<Rightarrow> st
    | Some r \<Rightarrow> st\<lparr>st_users := (st_users st)(i \<mapsto> merge_User u r)\<rparr>)"

text \<open>The tables put back as they were before a transaction; cache and topics stay.\<close>

definition roll_back :: "Stores \<Rightarrow> Stores \<Rightarrow> Stores" where
  "roll_back st0 st = st\<lparr>st_users := st_users st0, st_mappings := st_mappings st0\<rparr>"

text \<open>The columns of a mapping the code chooses; id and the two times are the database's.\<close>

definition same_mapping :: "UserAuthMapping \<Rightarrow> UserAuthMapping \<Rightarrow> bool" where
  "same_mapping m n \<longleftrightarrow> Mapping_ClerkUserID m = Mapping_ClerkUserID n
     \<and> Mapping_Email m = Mapping_Email n \<and> Mapping_Role m = Mapping_Role n
     \<and> Mapping_InternalUserID m = Mapping_InternalUserID n"

subsection \<open>gorm\<close>

definition first_user_ok :: "('w \<Rightarrow> Stores) \<Rightarrow> 'w GormDB \<Rightarrow> bool" where
  "first_user_ok S G \<longleftrightarrow> (\<forall>c i w. runs (gorm_FirstUser G c i) w
      (\<lambda>u w'. S w' = S w \<and> st_users (S w) i = Some u)
      (\<lambda>e w'. outside e \<and> S w' = S w \<and> (errors_Is e ErrRecordNotFound \<longrightarrow> st_users (S w) i = None)))"

definition first_mapping_ok ::
    "('w \<Rightarrow> Stores) \<Rightarrow> (string \<Rightarrow> string \<Rightarrow> bool) \<Rightarrow> 'w GormDB \<Rightarrow> bool" where
  "first_mapping_ok S coll G \<longleftrightarrow> (\<forall>c q w. runs (gorm_FirstMapping G c q) w
      (\<lambda>m w'. S w' = S w \<and> find (where_holds coll q) (st_mappings (S w)) = Some m)
      (\<lambda>e w'. outside e \<and> S w' = S w
        \<and> (errors_Is e ErrRecordNotFound \<longrightarrow> find (where_holds coll q) (st_mappings (S w)) = None)))"

definition create_user_ok :: "('w \<Rightarrow> Stores) \<Rightarrow> 'w GormDB \<Rightarrow> bool" where
  "create_user_ok S G \<longleftrightarrow> (\<forall>u w. User_ID u = 0 \<longrightarrow> runs (gorm_CreateUser G u) w
      (\<lambda>u' w'. \<exists>i r. 0 < i \<and> int64 i \<and> st_users (S w) i = None \<and> u' = u\<lparr>User_ID := i\<rparr>
        \<and> r\<lparr>User_CreatedAt := User_CreatedAt u'\<rparr> = u'
        \<and> S w' = (S w)\<lparr>st_users := (st_users (S w))(i \<mapsto> r)\<rparr>)
      (\<lambda>e w'. outside e \<and> S w' = S w))"

definition create_mapping_ok ::
    "('w \<Rightarrow> Stores) \<Rightarrow> (string \<Rightarrow> string \<Rightarrow> bool) \<Rightarrow> 'w GormDB \<Rightarrow> bool" where
  "create_mapping_ok S coll G \<longleftrightarrow> (\<forall>m w. runs (gorm_CreateMapping G m) w
      (\<lambda>m' w'. \<exists>row. same_mapping row m \<and> same_mapping m' m
        \<and> find (where_holds coll (clerk_user_id_eq (Mapping_ClerkUserID m))) (st_mappings (S w)) = None
        \<and> S w' = (S w)\<lparr>st_mappings := st_mappings (S w) @ [row]\<rparr>)
      (\<lambda>e w'. outside e \<and> S w' = S w))"

definition update_kyc_ok :: "('w \<Rightarrow> Stores) \<Rightarrow> 'w GormDB \<Rightarrow> bool" where
  "update_kyc_ok S G \<longleftrightarrow> (\<forall>c i s w. runs (gorm_UpdateKYCStatus G c i s) w
      (\<lambda>n w'. S w' = set_kyc_status i s (S w))
      (\<lambda>e w'. outside e \<and> (S w' = S w \<or> S w' = set_kyc_status i s (S w))))"

definition updates_user_ok :: "('w \<Rightarrow> Stores) \<Rightarrow> 'w GormDB \<Rightarrow> bool" where
  "updates_user_ok S G \<longleftrightarrow> (\<forall>c i u w. User_ID u = 0 \<longrightarrow> runs (gorm_UpdatesUser G c i u) w
      (\<lambda>n w'. S w' = update_user i u (S w))
      (\<lambda>e w'. outside e \<and> (S w' = S w \<or> S w' = update_user i u (S w))))"

text \<open>
  \<open>Transaction\<close> begins (which may fail), runs the body on the same data, and commits or
  rolls back; a commit that reports an error may have happened.
\<close>

definition transaction_ok :: "('w \<Rightarrow> Stores) \<Rightarrow> 'w GormDB \<Rightarrow> bool" where
  "transaction_ok S G \<longleftrightarrow> (\<forall>c f w. case gorm_Transaction G c f w of (r, w') \<Rightarrow>
      (\<exists>e. r = Err e \<and> outside e \<and> S w' = S w)
      \<or> (\<exists>w0 rf w1. S w0 = S w \<and> f w0 = (rf, w1) \<and>
          (case rf of
             Ok u \<Rightarrow> r = Ok u \<and> S w' = S w1
                 \<or> (\<exists>e. r = Err e \<and> outside e \<and> (S w' = S w1 \<or> S w' = roll_back (S w) (S w1)))
           | Err e \<Rightarrow> r = Err e \<and> S w' = roll_back (S w) (S w1)
           | Panicked p \<Rightarrow> r = Panicked p \<and> S w' = roll_back (S w) (S w1))))"

definition gorm_ok ::
    "('w \<Rightarrow> Stores) \<Rightarrow> (string \<Rightarrow> string \<Rightarrow> bool) \<Rightarrow> 'w GormDB \<Rightarrow> bool" where
  "gorm_ok S coll G \<longleftrightarrow> first_user_ok S G \<and> first_mapping_ok S coll G \<and> create_user_ok S G
     \<and> create_mapping_ok S coll G \<and> update_kyc_ok S G \<and> updates_user_ok S G \<and> transaction_ok S G"

text \<open>The handle of a service that may run without a database (\<open>None\<close>).\<close>

definition db_ok ::
    "('w \<Rightarrow> Stores) \<Rightarrow> (string \<Rightarrow> string \<Rightarrow> bool) \<Rightarrow> 'w GormDB option \<Rightarrow> bool" where
  "db_ok S coll db \<longleftrightarrow> (case db of None \<Rightarrow> True | Some G \<Rightarrow> gorm_ok S coll G)"

subsection \<open>Redis, Kafka, HTTP, the runtime\<close>

text \<open>Entries may expire before any call: \<open>shrinks\<close>; \<open>put\<close> stores one.\<close>

definition shrinks :: "Stores \<Rightarrow> Stores \<Rightarrow> bool" where
  "shrinks st st' \<longleftrightarrow> (\<exists>m. m \<subseteq>\<^sub>m st_cache st \<and> st' = st\<lparr>st_cache := m\<rparr>)"

definition put :: "string \<Rightarrow> string \<Rightarrow> Stores \<Rightarrow> Stores" where
  "put k v st = st\<lparr>st_cache := (st_cache st)(k \<mapsto> v)\<rparr>"

definition redis_get_ok :: "('w \<Rightarrow> Stores) \<Rightarrow> 'w RedisClient \<Rightarrow> bool" where
  "redis_get_ok S C \<longleftrightarrow> (\<forall>c k w. runs (redis_Get C c k) w
      (\<lambda>v w'. st_cache (S w) k = Some v \<and> shrinks (S w) (S w'))
      (\<lambda>e w'. shrinks (S w) (S w')))"

definition redis_set_ok :: "('w \<Rightarrow> Stores) \<Rightarrow> 'w RedisClient \<Rightarrow> bool" where
  "redis_set_ok S C \<longleftrightarrow> (\<forall>c k v d w. runs (redis_Set C c k v d) w
      (\<lambda>u w'. \<exists>st. shrinks (S w) st \<and> S w' = put k v st)
      (\<lambda>e w'. \<exists>st. shrinks (S w) st \<and> (S w' = st \<or> S w' = put k v st)))"

definition redis_del_ok :: "('w \<Rightarrow> Stores) \<Rightarrow> 'w RedisClient \<Rightarrow> bool" where
  "redis_del_ok S C \<longleftrightarrow> (\<forall>c k w. runs (redis_Del C c k) w
      (\<lambda>u w'. shrinks (S w) (S w') \<and> st_cache (S w') k = None)
      (\<lambda>e w'. shrinks (S w) (S w')))"

definition redis_ok :: "('w \<Rightarrow> Stores) \<Rightarrow> 'w RedisClient \<Rightarrow> bool" where
  "redis_ok S C \<longleftrightarrow> redis_get_ok S C \<and> redis_set_ok S C \<and> redis_del_ok S C"

definition add_event :: "KafkaRecord \<Rightarrow> Stores \<Rightarrow> Stores" where
  "add_event r st = st\<lparr>st_events := st_events st @ [r]\<rparr>"

definition kafka_ok :: "('w \<Rightarrow> Stores) \<Rightarrow> 'w KgoClient \<Rightarrow> bool" where
  "kafka_ok S K \<longleftrightarrow> (\<forall>c r w. runs (kgo_ProduceSync K c r) w
      (\<lambda>u w'. S w' = add_event r (S w))
      (\<lambda>e w'. outside e \<and> (S w' = S w \<or> S w' = add_event r (S w))))"

definition http_ok :: "('w \<Rightarrow> Stores) \<Rightarrow> 'w HttpClient \<Rightarrow> bool" where
  "http_ok S H \<longleftrightarrow> (\<forall>c q w. runs (http_Do H c q) w
      (\<lambda>r w'. S w' = S w \<and> (\<forall>e. Resp_Body r = Inl e \<longrightarrow> outside e))
      (\<lambda>e w'. S w' = S w \<and> outside e))"

definition runtime_ok :: "('w \<Rightarrow> 'v) \<Rightarrow> 'w Runtime \<Rightarrow> bool" where
  "runtime_ok S R \<longleftrightarrow> keeps S (now R)
     \<and> (\<forall>n w. runs (rand_Read R n) w (\<lambda>b w'. length b = n \<and> S w' = S w) (\<lambda>e w'. outside e \<and> S w' = S w))
     \<and> (\<forall>n w. 0 < n \<longrightarrow> runs (rand_Int R n) w (\<lambda>i w'. 0 \<le> i \<and> i < n \<and> S w' = S w) (\<lambda>e w'. outside e \<and> S w' = S w))
     \<and> (\<forall>e w. S (log_Write R e w) = S w) \<and> (\<forall>t n k a c w. S (snd (otel_Start R t n k a c w)) = S w)
     \<and> (\<forall>h k w. S (otel_Span R h k w) = S w)"

subsection \<open>Values in the cache\<close>

text \<open>
  \<open>encoding/json\<close> turns rows into cached bytes and back. The text format is not modelled:
  a codec is a pair of functions, and what is relied on is that decoding inverts encoding.
\<close>

record 'a Codec =
  json_Marshal :: "'a \<Rightarrow> go_error + string"
  json_Unmarshal :: "string \<Rightarrow> go_error + 'a"

definition codec_ok :: "'a Codec \<Rightarrow> bool" where
  "codec_ok J \<longleftrightarrow> (\<forall>a s. json_Marshal J a = Inr s \<longrightarrow> json_Unmarshal J s = Inr a)
     \<and> (\<forall>a e. json_Marshal J a = Inl e \<longrightarrow> outside e)"

text \<open>
  \<open>only_cache K st st'\<close>: tables and topics are the same, and outside the keys \<open>K\<close> the cache
  has at most lost entries.
\<close>

definition only_cache :: "(string \<Rightarrow> bool) \<Rightarrow> Stores \<Rightarrow> Stores \<Rightarrow> bool" where
  "only_cache K st st' \<longleftrightarrow> st_users st' = st_users st \<and> st_mappings st' = st_mappings st
     \<and> st_events st' = st_events st
     \<and> (\<forall>k v. \<not> K k \<longrightarrow> st_cache st' k = Some v \<longrightarrow> st_cache st k = Some v)"

lemma only_cache_refl [simp, intro]: "only_cache K st st"
  by (simp add: only_cache_def)

lemma only_cache_trans: "only_cache K a b \<Longrightarrow> only_cache K b c \<Longrightarrow> only_cache K a c"
  by (simp add: only_cache_def)

lemma shrinks_refl [simp, intro]: "shrinks st st"
  unfolding shrinks_def by (rule exI [of _ "st_cache st"]) simp

lemma shrinks_trans: "shrinks a b \<Longrightarrow> shrinks b c \<Longrightarrow> shrinks a c"
  unfolding shrinks_def using map_le_trans by fastforce

lemma shrinksD:
  assumes "shrinks st st'"
  shows "st_users st' = st_users st" "st_mappings st' = st_mappings st" "st_events st' = st_events st"
    and "st_cache st' k = Some v \<Longrightarrow> st_cache st k = Some v"
  using assms by (auto simp: shrinks_def dest: map_leD)

lemma put_simps [simp]:
  "st_users (put k v st) = st_users st" "st_mappings (put k v st) = st_mappings st"
  "st_events (put k v st) = st_events st" "st_cache (put k v st) = (st_cache st)(k \<mapsto> v)"
  by (simp_all add: put_def)

lemma only_cache_shrink: "shrinks st st' \<Longrightarrow> only_cache K st st'"
  by (auto simp: only_cache_def shrinksD)

lemma only_cache_store: "shrinks st st' \<Longrightarrow> K k \<Longrightarrow> only_cache K st (put k v st')"
  by (auto simp: only_cache_def shrinksD split: if_splits)

lemma only_cacheD:
  "only_cache K st st' \<Longrightarrow> st_users st' = st_users st"
  "only_cache K st st' \<Longrightarrow> st_mappings st' = st_mappings st"
  "only_cache K st st' \<Longrightarrow> st_events st' = st_events st"
  "only_cache K st st' \<Longrightarrow> \<not> K k \<Longrightarrow> st_cache st' k = Some v \<Longrightarrow> st_cache st k = Some v"
  by (auto simp: only_cache_def)

subsection \<open>The laws as rules\<close>

lemma gormD:
  assumes "gorm_ok S coll G"
  shows first_user_runs: "runs (gorm_FirstUser G c i) w
      (\<lambda>u w'. S w' = S w \<and> st_users (S w) i = Some u)
      (\<lambda>e w'. outside e \<and> S w' = S w \<and> (errors_Is e ErrRecordNotFound \<longrightarrow> st_users (S w) i = None))"
    and first_mapping_runs: "runs (gorm_FirstMapping G c q) w
      (\<lambda>m w'. S w' = S w \<and> find (where_holds coll q) (st_mappings (S w)) = Some m)
      (\<lambda>e w'. outside e \<and> S w' = S w
        \<and> (errors_Is e ErrRecordNotFound \<longrightarrow> find (where_holds coll q) (st_mappings (S w)) = None))"
    and update_kyc_runs: "runs (gorm_UpdateKYCStatus G c i s) w
      (\<lambda>n w'. S w' = set_kyc_status i s (S w))
      (\<lambda>e w'. outside e \<and> (S w' = S w \<or> S w' = set_kyc_status i s (S w)))"
  using assms
  by (simp_all add: gorm_ok_def first_user_ok_def first_mapping_ok_def update_kyc_ok_def)

lemma gorm_writesD:
  assumes "gorm_ok S coll G"
  shows updates_user_runs: "User_ID u = 0 \<Longrightarrow> runs (gorm_UpdatesUser G c i u) w
      (\<lambda>n w'. S w' = update_user i u (S w))
      (\<lambda>e w'. outside e \<and> (S w' = S w \<or> S w' = update_user i u (S w)))"
    and create_user_runs: "User_ID u = 0 \<Longrightarrow> runs (gorm_CreateUser G u) w
      (\<lambda>u' w'. \<exists>i r. 0 < i \<and> int64 i \<and> st_users (S w) i = None \<and> u' = u\<lparr>User_ID := i\<rparr>
        \<and> r\<lparr>User_CreatedAt := User_CreatedAt u'\<rparr> = u'
        \<and> S w' = (S w)\<lparr>st_users := (st_users (S w))(i \<mapsto> r)\<rparr>)
      (\<lambda>e w'. outside e \<and> S w' = S w)"
    and create_mapping_runs: "runs (gorm_CreateMapping G m) w
      (\<lambda>m' w'. \<exists>row. same_mapping row m \<and> same_mapping m' m
        \<and> find (where_holds coll (clerk_user_id_eq (Mapping_ClerkUserID m))) (st_mappings (S w)) = None
        \<and> S w' = (S w)\<lparr>st_mappings := st_mappings (S w) @ [row]\<rparr>)
      (\<lambda>e w'. outside e \<and> S w' = S w)"
  using assms
  by (simp_all add: gorm_ok_def updates_user_ok_def create_user_ok_def create_mapping_ok_def)

lemma redisD:
  assumes "redis_ok S C"
  shows redis_get_runs: "runs (redis_Get C c k) w
      (\<lambda>v w'. st_cache (S w) k = Some v \<and> shrinks (S w) (S w')) (\<lambda>e w'. shrinks (S w) (S w'))"
    and redis_set_runs: "runs (redis_Set C c k v d) w
      (\<lambda>u w'. \<exists>st. shrinks (S w) st \<and> S w' = put k v st)
      (\<lambda>e w'. \<exists>st. shrinks (S w) st \<and> (S w' = st \<or> S w' = put k v st))"
    and redis_del_runs: "runs (redis_Del C c k) w
      (\<lambda>u w'. shrinks (S w) (S w') \<and> st_cache (S w') k = None) (\<lambda>e w'. shrinks (S w) (S w'))"
  using assms by (simp_all add: redis_ok_def redis_get_ok_def redis_set_ok_def redis_del_ok_def)

lemma kafka_runs:
  "kafka_ok S K \<Longrightarrow> runs (kgo_ProduceSync K c r) w
      (\<lambda>u w'. S w' = add_event r (S w))
      (\<lambda>e w'. outside e \<and> (S w' = S w \<or> S w' = add_event r (S w)))"
  by (simp add: kafka_ok_def)

lemma http_runs:
  "http_ok S H \<Longrightarrow> runs (http_Do H c q) w
      (\<lambda>r w'. S w' = S w \<and> (\<forall>e. Resp_Body r = Inl e \<longrightarrow> outside e)) (\<lambda>e w'. outside e \<and> S w' = S w)"
  unfolding http_ok_def by (auto elim!: runs_mono allE)

lemma runs_now:
  assumes "runtime_ok S R"
  shows "runs (now R) w (\<lambda>t w'. S w' = S w) Q"
proof -
  have "S (snd (now R w)) = S w" using assms by (simp add: runtime_ok_def keeps_def)
  then show ?thesis by (auto simp: runs_def now_def split: prod.splits)
qed

lemma rand_read_runs:
  "runtime_ok S R \<Longrightarrow> runs (rand_Read R n) w (\<lambda>b w'. length b = n \<and> S w' = S w) (\<lambda>e w'. outside e \<and> S w' = S w)"
  by (simp add: runtime_ok_def)

end
