(* ===== verification/RefEnv.thy ===== *)
theory RefEnv
  imports Clients
begin

section \<open>A reference environment\<close>

text \<open>
  In-memory servers that satisfy the laws of Clients: tables, cache and topics are the
  \<open>Stores\<close> themselves, ids are handed out by a counter, the clock advances by one second per
  reading, the random source is a counter. They show that the laws can hold together and
  serve as the concrete parameters of the witnesses.
\<close>

record refw =
  rw_stores :: Stores
  rw_next :: int
  rw_clock :: instant

definition ref_find :: "MappingWhere \<Rightarrow> Stores \<Rightarrow> UserAuthMapping option" where
  "ref_find q st = find (where_holds (=) q) (st_mappings st)"

definition ref_gorm :: "refw GormDB" where
  "ref_gorm = \<lparr>
     gorm_FirstUser = (\<lambda>c i w. case st_users (rw_stores w) i of
        None \<Rightarrow> (Err ErrRecordNotFound, w) | Some u \<Rightarrow> (Ok u, w)),
     gorm_FirstMapping = (\<lambda>c q w. case ref_find q (rw_stores w) of
        None \<Rightarrow> (Err ErrRecordNotFound, w) | Some m \<Rightarrow> (Ok m, w)),
     gorm_CreateUser = (\<lambda>u w. let i = rw_next w; u' = u\<lparr>User_ID := i\<rparr>; st = rw_stores w in
        if 0 < i \<and> int64 i \<and> st_users st i = None
        then (Ok u', w\<lparr>rw_stores := st\<lparr>st_users := (st_users st)(i \<mapsto> u')\<rparr>, rw_next := i + 1\<rparr>)
        else (Err (External ''duplicate entry''), w)),
     gorm_CreateMapping = (\<lambda>m w. let st = rw_stores w in
        if ref_find (clerk_user_id_eq (Mapping_ClerkUserID m)) st = None
        then (Ok m, w\<lparr>rw_stores := st\<lparr>st_mappings := st_mappings st @ [m]\<rparr>\<rparr>)
        else (Err (External ''duplicate entry''), w)),
     gorm_UpdateKYCStatus = (\<lambda>c i s w. (Ok 1, w\<lparr>rw_stores := set_kyc_status i s (rw_stores w)\<rparr>)),
     gorm_UpdatesUser = (\<lambda>c i u w. (Ok 1, w\<lparr>rw_stores := update_user i u (rw_stores w)\<rparr>)),
     gorm_Transaction = (\<lambda>c f w. case f w of
        (Ok u, w') \<Rightarrow> (Ok u, w')
      | (r, w') \<Rightarrow> (r, w'\<lparr>rw_stores := roll_back (rw_stores w) (rw_stores w')\<rparr>))\<rparr>"

definition ref_redis :: "refw RedisClient" where
  "ref_redis = \<lparr>
     redis_Get = (\<lambda>c k w. case st_cache (rw_stores w) k of
        None \<Rightarrow> (Err (External ''redis: nil''), w) | Some v \<Rightarrow> (Ok v, w)),
     redis_Set = (\<lambda>c k v d w. (Ok (), w\<lparr>rw_stores :=
        (rw_stores w)\<lparr>st_cache := (st_cache (rw_stores w))(k \<mapsto> v)\<rparr>\<rparr>)),
     redis_Del = (\<lambda>c k w. (Ok (), w\<lparr>rw_stores :=
        (rw_stores w)\<lparr>st_cache := (st_cache (rw_stores w))(k := None)\<rparr>\<rparr>))\<rparr>"

definition ref_kafka :: "refw KgoClient" where
  "ref_kafka = \<lparr>kgo_ProduceSync = (\<lambda>c r w. (Ok (), w\<lparr>rw_stores := add_event r (rw_stores w)\<rparr>))\<rparr>"

text \<open>A broker that is down: every call fails and nothing is stored.\<close>

definition down_kafka :: "refw KgoClient" where
  "down_kafka = \<lparr>kgo_ProduceSync = (\<lambda>c r w. (Err (External ''kafka down''), w))\<rparr>"

definition ref_runtime :: "refw Runtime" where
  "ref_runtime = \<lparr>
     time_Now = (\<lambda>w. (rw_clock w, w\<lparr>rw_clock := rw_clock w + Second\<rparr>)),
     rand_Read = (\<lambda>n w. (Ok (replicate n (char_of (rw_clock w div Second))), w\<lparr>rw_clock := rw_clock w + Second\<rparr>)),
     rand_Int = (\<lambda>n w. (Ok (rw_clock w div Second mod n), w\<lparr>rw_clock := rw_clock w + Second\<rparr>)),
     os_Getenv = (\<lambda>k. []), log_Logger = \<lparr>Logger_Level = None, Logger_Fields = []\<rparr>, log_Write = (\<lambda>e w. w),
     otel_Start = (\<lambda>t n k a c w. ((c, None), w)), otel_Span = (\<lambda>h k w. w), otel_Inject = (\<lambda>c. [])\<rparr>"

definition empty_stores :: Stores where
  "empty_stores = \<lparr>st_users = Map.empty, st_mappings = [], st_cache = Map.empty, st_events = []\<rparr>"

definition ref_start :: refw where
  "ref_start = \<lparr>rw_stores = empty_stores, rw_next = 1, rw_clock = 63000000000 * Second\<rparr>"

lemma ref_gorm_ok: "gorm_ok rw_stores (=) ref_gorm"
  unfolding gorm_ok_def
proof (intro conjI)
  show "first_user_ok rw_stores ref_gorm"
    by (auto simp: first_user_ok_def runs_def ref_gorm_def split: option.splits)
  show "first_mapping_ok rw_stores (=) ref_gorm"
    by (auto simp: first_mapping_ok_def runs_def ref_gorm_def ref_find_def split: option.splits)
  show "create_user_ok rw_stores ref_gorm"
    unfolding create_user_ok_def
  proof (intro allI impI runsI)
    fix u :: User and w a w'
    assume "gorm_CreateUser ref_gorm u w = (Ok a, w')"
    then show "\<exists>i r. 0 < i \<and> int64 i \<and> st_users (rw_stores w) i = None \<and> a = u\<lparr>User_ID := i\<rparr>
        \<and> r\<lparr>User_CreatedAt := User_CreatedAt a\<rparr> = a
        \<and> rw_stores w' = (rw_stores w)\<lparr>st_users := (st_users (rw_stores w))(i \<mapsto> r)\<rparr>"
      by (intro exI [of _ "rw_next w"] exI [of _ a])
        (auto simp: ref_gorm_def Let_def split: if_splits)
  qed (auto simp: ref_gorm_def Let_def split: if_splits)
  show "create_mapping_ok rw_stores (=) ref_gorm"
    by (auto simp: create_mapping_ok_def runs_def ref_gorm_def Let_def ref_find_def same_mapping_def)
  show "update_kyc_ok rw_stores ref_gorm"
    by (auto simp: update_kyc_ok_def runs_def ref_gorm_def)
  show "updates_user_ok rw_stores ref_gorm"
    by (auto simp: updates_user_ok_def runs_def ref_gorm_def)
  show "transaction_ok rw_stores ref_gorm"
    unfolding transaction_ok_def
  proof (intro allI)
    fix c :: ctx and f :: "(refw, User) act" and w :: refw
    obtain rf w1 where f: "f w = (rf, w1)" by fastforce
    then show "case gorm_Transaction ref_gorm c f w of (r, w') \<Rightarrow>
      (\<exists>e. r = Err e \<and> outside e \<and> rw_stores w' = rw_stores w)
      \<or> (\<exists>w0 rf w1. rw_stores w0 = rw_stores w \<and> f w0 = (rf, w1) \<and>
          (case rf of
             Ok u \<Rightarrow> r = Ok u \<and> rw_stores w' = rw_stores w1
                 \<or> (\<exists>e. r = Err e \<and> outside e \<and> (rw_stores w' = rw_stores w1
                      \<or> rw_stores w' = roll_back (rw_stores w) (rw_stores w1)))
           | Err e \<Rightarrow> r = Err e \<and> rw_stores w' = roll_back (rw_stores w) (rw_stores w1)
           | Panicked p \<Rightarrow> r = Panicked p \<and> rw_stores w' = roll_back (rw_stores w) (rw_stores w1)))"
      by (cases rf) (auto simp: ref_gorm_def intro!: exI [of _ w])
  qed
qed

lemma ref_redis_ok: "redis_ok rw_stores ref_redis"
proof -
  have "redis_get_ok rw_stores ref_redis"
    by (auto simp: redis_get_ok_def runs_def ref_redis_def split: option.splits)
  moreover have "redis_set_ok rw_stores ref_redis"
    unfolding redis_set_ok_def runs_def ref_redis_def put_def by auto
  moreover have "redis_del_ok rw_stores ref_redis"
  proof -
    have "shrinks st (st\<lparr>st_cache := (st_cache st)(k := None)\<rparr>)" for st k
      unfolding shrinks_def by (rule exI [of _ "(st_cache st)(k := None)"]) (auto simp: map_le_def)
    then show ?thesis by (simp add: redis_del_ok_def runs_def ref_redis_def)
  qed
  ultimately show ?thesis by (simp add: redis_ok_def)
qed

lemma ref_kafka_ok: "kafka_ok rw_stores ref_kafka"
  by (simp add: kafka_ok_def runs_def ref_kafka_def)

lemma down_kafka_ok: "kafka_ok rw_stores down_kafka"
  by (simp add: kafka_ok_def runs_def down_kafka_def)

lemma ref_runtime_ok: "runtime_ok rw_stores ref_runtime"
  by (simp add: runtime_ok_def keeps_def now_def ref_runtime_def runs_def)

text \<open>Worlds with some rows in them, and a codec for finitely many values.\<close>

definition ref_world :: "User list \<Rightarrow> UserAuthMapping list \<Rightarrow> refw" where
  "ref_world us ms = ref_start\<lparr>rw_stores := empty_stores\<lparr>
     st_users := map_of (map (\<lambda>u. (User_ID u, u)) us), st_mappings := ms\<rparr>, rw_next := int (length us) + 1\<rparr>"

lemma ref_world_simps [simp]:
  "st_users (rw_stores (ref_world us ms)) = map_of (map (\<lambda>u. (User_ID u, u)) us)"
  "st_mappings (rw_stores (ref_world us ms)) = ms"
  "st_cache (rw_stores (ref_world us ms)) = Map.empty" "st_events (rw_stores (ref_world us ms)) = []"
  by (simp_all add: ref_world_def empty_stores_def)

definition table_codec :: "(string \<times> 'a) list \<Rightarrow> 'a Codec" where
  "table_codec tab = \<lparr>
     json_Marshal = (\<lambda>a. case find (\<lambda>e. snd e = a) tab of
        None \<Rightarrow> Inl (External ''unsupported value'') | Some e \<Rightarrow> Inr (fst e)),
     json_Unmarshal = (\<lambda>s. case map_of tab s of
        None \<Rightarrow> Inl (External ''invalid character'') | Some a \<Rightarrow> Inr a)\<rparr>"

lemma table_codec_ok:
  assumes "distinct (map fst tab)"
  shows "codec_ok (table_codec tab)"
  using map_of_is_SomeI [OF assms]
  by (fastforce simp: codec_ok_def table_codec_def split: option.splits dest!: find_SomeD)

definition alice :: User where
  "alice = zero_User\<lparr>User_ID := 1, User_Name := ''alice'', User_KYCStatus := KYCStatusPending,
     User_CreatedAt := 63000000000 * Second\<rparr>"

definition alice_mapping :: UserAuthMapping where
  "alice_mapping = \<lparr>Mapping_ID = 1, Mapping_ClerkUserID = ''user_1'', Mapping_Email = ''alice@example.com'',
     Mapping_InternalUserID = 1, Mapping_Role = RoleUser, Mapping_CreatedAt = 0, Mapping_UpdatedAt = 0\<rparr>"

definition alice_world :: refw where "alice_world = ref_world [alice] [alice_mapping]"

end
