(* ===== verification/Config.thy ===== *)
theory Config
  imports Prelude
begin

section \<open>Configuration\<close>

text \<open>
  server/config/config.go: what is read from the configuration file. Each part is a pointer, nil
  when the file has no such section. \<open>Getwd\<close>, \<open>ReadInConfig\<close> and \<open>Unmarshal\<close> are the working
  directory of the process and viper's reading of a file and decoding into \<open>Conf\<close>.
\<close>

record SingpassConfig =
  Cfg_RedirectURI :: string
  Cfg_Scope :: string
  Cfg_IssuerURL :: string
  Cfg_AssertionAud :: string
  Cfg_TokenURL :: string
  Cfg_UserInfoURL :: string
  Cfg_JWKSURI :: string

record KafkaConfig =
  Kafka_Enabled :: bool
  Kafka_Brokers :: "string list"
  Kafka_ClientID :: string

record HttpConfig =
  HttpConfig_Host :: string
  HttpConfig_Port :: int

record LogConfig =
  Log_Level :: string
  Log_FilePath :: string

record GrpcConfig =
  GrpcConfig_Host :: string
  GrpcConfig_Port :: int
  GrpcConfig_ConnectTimeout :: int
  GrpcConfig_MaxPoolSize :: int

record SystemConfig =
  System_AllowedOrigins :: "string list"
  System_PostKYCRedirectURI :: string

record Conf =
  Conf_Grpc :: "GrpcConfig option"
  Conf_Log :: "LogConfig option"
  Conf_Http :: "HttpConfig option"
  Conf_System :: "SystemConfig option"
  Conf_Singpass :: "SingpassConfig option"
  Conf_Kafka :: "KafkaConfig option"

text \<open>The file looked for: its name, its type and the directories, in this order.\<close>

record ConfigSearch =
  Search_Name :: string
  Search_Type :: string
  Search_Paths :: "string list"

definition config_search :: "string \<Rightarrow> ConfigSearch" where
  "config_search workDir = \<lparr>Search_Name = ''config'', Search_Type = ''yml'',
     Search_Paths = [workDir @ ''/resources'', workDir]\<rparr>"

text \<open>\<open>Getwd\<close> gives a directory beside its error, which is dropped.\<close>

definition config_Init ::
    "('w, string \<times> go_error option) act \<Rightarrow> (ConfigSearch \<Rightarrow> ('w, 'v) act) \<Rightarrow> ('v \<Rightarrow> go_error + Conf) \<Rightarrow> ('w, Conf) act" where
  "config_Init Getwd ReadInConfig Unmarshal =
    bindA Getwd (\<lambda>(workDir, _).
      tryA (ReadInConfig (config_search workDir))
        (\<lambda>v. case Unmarshal v of Inl err \<Rightarrow> panic (error_text err) | Inr conf \<Rightarrow> ret conf)
        (\<lambda>err. panic (error_text err)))"

end
