(* ===== verification/Logging.thy ===== *)
theory Logging
  imports Clients Config
begin

section \<open>Logging\<close>

text \<open>
  server/log/logger.go, apart from its gin middlewares, which are in Http: the level and the
  files a process logs to, the logger of a context with its trace and span id, the id of a
  request, the names of service and environment. A line is handed to \<open>log_Write\<close> of the
  runtime when its level is enabled; the text zap makes of it is not modelled.
\<close>

subsection \<open>Levels\<close>

fun level_rank :: "LogLevel \<Rightarrow> int" where
  "level_rank DebugLevel = - 1" | "level_rank InfoLevel = 0" | "level_rank WarnLevel = 1" | "level_rank ErrorLevel = 2"
| "level_rank DPanicLevel = 3" | "level_rank PanicLevel = 4" | "level_rank FatalLevel = 5"

lemma level_rank_inj: "level_rank a = level_rank b \<Longrightarrow> a = b"
  by (cases a; cases b) simp_all

instantiation LogLevel :: linorder
begin

definition less_eq_LogLevel :: "LogLevel \<Rightarrow> LogLevel \<Rightarrow> bool" where
  "less_eq_LogLevel a b \<longleftrightarrow> level_rank a \<le> level_rank b"

definition less_LogLevel :: "LogLevel \<Rightarrow> LogLevel \<Rightarrow> bool" where
  "less_LogLevel a b \<longleftrightarrow> level_rank a < level_rank b"

instance
  by standard (auto simp: less_eq_LogLevel_def less_LogLevel_def level_rank_inj)

end

subsection \<open>Lines\<close>

definition With :: "LogField list \<Rightarrow> Logger \<Rightarrow> Logger" where
  "With fs logger = logger\<lparr>Logger_Fields := Logger_Fields logger @ fs\<rparr>"

definition log_line :: "'w Runtime \<Rightarrow> LogLevel \<Rightarrow> Logger \<Rightarrow> string \<Rightarrow> LogField list \<Rightarrow> ('w, unit) act" where
  "log_line R level logger msg fs = (\<lambda>w. (Ok (), case Logger_Level logger of
      Some lowest \<Rightarrow> if lowest \<le> level
        then log_Write R \<lparr>Entry_Level = level, Entry_Message = msg, Entry_Fields = Logger_Fields logger @ fs\<rparr> w else w
    | None \<Rightarrow> w))"

definition Infow :: "'w Runtime \<Rightarrow> Logger \<Rightarrow> string \<Rightarrow> LogField list \<Rightarrow> ('w, unit) act" where
  "Infow R = log_line R InfoLevel"

definition Warnw :: "'w Runtime \<Rightarrow> Logger \<Rightarrow> string \<Rightarrow> LogField list \<Rightarrow> ('w, unit) act" where
  "Warnw R = log_line R WarnLevel"

definition Errorw :: "'w Runtime \<Rightarrow> Logger \<Rightarrow> string \<Rightarrow> LogField list \<Rightarrow> ('w, unit) act" where
  "Errorw R = log_line R ErrorLevel"

definition TraceIDs :: "ctx \<Rightarrow> string \<times> string" where
  "TraceIDs c = (case ctx_span c of None \<Rightarrow> ([], []) | Some ids \<Rightarrow> ids)"

definition withTraceFields :: "Logger \<Rightarrow> ctx \<Rightarrow> Logger" where
  "withTraceFields logger c = (case TraceIDs c of (traceID, spanID) \<Rightarrow>
     With [(''trace_id'', LogString traceID), (''span_id'', LogString spanID)] logger)"

text \<open>The context is \<open>None\<close> for nil.\<close>

definition WithContext :: "'w Runtime \<Rightarrow> ctx option \<Rightarrow> Logger" where
  "WithContext R ctx = (case ctx of
      None \<Rightarrow> withTraceFields (log_Logger R) Background
    | Some c \<Rightarrow> withTraceFields (case ctx_logger c of Some l \<Rightarrow> l | None \<Rightarrow> log_Logger R) c)"

definition Microseconds :: "duration \<Rightarrow> int" where
  "Microseconds d = sgn d * (\<bar>d\<bar> div 1000)"

subsection \<open>Request ids, names\<close>

definition RequestIDHeader :: string where "RequestIDHeader = ''X-Request-ID''"
definition TraceIDHeader :: string where "TraceIDHeader = ''X-Trace-ID''"

definition requestIDFromHeader :: "'w Runtime \<Rightarrow> string \<Rightarrow> ('w, string) act" where
  "requestIDFromHeader R header =
    (let v = TrimSpace header in
     if v \<noteq> [] then ret v
     else tryA (rand_Read R 16) (\<lambda>b. ret (hex_EncodeToString b))
       (\<lambda>err. bindA (now R) (\<lambda>t. ret (FormatInt (UnixNano t)))))"

definition ServiceName :: string where "ServiceName = ''identity-mservice''"

definition envName :: "'w Runtime \<Rightarrow> string" where
  "envName R = (case find (\<lambda>v. v \<noteq> []) (map (\<lambda>key. TrimSpace (os_Getenv R key)) [''APP_ENV'', ''RAILWAY_ENVIRONMENT'', ''GO_ENV''])
     of Some v \<Rightarrow> v | None \<Rightarrow> ''local'')"

definition log_serviceName :: "'w Runtime \<Rightarrow> string" where
  "log_serviceName R = (let v = TrimSpace (os_Getenv R ''OTEL_SERVICE_NAME'') in if v \<noteq> [] then v else ServiceName)"

lemma log_line_runs:
  assumes "runtime_ok S R"
  shows "runs (log_line R level logger msg fs) w (\<lambda>_ w'. S w' = S w) Q"
  using assms by (auto simp: log_line_def runs_def runtime_ok_def split: option.splits)

lemmas line_runs = log_line_runs [where level = InfoLevel, folded Infow_def] log_line_runs [where level = ErrorLevel, folded Errorw_def]
  log_line_runs [where level = WarnLevel, folded Warnw_def]

subsection \<open>Calls that change no store\<close>

text \<open>A call that only writes lines or spans, or reads the clock.\<close>

definition quiet :: "('w \<Rightarrow> 'v) \<Rightarrow> ('w, 'a) act \<Rightarrow> bool" where
  "quiet S m \<longleftrightarrow> (\<forall>w. runs m w (\<lambda>_ w'. S w' = S w) (\<lambda>_ _. False))"

lemma quietD: "quiet S m \<Longrightarrow> runs m w (\<lambda>_ w'. S w' = S w) (\<lambda>_ _. False)"
  by (simp add: quiet_def)

lemma quiet_ret [simp]: "quiet S (ret a)"
  by (simp add: quiet_def)

lemma quiet_bindA:
  assumes "quiet S m" and "\<And>a. quiet S (f a)"
  shows "quiet S (bindA m f)"
  unfolding quiet_def
proof
  show "runs (bindA m f) w (\<lambda>_ w'. S w' = S w) (\<lambda>_ _. False)" for w
    by (rule runs_bindA [OF quietD [OF assms(1)]]) (auto intro!: runs_mono [OF quietD [OF assms(2)]])
qed

lemma runs_quiet:
  assumes "quiet S m" and "\<And>a w'. S w' = S w \<Longrightarrow> runs (f a) w' P Q"
  shows "runs (bindA m f) w P Q"
  by (rule runs_bindA [OF quietD [OF assms(1)]]) (simp_all add: assms(2))

lemma quiet_lines:
  assumes "runtime_ok S R"
  shows "quiet S (log_line R level l msg fs)" "quiet S (Infow R l msg fs)" "quiet S (Warnw R l msg fs)" "quiet S (Errorw R l msg fs)"
  using log_line_runs [OF assms] by (simp_all add: quiet_def Infow_def Warnw_def Errorw_def)

lemma quiet_now: "runtime_ok S R \<Longrightarrow> quiet S (now R)"
  by (simp add: quiet_def runs_now)

lemma quiet_if: "(b \<Longrightarrow> quiet S m) \<Longrightarrow> (\<not> b \<Longrightarrow> quiet S n) \<Longrightarrow> quiet S (if b then m else n)"
  by simp

text \<open>A call that may fail, but neither panics nor changes what \<open>S\<close> sees.\<close>

definition soft :: "('w \<Rightarrow> 'v) \<Rightarrow> ('w, 'a) act \<Rightarrow> bool" where
  "soft S m \<longleftrightarrow> (\<forall>w. runs m w (\<lambda>_ w'. S w' = S w) (\<lambda>_ w'. S w' = S w))"

lemma softD: "soft S m \<Longrightarrow> runs m w (\<lambda>_ w'. S w' = S w) (\<lambda>_ w'. S w' = S w)"
  by (simp add: soft_def)

lemma quiet_soft: "quiet S m \<Longrightarrow> soft S m"
  unfolding soft_def by (blast intro: runs_mono [OF quietD])

lemma soft_throw [simp]: "soft S (throw e)"
  by (simp add: soft_def)

lemma soft_bindA:
  assumes "soft S m" and "\<And>a. soft S (f a)"
  shows "soft S (bindA m f)"
  unfolding soft_def
proof
  show "runs (bindA m f) w (\<lambda>_ w'. S w' = S w) (\<lambda>_ w'. S w' = S w)" for w
    by (rule runs_bindA [OF softD [OF assms(1)]]) (auto intro!: runs_mono [OF softD [OF assms(2)]])
qed

lemma quiet_tryA:
  assumes "soft S m" and "\<And>a. quiet S (f a)" and "\<And>e. quiet S (g e)"
  shows "quiet S (tryA m f g)"
  unfolding quiet_def
proof
  show "runs (tryA m f g) w (\<lambda>_ w'. S w' = S w) (\<lambda>_ _. False)" for w
    by (rule runs_tryA [OF softD [OF assms(1)]]) (auto intro!: runs_mono [OF quietD] assms(2,3))
qed

text \<open>What a call can return.\<close>

definition yields :: "('w, 'a) act \<Rightarrow> ('a \<Rightarrow> bool) \<Rightarrow> bool" where
  "yields m P \<longleftrightarrow> (\<forall>w a w'. m w = (Ok a, w') \<longrightarrow> P a)"

lemma yieldsD: "yields m P \<Longrightarrow> m w = (Ok a, w') \<Longrightarrow> P a"
  unfolding yields_def by blast

lemma yields_ret: "P a \<Longrightarrow> yields (ret a) P"
  by (simp add: yields_def act_simps)

lemma yields_panic: "yields (panic m) P"
  by (simp add: yields_def act_simps)

lemma yields_bindA: "yields m Q \<Longrightarrow> (\<And>a. Q a \<Longrightarrow> yields (f a) P) \<Longrightarrow> yields (bindA m f) P"
  unfolding yields_def bindA_def by (fastforce split: prod.splits res.splits)

lemma yields_seqA: "yields n P \<Longrightarrow> yields (seqA m n) P"
  by (rule yields_bindA [where Q = "\<lambda>_. True"]) (simp_all add: yields_def)

lemma yields_tryA: "yields m Q \<Longrightarrow> (\<And>a. Q a \<Longrightarrow> yields (f a) P) \<Longrightarrow> (\<And>e. yields (g e) P) \<Longrightarrow> yields (tryA m f g) P"
  unfolding yields_def tryA_def by (fastforce split: prod.splits res.splits)

lemma yields_if: "(b \<Longrightarrow> yields m P) \<Longrightarrow> (\<not> b \<Longrightarrow> yields n P) \<Longrightarrow> yields (if b then m else n) P"
  by simp

subsection \<open>The logger of the process\<close>

text \<open>
  The level of the configuration, or INFO when it is missing or unknown; \<open>unmarshal\<close> is zap's
  \<open>Level.UnmarshalText\<close>.
\<close>

definition log_section :: "Conf option \<Rightarrow> LogConfig option" where
  "log_section config = (case config of None \<Rightarrow> None | Some conf \<Rightarrow> Conf_Log conf)"

definition getLogLevel :: "(string \<Rightarrow> go_error + LogLevel) \<Rightarrow> Conf option \<Rightarrow> LogLevel" where
  "getLogLevel unmarshal config = (case log_section config of
      None \<Rightarrow> InfoLevel
    | Some cfg \<Rightarrow> if Log_Level cfg \<noteq> []
        then (case unmarshal (Log_Level cfg) of Inl err \<Rightarrow> InfoLevel | Inr level \<Rightarrow> level)
        else InfoLevel)"

text \<open>The part of zap's encoder configuration the code sets.\<close>

datatype TimeEncoder = EpochTimeEncoder | ISO8601TimeEncoder
datatype LevelEncoder = LowercaseLevelEncoder | CapitalLevelEncoder

record EncoderConfig =
  Encoder_TimeKey :: string
  Encoder_LevelKey :: string
  Encoder_MessageKey :: string
  Encoder_EncodeTime :: TimeEncoder
  Encoder_EncodeLevel :: LevelEncoder

definition getEncoder :: "EncoderConfig \<Rightarrow> EncoderConfig" where
  "getEncoder production = production\<lparr>Encoder_TimeKey := ''time'', Encoder_LevelKey := ''level'', Encoder_MessageKey := ''msg'',
     Encoder_EncodeTime := ISO8601TimeEncoder, Encoder_EncodeLevel := LowercaseLevelEncoder\<rparr>"

text \<open>\<open>path/filepath\<close> on the systems the service runs on, whose separator is a slash.\<close>

fun clean_parts :: "bool \<Rightarrow> string list \<Rightarrow> string list \<Rightarrow> string list" where
  "clean_parts rooted acc [] = rev acc"
| "clean_parts rooted acc (p # ps) = clean_parts rooted
     (if p = [] \<or> p = ''.'' then acc
      else if p = ''..'' then (case acc of
          [] \<Rightarrow> if rooted then [] else [''..'']
        | a # as \<Rightarrow> if a = ''..'' then ''..'' # acc else as)
      else p # acc) ps"

definition filepath_Clean :: "string \<Rightarrow> string" where
  "filepath_Clean path =
    (if path = [] then ''.''
     else let rooted = HasPrefix path ''/''; out = Join (clean_parts rooted [] (Split path CHR ''/'')) ''/'' in
       if rooted then ''/'' @ out else if out = [] then ''.'' else out)"

definition filepath_Join :: "string list \<Rightarrow> string" where
  "filepath_Join elem = (case dropWhile (\<lambda>e. e = []) elem of [] \<Rightarrow> [] | es \<Rightarrow> filepath_Clean (Join es ''/''))"

definition filepath_Dir :: "string \<Rightarrow> string" where
  "filepath_Dir path = filepath_Clean (rev (dropWhile (\<lambda>c. c \<noteq> CHR ''/'') (rev path)))"

text \<open>Where lines go; what the process asks of the file system.\<close>

datatype WriteSyncer = Stdout | LogFile string

record 'w Files =
  file_Getwd :: "('w, string \<times> go_error option) act"
  file_MkdirAll :: "string \<Rightarrow> ('w, unit) act"
  file_Append :: "string \<Rightarrow> ('w, unit) act"
  file_Write :: "EncoderConfig \<Rightarrow> WriteSyncer \<Rightarrow> LogEntry \<Rightarrow> 'w \<Rightarrow> 'w"

definition log_path :: "Conf option \<Rightarrow> string" where
  "log_path config = (case log_section config of None \<Rightarrow> [] | Some cfg \<Rightarrow> Log_FilePath cfg)"

definition getLogWriter :: "'w Files \<Rightarrow> Conf option \<Rightarrow> ('w, WriteSyncer) act" where
  "getLogWriter F config =
    (if log_path config = [] then ret Stdout
     else bindA (file_Getwd F) (\<lambda>(cwd, err). case err of
         Some e \<Rightarrow> panic (''failed to get current working directory: '' @ error_text e)
       | None \<Rightarrow> let logPath = filepath_Join [cwd, log_path config]; dir = filepath_Dir logPath in
           tryA (file_MkdirAll F dir)
             (\<lambda>_. tryA (file_Append F logPath) (\<lambda>_. ret (LogFile logPath)) (\<lambda>err. panic (error_text err)))
             (\<lambda>err. panic (''failed to create directories: '' @ error_text err))))"

text \<open>
  \<open>InitLogger\<close> puts a logger in place of the one the process has: the result is the runtime
  with it.
\<close>

definition InitLogger ::
    "'w Runtime \<Rightarrow> 'w Files \<Rightarrow> EncoderConfig \<Rightarrow> (string \<Rightarrow> go_error + LogLevel) \<Rightarrow> Conf option \<Rightarrow> ('w, 'w Runtime) act" where
  "InitLogger R F production unmarshal config = bindA (getLogWriter F config) (\<lambda>writeSyncer.
     let encoder = getEncoder production;
         cores = [writeSyncer] @ (if log_path config \<noteq> [] then [Stdout] else []) in
     ret (R\<lparr>
       log_Logger := \<lparr>Logger_Level = Some (getLogLevel unmarshal config),
         Logger_Fields = [(''service'', LogString (log_serviceName R)), (''env'', LogString (envName R))]\<rparr>,
       log_Write := (\<lambda>e. fold (\<lambda>out. file_Write F encoder out e) cores)\<rparr>))"

end
