(* ===== verification/Identity.thy ===== *)
theory Identity
  imports Gin Net RefEnv Logging
begin

section \<open>Identity of requests\<close>

text \<open>
  common/auth: the middlewares that read the identity headers set by the gateway, restrict a
  route to roles or to the internal network, and write the audit log.
\<close>

definition HeaderInternalUserID :: string where "HeaderInternalUserID = ''X-Internal-User-Id''"
definition HeaderUserRole :: string where "HeaderUserRole = ''X-User-Role''"

definition PermitAll :: "('w, 'p) handler \<Rightarrow> ('w, 'p) handler" where
  "PermitAll next = next"

definition userFromHeaders :: "'p Gin \<Rightarrow> AuthUser option" where
  "userFromHeaders c =
    (let rawID = TrimSpace (GetHeader c HeaderInternalUserID); role = TrimSpace (GetHeader c HeaderUserRole) in
     if rawID = [] \<or> role = [] then None
     else case ParseInt rawID of
         None \<Rightarrow> None
       | Some i \<Rightarrow> if i \<le> 0 then None
           else Some \<lparr>AuthUser_InternalUserID = i, AuthUser_ClerkUserID = [], AuthUser_Email = [], AuthUser_Role = role\<rparr>)"

definition unauthorized :: "'p Gin \<Rightarrow> 'p Gin" where
  "unauthorized c = c_JSON 401 (Envelope (- 1) ''Authentication required'' None) c"

definition forbidden :: "'p Gin \<Rightarrow> 'p Gin" where
  "forbidden c = c_JSON 403 (Envelope (- 1) ''Permission required'' None) c"

definition RequireRole :: "string list \<Rightarrow> ('w, 'p) handler \<Rightarrow> ('w, 'p) handler" where
  "RequireRole roles next c =
    (let allowed = filter (\<lambda>r. r \<noteq> []) (map TrimSpace roles) in
     case userFromHeaders c of
       None \<Rightarrow> ret (unauthorized c)
     | Some user \<Rightarrow>
         if 0 < length allowed \<and> AuthUser_Role user \<notin> set allowed then ret (forbidden c)
         else next (set_ctx (WithUser (req_ctx c) (Some user)) c))"

definition RequireUser :: "('w, 'p) handler \<Rightarrow> ('w, 'p) handler" where
  "RequireUser = RequireRole [RoleUser]"

definition RequireAdmin :: "('w, 'p) handler \<Rightarrow> ('w, 'p) handler" where
  "RequireAdmin = RequireRole [RoleAdmin]"

subsection \<open>The internal network\<close>

definition internalNetworkOpen :: "(nat \<Rightarrow> nat \<Rightarrow> bool) \<Rightarrow> 'w Runtime \<Rightarrow> bool" where
  "internalNetworkOpen orbit R = EqualFold orbit (TrimSpace (os_Getenv R ''APP_ENV'')) ''local''"

definition isInternalRemoteAddr :: "string \<Rightarrow> bool" where
  "isInternalRemoteAddr remoteAddr =
    (let host = (case SplitHostPort (TrimSpace remoteAddr) of None \<Rightarrow> remoteAddr | Some host \<Rightarrow> host) in
     case ParseIP (TrimSpace host) of
       None \<Rightarrow> False
     | Some ip \<Rightarrow> IsLoopback ip \<or> IsPrivate ip \<or> IsLinkLocalUnicast ip)"

definition RequireInternalNetwork ::
    "(nat \<Rightarrow> nat \<Rightarrow> bool) \<Rightarrow> 'w Runtime \<Rightarrow> ('w, 'p) handler \<Rightarrow> ('w, 'p) handler" where
  "RequireInternalNetwork orbit R next c =
    (if internalNetworkOpen orbit R \<or> isInternalRemoteAddr (In_RemoteAddr (g_Request c)) then next c
     else ret (c_Status 403 c))"

subsection \<open>Audit\<close>

text \<open>
  The line about a request and its caller, written after the rest of the chain has run, from
  the request and the response as that chain has left them. \<open>clientIP\<close> is gin's \<open>ClientIP\<close>, which
  depends on the proxies it trusts; the logger of a context may be nil, and so may the function
  that gives it.
\<close>

type_synonym 'w AuditLogger = "string \<Rightarrow> LogField list \<Rightarrow> ('w, unit) act"

definition auditTraceIDs :: "ctx \<Rightarrow> string \<times> string" where
  "auditTraceIDs c = (case ctx_span c of None \<Rightarrow> ([], []) | Some (traceID, spanID) \<Rightarrow> (traceID, spanID))"

definition audit_caller :: "'p Gin \<Rightarrow> int \<times> string" where
  "audit_caller c = (case GetUser (req_ctx c) of
      Some user \<Rightarrow> (AuthUser_InternalUserID user, AuthUser_Role user)
    | None \<Rightarrow> (case userFromHeaders c of
        Some u \<Rightarrow> (AuthUser_InternalUserID u, AuthUser_Role u)
      | None \<Rightarrow> (0, [])))"

definition audit_fields :: "('p Gin \<Rightarrow> string) \<Rightarrow> 'p Gin \<Rightarrow> int \<Rightarrow> LogField list" where
  "audit_fields clientIP c duration =
    (let (userID, role) = audit_caller c; (traceID, spanID) = auditTraceIDs (req_ctx c) in
     [(''method'', LogString (In_Method (g_Request c))), (''host'', LogString (In_Host (g_Request c))),
      (''referer'', LogString (GetHeader c ''Referer'')), (''ip'', LogString (clientIP c)),
      (''url'', LogString (In_URI (g_Request c))), (''user_id'', LogInt userID), (''role'', LogString role),
      (''status'', LogInt (g_Status c)), (''duration_ms'', LogMicros duration),
      (''trace_id'', LogString traceID), (''span_id'', LogString spanID)])"

definition AuditMiddleware ::
    "'w Runtime \<Rightarrow> ('p Gin \<Rightarrow> string) \<Rightarrow> (ctx \<Rightarrow> 'w AuditLogger option) option \<Rightarrow> ('w, 'p) handler \<Rightarrow> ('w, 'p) handler" where
  "AuditMiddleware R clientIP loggerFromContext next c = (case loggerFromContext of
      None \<Rightarrow> next c
    | Some from_ctx \<Rightarrow> bindA (now R) (\<lambda>start. bindA (next c) (\<lambda>c. case from_ctx (req_ctx c) of
          None \<Rightarrow> ret c
        | Some infow \<Rightarrow> bindA (now R) (\<lambda>t.
            seqA (infow ''[audit] http request'' (audit_fields clientIP c (Microseconds (t - start)))) (ret c)))))"

subsection \<open>Laws\<close>

lemma userFromHeaders_set_ctx [simp]: "userFromHeaders (set_ctx x c) = userFromHeaders c"
  by (simp add: userFromHeaders_def)

lemma RequireRole_cases:
  "RequireRole roles next c w =
    (case userFromHeaders c of
       None \<Rightarrow> (Ok (unauthorized c), w)
     | Some user \<Rightarrow>
         if (\<exists>r \<in> set roles. TrimSpace r \<noteq> []) \<and> AuthUser_Role user \<notin> TrimSpace ` set roles
         then (Ok (forbidden c), w)
         else next (set_ctx (WithUser (req_ctx c) (Some user)) c) w)"
proof (cases "userFromHeaders c")
  case (Some user)
  then have "AuthUser_Role user \<noteq> []" by (auto simp: userFromHeaders_def Let_def split: if_splits option.splits)
  moreover define allowed where "allowed = filter (\<lambda>r. r \<noteq> []) (map TrimSpace roles)"
  moreover have "set allowed = TrimSpace ` set roles - {[]}" by (auto simp: allowed_def)
  moreover from this have "0 < length allowed \<longleftrightarrow> (\<exists>r \<in> set roles. TrimSpace r \<noteq> [])"
    unfolding length_greater_0_conv set_empty [symmetric] by auto
  ultimately show ?thesis
    using Some by (simp add: RequireRole_def Let_def ret_def flip: allowed_def)
qed (simp add: RequireRole_def ret_def)

lemma userFromHeaders_Some:
  assumes "userFromHeaders c = Some u"
  shows "0 < AuthUser_InternalUserID u" "int64 (AuthUser_InternalUserID u)" "AuthUser_Role u \<noteq> []" "AuthUser_Email u = []"
    "TrimSpace (AuthUser_Role u) = AuthUser_Role u"
  using assms by (auto simp: userFromHeaders_def Let_def ParseInt_int64 split: if_splits option.splits)

subsection \<open>Properties\<close>

text \<open>
  C19. Only peers of the internal network pass: for an IPv4 peer \<open>a.b.c.d\<close> and any port,
  unless the environment is local, the forward-authentication route is served exactly for
  loopback, private (10/8, 172.16/12, 192.168/16) and link-local (169.254/16) addresses;
  every other peer gets 403 and nothing else happens.
\<close>

theorem internal_network_only:
  assumes "a < 256" "b < 256" "c < 256" "d < 256"
    and "In_RemoteAddr (g_Request g) = dotted a b c d @ '':'' @ nat_digits port"
    and "\<not> internalNetworkOpen orbit R"
  shows "RequireInternalNetwork orbit R next g w =
    (if a = 127 \<or> a = 10 \<or> (a = 172 \<and> 16 \<le> b \<and> b < 32) \<or> (a = 192 \<and> b = 168) \<or> (a = 169 \<and> b = 254)
     then next g w else (Ok (c_Status 403 g), w))"
proof -
  let ?ip = "dotted a b c d" and ?addr = "dotted a b c d @ '':'' @ nat_digits port"
  have plain: "plain x" if "x \<in> set (nat_digits n)" for x n
    using nat_digits_digits [OF that] by (simp add: plain_def byte_def)
  have edges: "?ip \<noteq> []" "plain (hd ?ip)" "plain (last ?ip)" "plain (last ?addr)" "plain (hd ?addr)"
    by (simp_all add: dotted_def plain [OF hd_in_set] plain [OF last_in_set])
  then have "TrimSpace ?ip = ?ip" "TrimSpace ?addr = ?addr" by (simp_all add: TrimSpace_plain)
  moreover have "SplitHostPort ?addr = Some ?ip"
    using SplitHostPort_plain [OF edges(1), of "nat_digits port"] by (simp add: dotted_def)
  moreover have "b div 16 = 1 \<longleftrightarrow> 16 \<le> b \<and> b < 32" by auto
  ultimately show ?thesis
    using assms(5,6) parse_dotted [OF assms(1-4)]
    by (auto simp: RequireInternalNetwork_def isInternalRemoteAddr_def IsLoopback_def IsPrivate_def
        IsLinkLocalUnicast_def To4_mapped ret_def)
qed

text \<open>
  C12. A user route is served exactly for callers whose identity headers hold a positive
  64-bit id and the role \<open>user\<close>, both up to white space, and its handler sees exactly this
  identity, without an e-mail; other roles get 403, missing or malformed headers 401, and
  then nothing else happens.
\<close>

theorem user_routes_gate:
  "RequireUser next c w =
    (let role = TrimSpace (GetHeader c ''X-User-Role'') in
     case ParseInt (TrimSpace (GetHeader c ''X-Internal-User-Id'')) of
       None \<Rightarrow> (Ok (c_JSON 401 (Envelope (- 1) ''Authentication required'' None) c), w)
     | Some i \<Rightarrow>
         if i \<le> 0 \<or> role = [] then (Ok (c_JSON 401 (Envelope (- 1) ''Authentication required'' None) c), w)
         else if role = ''user''
         then next (set_ctx (WithUser (req_ctx c) (Some \<lparr>AuthUser_InternalUserID = i, AuthUser_ClerkUserID = [],
            AuthUser_Email = [], AuthUser_Role = ''user''\<rparr>)) c) w
         else (Ok (c_JSON 403 (Envelope (- 1) ''Permission required'' None) c), w))"
proof -
  have "TrimSpace ''user'' = ''user''" by code_simp
  moreover have "ParseInt [] = None" by (simp add: ParseInt_def)
  ultimately show ?thesis
    by (auto simp: RequireUser_def RequireRole_cases RoleUser_def userFromHeaders_def Let_def unauthorized_def
        forbidden_def HeaderInternalUserID_def HeaderUserRole_def split: option.splits)
qed

subsection \<open>Witnesses\<close>

definition peer :: "string \<Rightarrow> unit Gin" where
  "peer addr = new_Gin \<lparr>In_Method = ''GET'', In_Host = ''id'', In_URI = ''/auth/forward'', In_Path = ''/auth/forward'', In_Query = [], In_Header = [], In_RemoteAddr = addr,
     In_Body = ([], None), In_Ctx = Background\<rparr>"

theorem internal_network_only_witness:
  "RequireInternalNetwork (=) ref_runtime ret (peer (dotted 8 8 8 8 @ '':'' @ nat_digits 443)) ref_start
     = (Ok (c_Status 403 (peer (dotted 8 8 8 8 @ '':'' @ nat_digits 443))), ref_start)
   \<and> RequireInternalNetwork (=) ref_runtime ret (peer (dotted 10 0 0 7 @ '':'' @ nat_digits 443)) ref_start
     = (Ok (peer (dotted 10 0 0 7 @ '':'' @ nat_digits 443)), ref_start)"
proof -
  have shut: "\<not> internalNetworkOpen (=) ref_runtime" by code_simp
  have peer: "In_RemoteAddr (g_Request (peer a)) = a" for a by (simp add: peer_def new_Gin_def)
  show ?thesis
    using internal_network_only [OF _ _ _ _ peer shut, of 8 8 8 8] internal_network_only [OF _ _ _ _ peer shut, of 10 0 0 7]
    by (simp add: ret_def)
qed

end
