(* ===== verification/MappingDao.thy ===== *)
theory MappingDao
  imports Clients
begin

section \<open>The table user_auth_mapping and its cache\<close>

text \<open>
  server/repository/dao/user_auth_mapping_dao.go and user_auth_mapping_cache.go: the rows
  that map a Clerk identity to an internal user, read through Redis by Clerk id. \<open>C\<close> is the
  package variable \<open>cacheredis.Client\<close> (\<open>None\<close> for nil, so that \<open>cacheredis.Available\<close> is
  \<open>C \<noteq> None\<close>), \<open>J\<close> the JSON form of a row. The contract is the locale \<open>mapping_table\<close>: a
  read through the cache gives what the table holds.
\<close>

definition userAuthMappingCachePrefix :: string where
  "userAuthMappingCachePrefix = ''user_auth_mapping:clerk:''"

definition userAuthMappingCacheTTL :: duration where "userAuthMappingCacheTTL = Hour"

definition userAuthMappingCacheKey :: "string \<Rightarrow> string" where
  "userAuthMappingCacheKey clerkUserID = userAuthMappingCachePrefix @ clerkUserID"

record 'w UserAuthMappingDao =
  dao_GetByClerkUserID :: "ctx \<Rightarrow> string \<Rightarrow> ('w, UserAuthMapping option) act"
  dao_GetByInternalUserID :: "ctx \<Rightarrow> int \<Rightarrow> ('w, UserAuthMapping option) act"
  dao_GetByEmail :: "ctx \<Rightarrow> string \<Rightarrow> ('w, UserAuthMapping option) act"
  dao_CreateMapping :: "ctx \<Rightarrow> UserAuthMapping \<Rightarrow> ('w, UserAuthMapping) act"

subsection \<open>The cache\<close>

definition getMappingFromCache ::
    "'w RedisClient option \<Rightarrow> UserAuthMapping Codec \<Rightarrow> ctx \<Rightarrow> string \<Rightarrow> ('w, UserAuthMapping option) act" where
  "getMappingFromCache C J c clerkUserID = (case C of
      None \<Rightarrow> ret None
    | Some R \<Rightarrow>
        if clerkUserID = [] then ret None
        else tryA (redis_Get R c (userAuthMappingCacheKey clerkUserID))
          (\<lambda>raw. case json_Unmarshal J raw of
              Inl e \<Rightarrow> seqA (best_effort (redis_Del R c (userAuthMappingCacheKey clerkUserID))) (ret None)
            | Inr row \<Rightarrow> ret (Some row))
          (\<lambda>e. ret None))"

definition setMappingCache ::
    "'w RedisClient option \<Rightarrow> UserAuthMapping Codec \<Rightarrow> ctx \<Rightarrow> UserAuthMapping option \<Rightarrow> ('w, unit) act" where
  "setMappingCache C J c row = (case (C, row) of
      (Some R, Some row) \<Rightarrow>
        if Mapping_ClerkUserID row = [] then ret ()
        else (case json_Marshal J row of
            Inl e \<Rightarrow> ret ()
          | Inr raw \<Rightarrow> best_effort (redis_Set R c (userAuthMappingCacheKey (Mapping_ClerkUserID row)) raw
                                     userAuthMappingCacheTTL))
    | _ \<Rightarrow> ret ())"

definition deleteMappingCache :: "'w RedisClient option \<Rightarrow> ctx \<Rightarrow> string \<Rightarrow> ('w, unit) act" where
  "deleteMappingCache C c clerkUserID = (case C of
      None \<Rightarrow> ret ()
    | Some R \<Rightarrow> if clerkUserID = [] then ret ()
        else best_effort (redis_Del R c (userAuthMappingCacheKey clerkUserID)))"

subsection \<open>The methods\<close>

definition db_first :: "'w GormDB \<Rightarrow> ctx \<Rightarrow> MappingWhere \<Rightarrow> ('w, UserAuthMapping option) act" where
  "db_first G c q = tryA (gorm_FirstMapping G c q)
     (\<lambda>row. ret (Some row))
     (\<lambda>e. if errors_Is e ErrRecordNotFound then ret None else throw e)"

definition UserAuthMappingDaoImpl_GetByClerkUserID ::
    "'w GormDB option \<Rightarrow> 'w RedisClient option \<Rightarrow> UserAuthMapping Codec \<Rightarrow> ctx \<Rightarrow> string
      \<Rightarrow> ('w, UserAuthMapping option) act" where
  "UserAuthMappingDaoImpl_GetByClerkUserID db C J c clerkUserID =
    bindA (getMappingFromCache C J c clerkUserID) (\<lambda>cached. case cached of
      Some row \<Rightarrow> ret (Some row)
    | None \<Rightarrow> (case db of
        None \<Rightarrow> throw ErrDatabaseDisabled
      | Some G \<Rightarrow> tryA (gorm_FirstMapping G c (clerk_user_id_eq clerkUserID))
          (\<lambda>row. seqA (setMappingCache C J c (Some row)) (ret (Some row)))
          (\<lambda>e. if errors_Is e ErrRecordNotFound then ret None else throw e)))"

definition UserAuthMappingDaoImpl_GetByEmail ::
    "'w GormDB option \<Rightarrow> ctx \<Rightarrow> string \<Rightarrow> ('w, UserAuthMapping option) act" where
  "UserAuthMappingDaoImpl_GetByEmail db c email = (case db of
      None \<Rightarrow> throw ErrDatabaseDisabled
    | Some G \<Rightarrow> db_first G c (email_eq email))"

definition UserAuthMappingDaoImpl_GetByInternalUserID ::
    "'w GormDB option \<Rightarrow> ctx \<Rightarrow> int \<Rightarrow> ('w, UserAuthMapping option) act" where
  "UserAuthMappingDaoImpl_GetByInternalUserID db c internalUserID = (case db of
      None \<Rightarrow> throw ErrDatabaseDisabled
    | Some G \<Rightarrow> if internalUserID \<le> 0 then ret None
        else db_first G c (internal_user_id_eq internalUserID))"

text \<open>Of the handle \<open>trx\<close>, \<open>statementContext\<close> gives the context the transaction was begun with.\<close>

definition UserAuthMappingDaoImpl_CreateInTransaction ::
    "'w GormDB option \<Rightarrow> 'w RedisClient option \<Rightarrow> ctx \<Rightarrow> UserAuthMapping \<Rightarrow> ('w, UserAuthMapping) act" where
  "UserAuthMappingDaoImpl_CreateInTransaction db C c m = (case db of
      None \<Rightarrow> throw ErrDatabaseDisabled
    | Some G \<Rightarrow>
        seqA (deleteMappingCache C c (Mapping_ClerkUserID m))
          (bindA (gorm_CreateMapping G m) (\<lambda>m'.
             seqA (deleteMappingCache C c (Mapping_ClerkUserID m')) (ret m'))))"

definition UserAuthMappingDaoImpl ::
    "'w GormDB option \<Rightarrow> 'w RedisClient option \<Rightarrow> UserAuthMapping Codec \<Rightarrow> 'w UserAuthMappingDao" where
  "UserAuthMappingDaoImpl db C J = \<lparr>
     dao_GetByClerkUserID = UserAuthMappingDaoImpl_GetByClerkUserID db C J,
     dao_GetByInternalUserID = UserAuthMappingDaoImpl_GetByInternalUserID db,
     dao_GetByEmail = UserAuthMappingDaoImpl_GetByEmail db,
     dao_CreateMapping = UserAuthMappingDaoImpl_CreateInTransaction db C\<rparr>"

subsection \<open>The contract\<close>

definition mapping_key :: "string \<Rightarrow> bool" where
  "mapping_key k \<longleftrightarrow> (\<exists>i. k = userAuthMappingCacheKey i)"

definition mapping_of :: "(string \<Rightarrow> string \<Rightarrow> bool) \<Rightarrow> MappingWhere \<Rightarrow> Stores \<Rightarrow> UserAuthMapping option" where
  "mapping_of coll q st = find (where_holds coll q) (st_mappings st)"

text \<open>
  What an operation that leaves the mappings alone may do: anything to the other tables and
  keys, and losing cached rows.
\<close>

definition mappings_kept :: "Stores \<Rightarrow> Stores \<Rightarrow> bool" where
  "mappings_kept st st' \<longleftrightarrow> st_mappings st' = st_mappings st
     \<and> (\<forall>k v. mapping_key k \<longrightarrow> st_cache st' k = Some v \<longrightarrow> st_cache st k = Some v)"

lemma mappings_keptI [intro]:
  "st_mappings st' = st_mappings st \<Longrightarrow>
   (\<And>k v. mapping_key k \<Longrightarrow> st_cache st' k = Some v \<Longrightarrow> st_cache st k = Some v) \<Longrightarrow> mappings_kept st st'"
  by (simp add: mappings_kept_def)

locale mapping_table =
  fixes dao :: "'w UserAuthMappingDao"
    and S :: "'w \<Rightarrow> Stores"
    and coll :: "string \<Rightarrow> string \<Rightarrow> bool"
    and ok :: "'w \<Rightarrow> bool"
  assumes clerk_runs: "ok w \<Longrightarrow> runs (dao_GetByClerkUserID dao c k) w
      (\<lambda>r w'. r = mapping_of coll (clerk_user_id_eq k) (S w) \<and> only_cache mapping_key (S w) (S w') \<and> ok w')
      (\<lambda>e w'. outside e \<and> only_cache mapping_key (S w) (S w') \<and> ok w')"
    and email_runs: "ok w \<Longrightarrow> runs (dao_GetByEmail dao c e) w
      (\<lambda>r w'. r = mapping_of coll (email_eq e) (S w) \<and> only_cache mapping_key (S w) (S w') \<and> ok w')
      (\<lambda>e w'. outside e \<and> only_cache mapping_key (S w) (S w') \<and> ok w')"
    and internal_runs: "ok w \<Longrightarrow> runs (dao_GetByInternalUserID dao c i) w
      (\<lambda>r w'. r = (if i \<le> 0 then None else mapping_of coll (internal_user_id_eq i) (S w))
          \<and> only_cache mapping_key (S w) (S w') \<and> ok w')
      (\<lambda>e w'. outside e \<and> only_cache mapping_key (S w) (S w') \<and> ok w')"
    and create_runs: "ok w \<Longrightarrow> runs (dao_CreateMapping dao c m) w
      (\<lambda>m' w'. ok w' \<and> (\<exists>row. same_mapping row m \<and> same_mapping m' m
          \<and> mapping_of coll (clerk_user_id_eq (Mapping_ClerkUserID m)) (S w) = None
          \<and> shrinks ((S w)\<lparr>st_mappings := st_mappings (S w) @ [row]\<rparr>) (S w')))
      (\<lambda>e w'. outside e \<and> shrinks (S w) (S w') \<and> ok w')"
    and ok_frame: "ok w \<Longrightarrow> mappings_kept (S w) (S w') \<Longrightarrow> ok w'"

subsection \<open>The implementation meets the contract\<close>

text \<open>
  The cache is coherent: what is stored under the key of a Clerk id decodes to the row the
  table gives for that id. Rows are never changed or deleted by the service and a Clerk id
  never gets a second row, so every operation keeps this, whether or not the deletions in
  \<open>CreateInTransaction\<close> succeed.
\<close>

definition mapping_cache_ok ::
    "(string \<Rightarrow> string \<Rightarrow> bool) \<Rightarrow> UserAuthMapping Codec \<Rightarrow> Stores \<Rightarrow> bool" where
  "mapping_cache_ok coll J st \<longleftrightarrow> (\<forall>k v row. k \<noteq> [] \<longrightarrow> st_cache st (userAuthMappingCacheKey k) = Some v
     \<longrightarrow> json_Unmarshal J v = Inr row \<longrightarrow> mapping_of coll (clerk_user_id_eq k) st = Some row)"

definition cache_client_ok :: "('w \<Rightarrow> Stores) \<Rightarrow> 'w RedisClient option \<Rightarrow> bool" where
  "cache_client_ok S C \<longleftrightarrow> (case C of None \<Rightarrow> True | Some R \<Rightarrow> redis_ok S R)"

text \<open>A collation is an equivalence.\<close>

definition collation :: "(string \<Rightarrow> string \<Rightarrow> bool) \<Rightarrow> bool" where
  "collation coll \<longleftrightarrow> (\<forall>a. coll a a) \<and> (\<forall>a b. coll a b \<longrightarrow> coll b a)
     \<and> (\<forall>a b c. coll a b \<longrightarrow> coll b c \<longrightarrow> coll a c)"

lemma mapping_of_cong: "st_mappings st' = st_mappings st \<Longrightarrow> mapping_of coll q st' = mapping_of coll q st"
  by (simp add: mapping_of_def)

lemma mapping_cache_mono:
  assumes "mapping_cache_ok coll J st" and "st_mappings st' = st_mappings st"
    and "\<And>k v. st_cache st' (userAuthMappingCacheKey k) = Some v \<Longrightarrow>
      st_cache st (userAuthMappingCacheKey k) = Some v"
  shows "mapping_cache_ok coll J st'"
  using assms(1,3) by (simp add: mapping_cache_ok_def mapping_of_cong [OF assms(2)])

lemma mapping_cache_shrinks:
  "mapping_cache_ok coll J st \<Longrightarrow> shrinks st st' \<Longrightarrow> mapping_cache_ok coll J st'"
  by (rule mapping_cache_mono [where st = st]) (auto dest: shrinksD)

lemma mapping_cache_other:
  "mapping_cache_ok coll J st \<Longrightarrow> only_cache K st st' \<Longrightarrow> (\<And>k. \<not> K (userAuthMappingCacheKey k))
    \<Longrightarrow> mapping_cache_ok coll J st'"
  by (rule mapping_cache_mono [where st = st]) (auto dest: only_cacheD)

lemma mapping_cache_append:
  assumes "mapping_cache_ok coll J st"
  shows "mapping_cache_ok coll J (st\<lparr>st_mappings := st_mappings st @ [row]\<rparr>)"
  using assms by (auto simp: mapping_cache_ok_def mapping_of_def find_append_None split: option.splits)

lemma where_class:
  "collation coll \<Longrightarrow> coll a b \<Longrightarrow> where_holds coll (clerk_user_id_eq a) m = where_holds coll (clerk_user_id_eq b) m"
  unfolding collation_def where_holds.simps by meson

lemma key_inj [simp]: "userAuthMappingCacheKey a = userAuthMappingCacheKey b \<longleftrightarrow> a = b"
  by (simp add: userAuthMappingCacheKey_def)

lemma getMappingFromCache_runs:
  assumes "cache_client_ok S C" and "mapping_cache_ok coll J (S w)"
  shows "runs (getMappingFromCache C J c k) w
    (\<lambda>r w'. (r \<noteq> None \<longrightarrow> r = mapping_of coll (clerk_user_id_eq k) (S w)) \<and> shrinks (S w) (S w')) Q"
proof (cases "C = None \<or> k = []")
  case True
  then show ?thesis by (auto simp: getMappingFromCache_def split: option.splits)
next
  case False
  then obtain R where C: "C = Some R" and "k \<noteq> []" by auto
  then have R: "redis_ok S R" using assms(1) by (simp add: cache_client_ok_def)
  have "runs (case json_Unmarshal J raw of
          Inl e \<Rightarrow> seqA (best_effort (redis_Del R c (userAuthMappingCacheKey k))) (ret None)
        | Inr row \<Rightarrow> ret (Some row)) w1
      (\<lambda>r w'. (r \<noteq> None \<longrightarrow> r = mapping_of coll (clerk_user_id_eq k) (S w)) \<and> shrinks (S w) (S w')) Q"
    if raw: "st_cache (S w) (userAuthMappingCacheKey k) = Some raw" "shrinks (S w) (S w1)" for raw w1
  proof (cases "json_Unmarshal J raw")
    case (Inl e)
    have "runs (best_effort (redis_Del R c (userAuthMappingCacheKey k))) w1
        (\<lambda>_ w'. shrinks (S w) (S w')) Q"
      by (rule runs_best_effort [OF redis_del_runs [OF R]]) (auto intro: shrinks_trans [OF raw(2)])
    with Inl show ?thesis by (auto intro: runs_bindA)
  next
    case (Inr row)
    then show ?thesis using raw assms(2) \<open>k \<noteq> []\<close> by (auto simp: mapping_cache_ok_def)
  qed
  then show ?thesis
    unfolding getMappingFromCache_def C using \<open>k \<noteq> []\<close>
    by (auto intro: runs_tryA [OF redis_get_runs [OF R]])
qed

lemma setMappingCache_runs:
  assumes "cache_client_ok S C" and "codec_ok J" and "mapping_cache_ok coll J (S w)"
    and "mapping_of coll (clerk_user_id_eq (Mapping_ClerkUserID row)) (S w) = Some row"
  shows "runs (setMappingCache C J c (Some row)) w
    (\<lambda>_ w'. mapping_cache_ok coll J (S w') \<and> only_cache mapping_key (S w) (S w')) Q"
proof -
  let ?k = "userAuthMappingCacheKey (Mapping_ClerkUserID row)"
  have put: "mapping_cache_ok coll J (put ?k raw st) \<and> only_cache mapping_key (S w) (put ?k raw st)"
    if "shrinks (S w) st" "json_Marshal J row = Inr raw" for st raw
  proof
    show "only_cache mapping_key (S w) (put ?k raw st)"
      by (rule only_cache_store [OF that(1)]) (auto simp: mapping_key_def)
    have "json_Unmarshal J raw = Inr row" using assms(2) that(2) by (simp add: codec_ok_def)
    with assms(4) mapping_cache_shrinks [OF assms(3) that(1)]
    show "mapping_cache_ok coll J (put ?k raw st)"
      by (auto simp: mapping_cache_ok_def mapping_of_def shrinksD [OF that(1)])
  qed
  have keep: "mapping_cache_ok coll J st \<and> only_cache mapping_key (S w) st" if "shrinks (S w) st" for st
    using that assms(3) mapping_cache_shrinks only_cache_shrink by blast
  show ?thesis
  proof (cases C)
    case None
    then show ?thesis using assms(3) by (simp add: setMappingCache_def)
  next
    case (Some R)
    then have R: "redis_ok S R" using assms(1) by (simp add: cache_client_ok_def)
    show ?thesis
      using keep put assms(3) unfolding setMappingCache_def Some
      by (auto split: sum.splits intro!: runs_best_effort [OF redis_set_runs [OF R]])
  qed
qed

lemma deleteMappingCache_runs:
  assumes "cache_client_ok S C"
  shows "runs (deleteMappingCache C c k) w (\<lambda>_ w'. shrinks (S w) (S w')) Q"
proof (cases C)
  case (Some R)
  then have R: "redis_ok S R" using assms by (simp add: cache_client_ok_def)
  then show ?thesis
    unfolding deleteMappingCache_def Some
    by (auto intro: runs_best_effort [OF redis_del_runs [OF R]])
qed (simp add: deleteMappingCache_def)

lemma mapping_cache_frame: "mapping_cache_ok coll J st \<Longrightarrow> mappings_kept st st' \<Longrightarrow> mapping_cache_ok coll J st'"
  by (rule mapping_cache_mono [where st = st]) (auto simp: mappings_kept_def mapping_key_def)

lemma mapping_of_self:
  assumes "collation coll" and "mapping_of coll (clerk_user_id_eq k) st = Some row"
  shows "mapping_of coll (clerk_user_id_eq (Mapping_ClerkUserID row)) st = Some row"
proof -
  have "coll (Mapping_ClerkUserID row) k"
    using assms(2) by (auto simp: mapping_of_def dest: find_SomeD)
  then have "where_holds coll (clerk_user_id_eq (Mapping_ClerkUserID row)) = where_holds coll (clerk_user_id_eq k)"
    by (intro ext where_class [OF assms(1)])
  with assms(2) show ?thesis by (simp add: mapping_of_def del: where_holds.simps)
qed

definition mapping_world_ok ::
    "('w \<Rightarrow> Stores) \<Rightarrow> (string \<Rightarrow> string \<Rightarrow> bool) \<Rightarrow> 'w GormDB option \<Rightarrow> 'w RedisClient option
      \<Rightarrow> UserAuthMapping Codec \<Rightarrow> 'w \<Rightarrow> bool" where
  "mapping_world_ok S coll db C J w \<longleftrightarrow> db_ok S coll db \<and> cache_client_ok S C \<and> codec_ok J
     \<and> collation coll \<and> mapping_cache_ok coll J (S w)"

lemma db_first_runs:
  assumes "gorm_ok S coll G"
  shows "runs (db_first G c q) w (\<lambda>r w'. r = mapping_of coll q (S w) \<and> S w' = S w) (\<lambda>e w'. outside e \<and> S w' = S w)"
  unfolding db_first_def mapping_of_def
  by (rule runs_tryA [OF first_mapping_runs [OF assms]]) auto

lemma GetByClerkUserID_runs:
  assumes "mapping_world_ok S coll db C J w"
  shows "runs (UserAuthMappingDaoImpl_GetByClerkUserID db C J c k) w
      (\<lambda>r w'. r = mapping_of coll (clerk_user_id_eq k) (S w) \<and> only_cache mapping_key (S w) (S w')
        \<and> mapping_world_ok S coll db C J w')
      (\<lambda>e w'. outside e \<and> only_cache mapping_key (S w) (S w') \<and> mapping_world_ok S coll db C J w')"
    (is "runs _ w ?P ?Q")
proof -
  note ok = assms [unfolded mapping_world_ok_def]
  have keep: "mapping_world_ok S coll db C J w1 \<and> only_cache mapping_key (S w) (S w1)"
    if "shrinks (S w) (S w1)" for w1
    using that ok mapping_cache_shrinks only_cache_shrink by (auto simp: mapping_world_ok_def)
  have miss: "runs (case db of
        None \<Rightarrow> throw ErrDatabaseDisabled
      | Some G \<Rightarrow> tryA (gorm_FirstMapping G c (clerk_user_id_eq k))
          (\<lambda>row. seqA (setMappingCache C J c (Some row)) (ret (Some row)))
          (\<lambda>e. if errors_Is e ErrRecordNotFound then ret None else throw e)) w1 ?P ?Q"
    if sh: "shrinks (S w) (S w1)" for w1
  proof (cases db)
    case None
    then show ?thesis using keep [OF sh] by simp
  next
    case (Some G)
    then have G: "gorm_ok S coll G" using ok by (simp add: db_ok_def)
    have ok1: "mapping_cache_ok coll J (S w1)" and m1: "st_mappings (S w1) = st_mappings (S w)"
      using keep [OF sh] shrinksD [OF sh] by (auto simp: mapping_world_ok_def)
    have hit: "runs (seqA (setMappingCache C J c (Some row)) (ret (Some row))) w2 ?P ?Q"
      if w2: "S w2 = S w1" "find (where_holds coll (clerk_user_id_eq k)) (st_mappings (S w1)) = Some row"
      for row w2
    proof (rule runs_bindA [OF setMappingCache_runs [of S C J coll w2 row]])
      have row: "mapping_of coll (clerk_user_id_eq k) (S w2) = Some row"
        using w2 by (simp add: mapping_of_def)
      show "cache_client_ok S C" "codec_ok J" using ok by auto
      show "mapping_cache_ok coll J (S w2)" using ok1 w2 by simp
      show "mapping_of coll (clerk_user_id_eq (Mapping_ClerkUserID row)) (S w2) = Some row"
        using ok row mapping_of_self by blast
      fix u w' assume "mapping_cache_ok coll J (S w') \<and> only_cache mapping_key (S w2) (S w')"
      then show "runs (ret (Some row)) w' ?P ?Q"
        using ok w2 m1 keep [OF sh] by (auto simp: mapping_of_def mapping_world_ok_def intro: only_cache_trans)
    qed simp
    show ?thesis
      unfolding Some option.case
      by (rule runs_tryA [OF first_mapping_runs [OF G]])
        (use hit keep [OF sh] m1 ok Some in \<open>auto simp: mapping_of_def mapping_world_ok_def\<close>)
  qed
  show ?thesis
    unfolding UserAuthMappingDaoImpl_GetByClerkUserID_def
  proof (rule runs_bindA [OF getMappingFromCache_runs [of S C coll J w]])
    fix r w1
    assume r: "(r \<noteq> None \<longrightarrow> r = mapping_of coll (clerk_user_id_eq k) (S w)) \<and> shrinks (S w) (S w1)"
    then show "runs (case r of None \<Rightarrow> case db of
        None \<Rightarrow> throw ErrDatabaseDisabled
      | Some G \<Rightarrow> tryA (gorm_FirstMapping G c (clerk_user_id_eq k))
          (\<lambda>row. seqA (setMappingCache C J c (Some row)) (ret (Some row)))
          (\<lambda>e. if errors_Is e ErrRecordNotFound then ret None else throw e)
      | Some row \<Rightarrow> ret (Some row)) w1 ?P ?Q"
      using miss keep by (cases r) (auto simp: eq_commute [of "Some _" "mapping_of _ _ _"])
  qed (use ok in auto)
qed

lemma CreateMapping_runs:
  assumes "mapping_world_ok S coll db C J w"
  shows "runs (UserAuthMappingDaoImpl_CreateInTransaction db C c m) w
      (\<lambda>m' w'. mapping_world_ok S coll db C J w' \<and> (\<exists>row. same_mapping row m \<and> same_mapping m' m
          \<and> mapping_of coll (clerk_user_id_eq (Mapping_ClerkUserID m)) (S w) = None
          \<and> shrinks ((S w)\<lparr>st_mappings := st_mappings (S w) @ [row]\<rparr>) (S w')))
      (\<lambda>e w'. outside e \<and> shrinks (S w) (S w') \<and> mapping_world_ok S coll db C J w')"
    (is "runs _ w ?P ?Q")
proof (cases db)
  case None
  then show ?thesis using assms by (simp add: UserAuthMappingDaoImpl_CreateInTransaction_def)
next
  case (Some G)
  note ok = assms [unfolded mapping_world_ok_def]
  have G: "gorm_ok S coll G" and C: "cache_client_ok S C" using ok Some by (auto simp: db_ok_def)
  have keep: "mapping_world_ok S coll db C J w2" if "mapping_cache_ok coll J st" "shrinks st (S w2)" for st w2
    using ok that mapping_cache_shrinks by (auto simp: mapping_world_ok_def)
  have inner: "runs (bindA (gorm_CreateMapping G m) (\<lambda>m'.
      seqA (deleteMappingCache C c (Mapping_ClerkUserID m')) (ret m'))) w1 ?P ?Q"
    if sh: "shrinks (S w) (S w1)" for w1
  proof (rule runs_bindA [OF create_mapping_runs [OF G]])
    fix m' w2
    assume "\<exists>row. same_mapping row m \<and> same_mapping m' m
        \<and> find (where_holds coll (clerk_user_id_eq (Mapping_ClerkUserID m))) (st_mappings (S w1)) = None
        \<and> S w2 = (S w1)\<lparr>st_mappings := st_mappings (S w1) @ [row]\<rparr>"
    then obtain row where row: "same_mapping row m" "same_mapping m' m"
        "find (where_holds coll (clerk_user_id_eq (Mapping_ClerkUserID m))) (st_mappings (S w1)) = None"
        "S w2 = (S w1)\<lparr>st_mappings := st_mappings (S w1) @ [row]\<rparr>"
      by blast
    let ?st = "(S w)\<lparr>st_mappings := st_mappings (S w) @ [row]\<rparr>"
    have st: "shrinks ?st (S w2)" using sh row(4) by (auto simp: shrinks_def)
    have okst: "mapping_cache_ok coll J ?st" using ok by (simp add: mapping_cache_append)
    have none: "mapping_of coll (clerk_user_id_eq (Mapping_ClerkUserID m)) (S w) = None"
      using row(3) shrinksD(2) [OF sh] by (simp add: mapping_of_def)
    show "runs (seqA (deleteMappingCache C c (Mapping_ClerkUserID m')) (ret m')) w2 ?P ?Q"
      by (rule runs_bindA [OF deleteMappingCache_runs [OF C]])
        (use row none keep [OF okst] shrinks_trans [OF st] in auto)
  qed (use keep ok sh in auto)
  show ?thesis
    unfolding UserAuthMappingDaoImpl_CreateInTransaction_def Some option.case
    by (rule runs_bindA [OF deleteMappingCache_runs [OF C]]) (use inner Some in auto)
qed

interpretation mappings_impl: mapping_table "UserAuthMappingDaoImpl db C J" S coll
    "mapping_world_ok S coll db C J" for db C J S coll
proof unfold_locales
  fix w c k e i m w'
  assume ok: "mapping_world_ok S coll db C J w"
  then have G: "gorm_ok S coll G" if "db = Some G" for G
    using that by (simp add: mapping_world_ok_def db_ok_def)
  show "runs (dao_GetByClerkUserID (UserAuthMappingDaoImpl db C J) c k) w
      (\<lambda>r w'. r = mapping_of coll (clerk_user_id_eq k) (S w) \<and> only_cache mapping_key (S w) (S w')
        \<and> mapping_world_ok S coll db C J w')
      (\<lambda>e w'. outside e \<and> only_cache mapping_key (S w) (S w') \<and> mapping_world_ok S coll db C J w')"
    using GetByClerkUserID_runs [OF ok] by (simp add: UserAuthMappingDaoImpl_def)
  note first = runs_mono [OF db_first_runs [OF G]]
  show "runs (dao_GetByEmail (UserAuthMappingDaoImpl db C J) c e) w
      (\<lambda>r w'. r = mapping_of coll (email_eq e) (S w) \<and> only_cache mapping_key (S w) (S w')
        \<and> mapping_world_ok S coll db C J w')
      (\<lambda>e w'. outside e \<and> only_cache mapping_key (S w) (S w') \<and> mapping_world_ok S coll db C J w')"
    using ok by (cases db) (auto simp: UserAuthMappingDaoImpl_def UserAuthMappingDaoImpl_GetByEmail_def
        mapping_world_ok_def intro!: first)
  show "runs (dao_GetByInternalUserID (UserAuthMappingDaoImpl db C J) c i) w
      (\<lambda>r w'. r = (if i \<le> 0 then None else mapping_of coll (internal_user_id_eq i) (S w))
        \<and> only_cache mapping_key (S w) (S w') \<and> mapping_world_ok S coll db C J w')
      (\<lambda>e w'. outside e \<and> only_cache mapping_key (S w) (S w') \<and> mapping_world_ok S coll db C J w')"
    using ok by (cases db) (auto simp: UserAuthMappingDaoImpl_def
        UserAuthMappingDaoImpl_GetByInternalUserID_def mapping_world_ok_def intro!: first)
  show "runs (dao_CreateMapping (UserAuthMappingDaoImpl db C J) c m) w
      (\<lambda>m' w'. mapping_world_ok S coll db C J w' \<and> (\<exists>row. same_mapping row m \<and> same_mapping m' m
          \<and> mapping_of coll (clerk_user_id_eq (Mapping_ClerkUserID m)) (S w) = None
          \<and> shrinks ((S w)\<lparr>st_mappings := st_mappings (S w) @ [row]\<rparr>) (S w')))
      (\<lambda>e w'. outside e \<and> shrinks (S w) (S w') \<and> mapping_world_ok S coll db C J w')"
    using CreateMapping_runs [OF ok] by (simp add: UserAuthMappingDaoImpl_def)
  show "mappings_kept (S w) (S w') \<Longrightarrow> mapping_world_ok S coll db C J w'"
    using ok mapping_cache_frame by (auto simp: mapping_world_ok_def)
qed

end
