(* ===== verification/Base64.thy ===== *)
theory Base64
  imports GoStrings
begin

section \<open>Unpadded URL-safe base64\<close>

text \<open>
  \<open>base64.RawURLEncoding\<close> of the standard library, used for JWT parts and key material:
  \<open>DecodeString\<close> skips carriage returns and line feeds, fails on any other character outside
  the alphabet and on a single left-over character, and ignores the unused low bits of the
  last one. \<open>EncodeToString\<close> is its inverse, for the senders.
\<close>

definition b64_val :: "char \<Rightarrow> nat option" where
  "b64_val c = (let b = byte c in
     if 65 \<le> b \<and> b \<le> 90 then Some (b - 65)
     else if 97 \<le> b \<and> b \<le> 122 then Some (b - 71)
     else if 48 \<le> b \<and> b \<le> 57 then Some (b + 4)
     else if b = 45 then Some 62
     else if b = 95 then Some 63 else None)"

definition b64_char :: "nat \<Rightarrow> char" where
  "b64_char v = char_of (if v < 26 then 65 + v else if v < 52 then 71 + v else if v < 62 then v - 4
     else if v = 62 then 45 else 95)"

fun b64_vals :: "string \<Rightarrow> nat list option" where
  "b64_vals [] = Some []"
| "b64_vals (c # cs) =
    (if byte c = 10 \<or> byte c = 13 then b64_vals cs
     else case b64_val c of None \<Rightarrow> None
       | Some v \<Rightarrow> (case b64_vals cs of None \<Rightarrow> None | Some vs \<Rightarrow> Some (v # vs)))"

fun b64_bytes :: "nat list \<Rightarrow> nat list option" where
  "b64_bytes [] = Some []"
| "b64_bytes [a] = None"
| "b64_bytes [a, b] = Some [a * 4 + b div 16]"
| "b64_bytes [a, b, c] = Some [a * 4 + b div 16, (b mod 16) * 16 + c div 4]"
| "b64_bytes (a # b # c # d # vs) = (case b64_bytes vs of None \<Rightarrow> None
     | Some bs \<Rightarrow> Some ((a * 4 + b div 16) # ((b mod 16) * 16 + c div 4) # ((c mod 4) * 64 + d) # bs))"

definition RawURL_DecodeString :: "string \<Rightarrow> go_error + string" where
  "RawURL_DecodeString s = (case Option.bind (b64_vals s) b64_bytes of
      None \<Rightarrow> Inl (External ''illegal base64 data'')
    | Some bs \<Rightarrow> Inr (map char_of bs))"

fun b64_encode :: "nat list \<Rightarrow> nat list" where
  "b64_encode [] = []"
| "b64_encode [x] = [x div 4, (x mod 4) * 16]"
| "b64_encode [x, y] = [x div 4, (x mod 4) * 16 + y div 16, (y mod 16) * 4]"
| "b64_encode (x # y # z # bs) =
     (x div 4) # ((x mod 4) * 16 + y div 16) # ((y mod 16) * 4 + z div 64) # (z mod 64) # b64_encode bs"

definition RawURL_EncodeToString :: "string \<Rightarrow> string" where
  "RawURL_EncodeToString s = map b64_char (b64_encode (map byte s))"

lemma b64_val_char [simp]: "v < 64 \<Longrightarrow> b64_val (b64_char v) = Some v"
  by (auto simp: b64_val_def b64_char_def byte_def Let_def)

lemma byte_b64_char: "v < 64 \<Longrightarrow> byte (b64_char v) \<noteq> 10 \<and> byte (b64_char v) \<noteq> 13"
  by (auto simp: b64_char_def byte_def)

lemma b64_vals_chars: "list_all (\<lambda>v. v < 64) vs \<Longrightarrow> b64_vals (map b64_char vs) = Some vs"
  by (induction vs) (auto simp: byte_b64_char)

lemma b64_encode_small: "list_all (\<lambda>b. b < 256) bs \<Longrightarrow> list_all (\<lambda>v. v < 64) (b64_encode bs)"
  by (induction bs rule: b64_encode.induct) auto

lemma b64_bytes_encode: "list_all (\<lambda>b. b < 256) bs \<Longrightarrow> b64_bytes (b64_encode bs) = Some bs"
proof (induction bs rule: b64_encode.induct)
  case (3 x y)
  have "((x mod 4) * 16 + y div 16) div 16 = x mod 4" "((x mod 4) * 16 + y div 16) mod 16 = y div 16"
    using 3 by (auto simp: div_less_dividend)
  then show ?case by simp
next
  case (4 x y z bs)
  have "((x mod 4) * 16 + y div 16) div 16 = x mod 4" "((x mod 4) * 16 + y div 16) mod 16 = y div 16"
    "((y mod 16) * 4 + z div 64) div 4 = y mod 16" "((y mod 16) * 4 + z div 64) mod 4 = z div 64"
    using 4 by auto
  with 4 show ?case by simp
qed auto

lemma Decode_Encode [simp]: "RawURL_DecodeString (RawURL_EncodeToString s) = Inr s"
proof -
  have "list_all (\<lambda>b. b < 256) (map byte s)" by (simp add: list_all_iff)
  then show ?thesis
    by (simp add: RawURL_DecodeString_def RawURL_EncodeToString_def b64_vals_chars b64_encode_small
        b64_bytes_encode byte_def comp_def)
qed

text \<open>The alphabet has no dot: an encoded part of a token never splits it.\<close>

lemma Encode_no_dot: "CHR ''.'' \<notin> set (RawURL_EncodeToString s)"
proof -
  have "b64_char v \<noteq> CHR ''.''" if "v < 64" for v
  proof
    assume "b64_char v = CHR ''.''"
    then have "b64_val (b64_char v) = b64_val CHR ''.''" by simp
    moreover have "b64_val CHR ''.'' = None" by code_simp
    ultimately show False using that by simp
  qed
  moreover have "list_all (\<lambda>v. v < 64) (b64_encode (map byte s))"
    by (rule b64_encode_small) (simp add: list_all_iff)
  ultimately show ?thesis
    unfolding RawURL_EncodeToString_def list_all_iff set_map by (metis imageE)
qed

definition big_SetBytes :: "string \<Rightarrow> nat" where
  "big_SetBytes bs = foldl (\<lambda>n b. 256 * n + byte b) 0 bs"

end
