(* ===== verification/ClerkAuth.thy ===== *)
theory ClerkAuth
  imports MappingDao Base64 Gin RefEnv Complex_Main
begin

section \<open>Authentication with Clerk tokens\<close>

text \<open>
  server/auth: a bearer token is checked against the keys Clerk publishes and mapped to an
  internal user. The key cache (\<open>jwksCache\<close>) is state of the process: calls run on pairs of
  it and the world. The RSA check of crypto/rsa over SHA-256 is the parameter \<open>V\<close>, the three
  JSON decoders are the record \<open>ClerkJson\<close>. Times in a token are JSON numbers, which Go holds
  as finite floats: rational numbers here, and \<open>oor\<close> is what the machine makes of converting
  one that does not fit into 64 bits.
\<close>

record jwtHeader =
  hdr_Alg :: string
  hdr_KID :: string

record jwtClaims =
  clm_Subject :: string
  clm_Issuer :: string
  clm_Email :: string
  clm_Expiry :: rat
  clm_NotBefore :: rat

record rsa_PublicKey =
  rsa_N :: nat
  rsa_E :: int

record jwkKey =
  key_KID :: string
  key_KTY :: string
  key_Alg :: string
  key_Use :: string
  key_N :: string
  key_E :: string

record jwksCache =
  jwks_url :: string
  jwks_expiresAt :: instant
  jwks_keys :: "string \<Rightarrow> rsa_PublicKey option"

record ClerkJson =
  json_Header :: "string \<Rightarrow> go_error + jwtHeader"
  json_Claims :: "string \<Rightarrow> go_error + jwtClaims"
  json_Jwks :: "string \<Rightarrow> go_error + jwkKey list"

type_synonym Verifier = "rsa_PublicKey \<Rightarrow> string \<Rightarrow> string \<Rightarrow> go_error option"

subsection \<open>64-bit arithmetic\<close>

definition truncate_rat :: "rat \<Rightarrow> int" where
  "truncate_rat f = (if 0 \<le> f then \<lfloor>f\<rfloor> else \<lceil>f\<rceil>)"

text \<open>\<open>int64(f)\<close>, and \<open>time.Unix(s, 0)\<close>, whose seconds since year 1 wrap around.\<close>

definition int64_of_float :: "(rat \<Rightarrow> int) \<Rightarrow> rat \<Rightarrow> int" where
  "int64_of_float oor f = (let i = truncate_rat f in if int64 i then i else wrap64 (oor f))"

definition time_Unix :: "int \<Rightarrow> instant" where
  "time_Unix s = wrap64 (s + unix_epoch) * Second"

subsection \<open>The key cache\<close>

definition jwksCacheTTL :: duration where "jwksCacheTTL = 5 * Minute"

definition newJWKSCache :: "string \<Rightarrow> jwksCache" where
  "newJWKSCache url = \<lparr>jwks_url = url, jwks_expiresAt = 0, jwks_keys = Map.empty\<rparr>"

definition exponent :: "string \<Rightarrow> int" where
  "exponent bs = foldl (\<lambda>e b. wrap64 (wrap64 (e * 256) + int (byte b))) 0 bs"

definition rsaPublicKey :: "string \<Rightarrow> string \<Rightarrow> go_error + rsa_PublicKey" where
  "rsaPublicKey nRaw eRaw = (case RawURL_DecodeString nRaw of
      Inl err \<Rightarrow> Inl err
    | Inr nBytes \<Rightarrow> (case RawURL_DecodeString eRaw of
        Inl err \<Rightarrow> Inl err
      | Inr eBytes \<Rightarrow> Inr \<lparr>rsa_N = big_SetBytes nBytes, rsa_E = exponent eBytes\<rparr>))"

definition add_key :: "(string \<Rightarrow> rsa_PublicKey option) \<Rightarrow> jwkKey \<Rightarrow> string \<Rightarrow> rsa_PublicKey option" where
  "add_key keys raw =
    (if key_KTY raw \<noteq> ''RSA'' \<or> key_N raw = [] \<or> key_E raw = [] \<or> key_KID raw = [] then keys
     else case rsaPublicKey (key_N raw) (key_E raw) of
         Inl err \<Rightarrow> keys
       | Inr key \<Rightarrow> keys(key_KID raw \<mapsto> key))"

definition setA :: "('m \<Rightarrow> 'm) \<Rightarrow> ('m \<times> 'e, unit) act" where
  "setA f = (\<lambda>(s, w). (Ok (), (f s, w)))"

definition getA :: "('m \<times> 'e, 'm) act" where
  "getA = (\<lambda>(s, w). (Ok s, (s, w)))"

definition jwks_request :: "string \<Rightarrow> HttpRequest" where
  "jwks_request url = \<lparr>Req_Method = ''GET'', Req_URL = url, Req_Header = [], Req_Body = []\<rparr>"

definition jwksCache_refresh ::
    "'e HttpClient \<Rightarrow> 'e Runtime \<Rightarrow> ClerkJson \<Rightarrow> (jwksCache \<times> 'e, unit) act" where
  "jwksCache_refresh H R D =
    bindA getA (\<lambda>c.
    bindA (onSnd (http_Do H (WithTimeout Background (5 * Second)) (jwks_request (jwks_url c)))) (\<lambda>resp.
      if Resp_StatusCode resp \<noteq> 200 then throw (NewError ''failed to fetch clerk jwks'')
      else case Resp_Body resp of
          Inl err \<Rightarrow> throw err
        | Inr body \<Rightarrow> (case json_Jwks D body of
            Inl err \<Rightarrow> throw err
          | Inr raws \<Rightarrow> bindA (onSnd (now R)) (\<lambda>t.
              setA (\<lambda>c. c\<lparr>jwks_keys := foldl add_key Map.empty raws, jwks_expiresAt := t + jwksCacheTTL\<rparr>)))))"

definition find_key :: "string \<Rightarrow> (jwksCache \<times> 'e, rsa_PublicKey) act" where
  "find_key kid = bindA getA (\<lambda>c. case jwks_keys c kid of
      Some key \<Rightarrow> ret key
    | None \<Rightarrow> throw (NewError ''clerk jwks key not found''))"

definition jwksCache_publicKey ::
    "'e HttpClient \<Rightarrow> 'e Runtime \<Rightarrow> ClerkJson \<Rightarrow> string \<Rightarrow> (jwksCache \<times> 'e, rsa_PublicKey) act" where
  "jwksCache_publicKey H R D kid =
    bindA (onSnd (now R)) (\<lambda>t. bindA getA (\<lambda>c.
      if Before t (jwks_expiresAt c) then find_key kid
      else seqA (jwksCache_refresh H R D) (find_key kid)))"

subsection \<open>Tokens\<close>

definition decodeJWTPart :: "(string \<Rightarrow> go_error + 'a) \<Rightarrow> string \<Rightarrow> go_error + 'a" where
  "decodeJWTPart unmarshal raw = (case RawURL_DecodeString raw of Inl err \<Rightarrow> Inl err | Inr b \<Rightarrow> unmarshal b)"

definition claims_hold :: "(rat \<Rightarrow> int) \<Rightarrow> string \<Rightarrow> instant \<Rightarrow> jwtClaims \<Rightarrow> bool" where
  "claims_hold oor issuer t claims \<longleftrightarrow>
     \<not> (clm_Subject claims = [])
     \<and> \<not> (issuer \<noteq> [] \<and> clm_Issuer claims \<noteq> issuer)
     \<and> \<not> (clm_Expiry claims = 0 \<or> After t (time_Unix (int64_of_float oor (clm_Expiry claims))))
     \<and> \<not> (0 < clm_NotBefore claims \<and> Before t (time_Unix (int64_of_float oor (clm_NotBefore claims))))"

definition validateClaims :: "(rat \<Rightarrow> int) \<Rightarrow> string \<Rightarrow> 'e Runtime \<Rightarrow> jwtClaims \<Rightarrow> ('e, unit) act" where
  "validateClaims oor issuer R claims =
    bindA (now R) (\<lambda>t. if claims_hold oor issuer t claims then ret () else throw ErrInvalidToken)"

definition verifyToken ::
    "(rat \<Rightarrow> int) \<Rightarrow> Verifier \<Rightarrow> 'e HttpClient \<Rightarrow> 'e Runtime \<Rightarrow> ClerkJson \<Rightarrow> string \<Rightarrow> string
      \<Rightarrow> (jwksCache \<times> 'e, jwtClaims) act" where
  "verifyToken oor V H R D issuer token = bindA getA (\<lambda>jwks. case Split token CHR ''.'' of
      [p0, p1, p2] \<Rightarrow>
        if jwks_url jwks = [] then throw ErrInvalidToken
        else (case decodeJWTPart (json_Header D) p0 of
          Inl err \<Rightarrow> throw ErrInvalidToken
        | Inr header \<Rightarrow>
          if hdr_Alg header \<noteq> ''RS256'' \<or> hdr_KID header = [] then throw ErrInvalidToken
          else (case decodeJWTPart (json_Claims D) p1 of
            Inl err \<Rightarrow> throw ErrInvalidToken
          | Inr claims \<Rightarrow>
            seqA (onSnd (validateClaims oor issuer R claims))
              (case RawURL_DecodeString p2 of
                 Inl err \<Rightarrow> throw ErrInvalidToken
               | Inr signature \<Rightarrow>
                   tryA (jwksCache_publicKey H R D (hdr_KID header))
                     (\<lambda>pub. case V pub (p0 @ ''.'' @ p1) signature of
                         Some err \<Rightarrow> throw ErrInvalidToken
                       | None \<Rightarrow> ret claims)
                     (\<lambda>err. throw ErrInvalidToken))))
    | _ \<Rightarrow> throw ErrInvalidToken)"

subsection \<open>The authenticator\<close>

definition Authenticate ::
    "(rat \<Rightarrow> int) \<Rightarrow> Verifier \<Rightarrow> 'e HttpClient \<Rightarrow> 'e Runtime \<Rightarrow> ClerkJson \<Rightarrow> 'e UserAuthMappingDao
      \<Rightarrow> string \<Rightarrow> ctx \<Rightarrow> string \<Rightarrow> (jwksCache \<times> 'e, AuthUser) act" where
  "Authenticate oor V H R D mappings issuer c token =
    bindA (verifyToken oor V H R D issuer token) (\<lambda>claims.
    bindA (onSnd (dao_GetByClerkUserID mappings c (clm_Subject claims))) (\<lambda>mapping. case mapping of
        None \<Rightarrow> throw ErrInvalidToken
      | Some mapping \<Rightarrow> ret \<lparr>AuthUser_InternalUserID = Mapping_InternalUserID mapping,
          AuthUser_ClerkUserID = Mapping_ClerkUserID mapping,
          AuthUser_Email = (if clm_Email claims = [] then Mapping_Email mapping else clm_Email claims),
          AuthUser_Role = Mapping_Role mapping\<rparr>))"

text \<open>\<open>NewAuthenticator().Authenticate(ctx, token)\<close>: with the environment's settings and a new cache.\<close>

definition NewAuthenticator_Authenticate ::
    "(rat \<Rightarrow> int) \<Rightarrow> Verifier \<Rightarrow> 'e HttpClient \<Rightarrow> 'e Runtime \<Rightarrow> ClerkJson \<Rightarrow> 'e UserAuthMappingDao
      \<Rightarrow> ctx \<Rightarrow> string \<Rightarrow> ('e, AuthUser) act" where
  "NewAuthenticator_Authenticate oor V H R D mappings c token = (\<lambda>w.
    case Authenticate oor V H R D mappings (TrimSpace (os_Getenv R ''CLERK_ISSUER'')) c token
           (newJWKSCache (TrimSpace (os_Getenv R ''CLERK_JWKS_URL'')), w)
    of (r, (jwks, w')) \<Rightarrow> (r, w'))"

subsection \<open>The decoded values\<close>

lemma wrap64_add: "wrap64 (wrap64 a + b) = wrap64 (a + b)"
  by (simp add: wrap64_def) (simp add: algebra_simps mod_simps)

lemma wrap64_mult: "wrap64 (wrap64 a * b) = wrap64 (a * b)"
proof -
  have "((a + 2 ^ 63) mod 2 ^ 64 - 2 ^ 63) * b mod 2 ^ 64 = a * b mod 2 ^ 64"
    by (metis (no_types) add_diff_cancel_right' mod_diff_left_eq mod_mult_left_eq)
  then have "(((a + 2 ^ 63) mod 2 ^ 64 - 2 ^ 63) * b + 2 ^ 63) mod 2 ^ 64 = (a * b + 2 ^ 63) mod 2 ^ 64"
    by (metis mod_add_left_eq)
  then show ?thesis by (simp add: wrap64_def)
qed

lemma wrap64_affine: "wrap64 (wrap64 a * b + c) = wrap64 (a * b + c)"
  by (metis wrap64_add wrap64_mult)

lemma exponent_wraps: "exponent bs = wrap64 (int (big_SetBytes bs))"
proof -
  have "foldl (\<lambda>e b. wrap64 (wrap64 (e * 256) + int (byte b))) (wrap64 (int n)) bs
      = wrap64 (int (foldl (\<lambda>n b. 256 * n + byte b) n bs))" for n
  proof (induction bs arbitrary: n)
    case (Cons b bs)
    have "wrap64 (wrap64 (wrap64 (int n) * 256) + int (byte b)) = wrap64 (int (256 * n + byte b))"
      by (simp add: wrap64_add wrap64_affine mult.commute)
    with Cons.IH [of "256 * n + byte b"] show ?case by simp
  qed simp
  from this [of 0] show ?thesis by (simp add: exponent_def big_SetBytes_def wrap64_def)
qed

lemma rsaPublicKey_encoded [simp]:
  "rsaPublicKey (RawURL_EncodeToString n) (RawURL_EncodeToString e)
    = Inr \<lparr>rsa_N = big_SetBytes n, rsa_E = wrap64 (int (big_SetBytes e))\<rparr>"
  by (simp add: rsaPublicKey_def exponent_wraps)

text \<open>
  A published RSA key is decoded exactly: modulus and exponent are the big-endian numbers
  of the bytes Clerk encoded, the exponent up to wrap-around at 64 bits.
\<close>

theorem rsa_key_is_decoded:
  "rsaPublicKey (RawURL_EncodeToString n) (RawURL_EncodeToString e)
    = Inr \<lparr>rsa_N = big_SetBytes n, rsa_E = wrap64 (int (big_SetBytes e))\<rparr>"
  by (rule rsaPublicKey_encoded)

subsection \<open>Runs of the key cache\<close>

text \<open>Where a key may come from: the cache while it is fresh, or an answer of Clerk.\<close>

definition published_key ::
    "'e HttpClient \<Rightarrow> ClerkJson \<Rightarrow> string \<Rightarrow> string \<Rightarrow> rsa_PublicKey \<Rightarrow> bool" where
  "published_key H D url kid key \<longleftrightarrow> (\<exists>v resp v' body raws.
     http_Do H (WithTimeout Background (5 * Second)) (jwks_request url) v = (Ok resp, v') \<and> Resp_StatusCode resp = 200
     \<and> Resp_Body resp = Inr body \<and> json_Jwks D body = Inr raws \<and> foldl add_key Map.empty raws kid = Some key)"

definition cached_key :: "jwksCache \<Rightarrow> instant \<Rightarrow> string \<Rightarrow> rsa_PublicKey \<Rightarrow> bool" where
  "cached_key jwks t kid key \<longleftrightarrow> Before t (jwks_expiresAt jwks) \<and> jwks_keys jwks kid = Some key"

lemma onSnd_Ok: "onSnd m (s, w) = (Ok a, sw') \<longleftrightarrow> (\<exists>w'. m w = (Ok a, w') \<and> sw' = (s, w'))"
  by (auto simp: onSnd_def split: prod.splits)

lemma getA_apply [act_simps]: "bindA getA f (s, w) = f s (s, w)"
  by (simp add: bindA_def getA_def)

lemma find_key_Ok: "find_key kid (s, w) = (Ok key, sw') \<longleftrightarrow> jwks_keys s kid = Some key \<and> sw' = (s, w)"
  by (auto simp: find_key_def act_simps split: option.splits)

lemma refresh_Ok:
  assumes "jwksCache_refresh H R D (jwks, w) = (Ok (), (jwks', w'))"
  shows "\<exists>resp v' body raws t. http_Do H (WithTimeout Background (5 * Second)) (jwks_request (jwks_url jwks)) w = (Ok resp, v')
    \<and> Resp_StatusCode resp = 200 \<and> Resp_Body resp = Inr body \<and> json_Jwks D body = Inr raws
    \<and> time_Now R v' = (t, w')
    \<and> jwks' = jwks\<lparr>jwks_keys := foldl add_key Map.empty raws, jwks_expiresAt := t + jwksCacheTTL\<rparr>"
  using assms
  by (auto simp: jwksCache_refresh_def act_simps onSnd_Ok now_def setA_def elim!: bindA_OkE
      split: if_splits sum.splits prod.splits)

lemma publicKey_Ok:
  assumes "jwksCache_publicKey H R D kid (jwks, w) = (Ok key, (jwks', w'))"
  shows "\<exists>t w1. time_Now R w = (t, w1) \<and> (cached_key jwks t kid key \<and> jwks' = jwks \<and> w' = w1
    \<or> published_key H D (jwks_url jwks) kid key)"
proof -
  obtain t w1 where t: "time_Now R w = (t, w1)" by fastforce
  show ?thesis
  proof (cases "Before t (jwks_expiresAt jwks)")
    case True
    with assms t show ?thesis
      by (auto simp: jwksCache_publicKey_def act_simps onSnd_Ok now_def find_key_Ok cached_key_def elim!: bindA_OkE)
  next
    case False
    with assms t obtain jwks1 w2 where r: "jwksCache_refresh H R D (jwks, w1) = (Ok (), (jwks1, w2))"
      and k: "jwks_keys jwks1 kid = Some key"
      by (auto simp: jwksCache_publicKey_def act_simps onSnd_Ok now_def find_key_Ok elim!: bindA_OkE)
    from refresh_Ok [OF r] k have "published_key H D (jwks_url jwks) kid key"
      unfolding published_key_def by auto blast
    with t show ?thesis by blast
  qed
qed

lemma publicKey_cached:
  "time_Now R w = (t, w1) \<Longrightarrow> cached_key jwks t kid key \<Longrightarrow> jwksCache_publicKey H R D kid (jwks, w) = (Ok key, (jwks, w1))"
  by (simp add: jwksCache_publicKey_def cached_key_def now_def onSnd_def bindA_def getA_def find_key_def ret_def)

subsection \<open>What a verified token is\<close>

definition genuine ::
    "(rat \<Rightarrow> int) \<Rightarrow> Verifier \<Rightarrow> 'e HttpClient \<Rightarrow> ClerkJson \<Rightarrow> string \<Rightarrow> jwksCache \<Rightarrow> string \<Rightarrow> jwtClaims \<Rightarrow> bool" where
  "genuine oor V H D issuer jwks token claims \<longleftrightarrow> (\<exists>p0 p1 p2 h cl sig header t t' pub.
     token = p0 @ ''.'' @ p1 @ ''.'' @ p2
     \<and> RawURL_DecodeString p0 = Inr h \<and> json_Header D h = Inr header \<and> hdr_Alg header = ''RS256''
     \<and> RawURL_DecodeString p1 = Inr cl \<and> json_Claims D cl = Inr claims \<and> claims_hold oor issuer t claims
     \<and> RawURL_DecodeString p2 = Inr sig
     \<and> (cached_key jwks t' (hdr_KID header) pub \<or> published_key H D (jwks_url jwks) (hdr_KID header) pub)
     \<and> V pub (p0 @ ''.'' @ p1) sig = None)"

lemma Split3: "Split s c = [a, b, d] \<Longrightarrow> s = a @ [c] @ b @ [c] @ d"
  using Join_Split [of s c] by simp

lemma verifyToken_Ok:
  assumes "verifyToken oor V H R D issuer token (jwks, w) = (Ok claims, sw')"
  shows "genuine oor V H D issuer jwks token claims"
proof -
  from assms obtain p0 p1 p2 where parts: "Split token CHR ''.'' = [p0, p1, p2]"
    by (auto simp: verifyToken_def act_simps split: list.splits)
  from assms parts obtain header claims' where h: "decodeJWTPart (json_Header D) p0 = Inr header"
    and alg: "hdr_Alg header = ''RS256''" and cl: "decodeJWTPart (json_Claims D) p1 = Inr claims'"
    and rest: "seqA (onSnd (validateClaims oor issuer R claims'))
              (case RawURL_DecodeString p2 of
                 Inl err \<Rightarrow> throw ErrInvalidToken
               | Inr signature \<Rightarrow>
                   tryA (jwksCache_publicKey H R D (hdr_KID header))
                     (\<lambda>pub. case V pub (p0 @ ''.'' @ p1) signature of
                         Some err \<Rightarrow> throw ErrInvalidToken
                       | None \<Rightarrow> ret claims')
                     (\<lambda>err. throw ErrInvalidToken)) (jwks, w) = (Ok claims, sw')"
    by (auto simp: verifyToken_def act_simps split: if_splits sum.splits)
  from rest obtain t w1 sig where t: "claims_hold oor issuer t claims'" and sig: "RawURL_DecodeString p2 = Inr sig"
    and k: "tryA (jwksCache_publicKey H R D (hdr_KID header))
                     (\<lambda>pub. case V pub (p0 @ ''.'' @ p1) sig of
                         Some err \<Rightarrow> throw ErrInvalidToken
                       | None \<Rightarrow> ret claims')
                     (\<lambda>err. throw ErrInvalidToken) (jwks, w1) = (Ok claims, sw')"
    by (auto simp: validateClaims_def onSnd_Ok now_def act_simps elim!: bindA_OkE split: if_splits sum.splits prod.splits)
  obtain jwks1 w2 where sw': "sw' = (jwks1, w2)" by fastforce
  from k obtain pub where pk: "jwksCache_publicKey H R D (hdr_KID header) (jwks, w1) = (Ok pub, (jwks1, w2))"
    and v: "V pub (p0 @ ''.'' @ p1) sig = None" and eq: "claims' = claims"
    unfolding sw' by (auto simp: tryA_def act_simps split: prod.splits res.splits option.splits)
  from publicKey_Ok [OF pk] obtain t' where
    "cached_key jwks t' (hdr_KID header) pub \<or> published_key H D (jwks_url jwks) (hdr_KID header) pub" by blast
  moreover obtain hh where "RawURL_DecodeString p0 = Inr hh" "json_Header D hh = Inr header"
    using h by (auto simp: decodeJWTPart_def split: sum.splits)
  moreover obtain cc where "RawURL_DecodeString p1 = Inr cc" "json_Claims D cc = Inr claims"
    using cl eq by (auto simp: decodeJWTPart_def split: sum.splits)
  ultimately show ?thesis
    unfolding genuine_def using Split3 [OF parts] alg t sig v eq by (simp only: append_Cons append_Nil) blast
qed

subsection \<open>Runs against the contract of the mapping table\<close>

lemma getA_runs [simp]: "runs (bindA getA f) sw P Q \<longleftrightarrow> runs (f (fst sw)) sw P Q"
  by (cases sw) (simp add: runs_def getA_apply)

lemma find_key_runs: "S (snd sw) = st \<Longrightarrow> runs (find_key kid) sw (\<lambda>_ sw'. S (snd sw') = st) (\<lambda>_ sw'. S (snd sw') = st)"
  by (auto simp: find_key_def split: option.splits)

lemma refresh_runs:
  assumes "http_ok S H" and "runtime_ok S R" and "S (snd sw) = st"
  shows "runs (jwksCache_refresh H R D) sw (\<lambda>_ sw'. S (snd sw') = st) (\<lambda>_ sw'. S (snd sw') = st)"
proof -
  have put: "runs (bindA (onSnd (now R)) (\<lambda>t. setA (f t))) sw1 (\<lambda>_ sw'. S (snd sw') = st) (\<lambda>_ sw'. S (snd sw') = st)"
    if "S (snd sw1) = st" for f sw1
    by (rule runs_bindA [OF runs_onSnd' [OF runs_now [OF assms(2), where Q = "\<lambda>_ _. False"]]])
      (use that in \<open>auto simp: setA_def runs_def split: prod.splits\<close>)
  show ?thesis
    unfolding jwksCache_refresh_def getA_runs
    by (rule runs_bindA [OF runs_onSnd' [OF http_runs [OF assms(1)]]])
      (use assms(3) put in \<open>auto split: sum.splits\<close>)
qed

lemma publicKey_runs:
  fixes sw :: "jwksCache \<times> 'a"
  assumes "http_ok S H" and "runtime_ok S R" and "S (snd sw) = st"
  shows "runs (jwksCache_publicKey H R D kid) sw (\<lambda>_ sw'. S (snd sw') = st) (\<lambda>_ sw'. S (snd sw') = st)"
  unfolding jwksCache_publicKey_def
proof (rule runs_bindA [OF runs_onSnd' [OF runs_now [OF assms(2), where Q = "\<lambda>_ _. False"]]])
  fix t and sw1 :: "jwksCache \<times> 'a"
  assume "S (snd sw1) = S (snd sw)"
  then have "S (snd sw1) = st" using assms(3) by simp
  then show "runs (bindA getA (\<lambda>c. if Before t (jwks_expiresAt c) then find_key kid
      else seqA (jwksCache_refresh H R D) (find_key kid))) sw1 (\<lambda>_ sw'. S (snd sw') = st) (\<lambda>_ sw'. S (snd sw') = st)"
    by (auto intro: find_key_runs runs_bindA [OF refresh_runs [OF assms(1,2)]])
qed simp

lemma verifyToken_runs:
  assumes "http_ok S H" and "runtime_ok S R"
  shows "runs (verifyToken oor V H R D issuer token) (jwks, w)
    (\<lambda>claims sw'. genuine oor V H D issuer jwks token claims \<and> S (snd sw') = S w)
    (\<lambda>e sw'. e = ErrInvalidToken \<and> S (snd sw') = S w)"
proof -
  have check: "runs (onSnd (validateClaims oor issuer R cl)) (jwks, w) (\<lambda>_ sw'. S (snd sw') = S w)
      (\<lambda>e sw'. e = ErrInvalidToken \<and> S (snd sw') = S w)" for cl
    unfolding validateClaims_def
    by (rule runs_onSnd' [THEN runs_mono], rule runs_bindA [OF runs_now [OF assms(2), where Q = "\<lambda>_ _. False"]]) auto
  have key: "runs (tryA (jwksCache_publicKey H R D kid)
      (\<lambda>pub. case V pub inp sig of Some err \<Rightarrow> throw ErrInvalidToken | None \<Rightarrow> ret cl) (\<lambda>err. throw ErrInvalidToken)) sw1
      (\<lambda>_ sw'. S (snd sw') = S w) (\<lambda>e sw'. e = ErrInvalidToken \<and> S (snd sw') = S w)"
    if "S (snd sw1) = S w" for kid inp sig cl sw1
    by (rule runs_tryA [OF publicKey_runs [OF assms that]]) (auto split: option.splits)
  have "runs (verifyToken oor V H R D issuer token) (jwks, w) (\<lambda>_ sw'. S (snd sw') = S w)
    (\<lambda>e sw'. e = ErrInvalidToken \<and> S (snd sw') = S w)"
    unfolding verifyToken_def getA_runs
    by (auto split: list.splits sum.splits intro!: runs_bindA [OF check] key)
  then show ?thesis using verifyToken_Ok [of oor V H R D issuer token jwks w]
    by (auto simp: runs_def split: prod.splits res.splits)
qed

definition identity_of :: "jwtClaims \<Rightarrow> UserAuthMapping \<Rightarrow> AuthUser" where
  "identity_of claims m = \<lparr>AuthUser_InternalUserID = Mapping_InternalUserID m, AuthUser_ClerkUserID = Mapping_ClerkUserID m,
     AuthUser_Email = (if clm_Email claims = [] then Mapping_Email m else clm_Email claims), AuthUser_Role = Mapping_Role m\<rparr>"

context mapping_table begin

lemma Authenticate_runs:
  assumes "http_ok S H" and "runtime_ok S R" and "ok w"
  shows "runs (Authenticate oor V H R D dao issuer c token) (jwks, w)
    (\<lambda>u sw'. (\<exists>claims m. genuine oor V H D issuer jwks token claims
        \<and> mapping_of coll (clerk_user_id_eq (clm_Subject claims)) (S w) = Some m \<and> u = identity_of claims m)
      \<and> only_cache mapping_key (S w) (S (snd sw')) \<and> ok (snd sw'))
    (\<lambda>e sw'. outside e \<and> only_cache mapping_key (S w) (S (snd sw')) \<and> ok (snd sw'))"
    (is "runs _ _ ?P ?Q")
  unfolding Authenticate_def
proof (rule runs_bindA [OF verifyToken_runs [OF assms(1,2)]])
  fix claims and sw1 :: "jwksCache \<times> 'w"
  assume v: "genuine oor V H D issuer jwks token claims \<and> S (snd sw1) = S w"
  then have ok1: "ok (snd sw1)" by (intro ok_frame [OF assms(3)]) auto
  show "runs (bindA (onSnd (dao_GetByClerkUserID dao c (clm_Subject claims))) (\<lambda>mapping. case mapping of
        None \<Rightarrow> throw ErrInvalidToken
      | Some mapping \<Rightarrow> ret \<lparr>AuthUser_InternalUserID = Mapping_InternalUserID mapping,
          AuthUser_ClerkUserID = Mapping_ClerkUserID mapping,
          AuthUser_Email = (if clm_Email claims = [] then Mapping_Email mapping else clm_Email claims),
          AuthUser_Role = Mapping_Role mapping\<rparr>)) sw1 ?P ?Q"
    by (rule runs_bindA [OF runs_onSnd' [OF clerk_runs [OF ok1]]])
      (use v in \<open>auto simp: identity_of_def split: option.splits\<close>)
next
  fix e and sw1 :: "jwksCache \<times> 'w"
  assume "e = ErrInvalidToken \<and> S (snd sw1) = S w"
  then show "outside e \<and> only_cache mapping_key (S w) (S (snd sw1)) \<and> ok (snd sw1)"
    using ok_frame [OF assms(3), of "snd sw1"] by auto
qed

lemma NewAuthenticator_runs:
  assumes "http_ok S H" and "runtime_ok S R" and "ok w"
  shows "runs (NewAuthenticator_Authenticate oor V H R D dao c token) w
    (\<lambda>u w'. (\<exists>claims m. genuine oor V H D (TrimSpace (os_Getenv R ''CLERK_ISSUER''))
          (newJWKSCache (TrimSpace (os_Getenv R ''CLERK_JWKS_URL''))) token claims
        \<and> mapping_of coll (clerk_user_id_eq (clm_Subject claims)) (S w) = Some m \<and> u = identity_of claims m)
      \<and> only_cache mapping_key (S w) (S w') \<and> ok w')
    (\<lambda>e w'. outside e \<and> only_cache mapping_key (S w) (S w') \<and> ok w')"
  using Authenticate_runs [OF assms, of oor V D "TrimSpace (os_Getenv R ''CLERK_ISSUER'')" c token
      "newJWKSCache (TrimSpace (os_Getenv R ''CLERK_JWKS_URL''))"]
  by (auto simp: runs_def NewAuthenticator_Authenticate_def split: prod.splits res.splits)

end

subsection \<open>Properties\<close>

text \<open>The JSON time that is the whole number \<open>n\<close> of seconds since 1970.\<close>

lemma time_Unix_of_int:
  assumes "int64 n" and "int64 (n + unix_epoch)"
  shows "time_Unix (int64_of_float oor (of_int n)) = (n + unix_epoch) * Second"
  using assms by (simp add: time_Unix_def int64_of_float_def truncate_rat_def Let_def)

lemma claims_hold_int:
  assumes "clm_Expiry claims = of_int e" and "clm_NotBefore claims = of_int n"
    and "int64 e" "int64 (e + unix_epoch)" "int64 n" "int64 (n + unix_epoch)"
  shows "claims_hold oor issuer t claims \<longleftrightarrow> clm_Subject claims \<noteq> [] \<and> (issuer = [] \<or> clm_Issuer claims = issuer)
    \<and> e \<noteq> 0 \<and> t \<le> (e + unix_epoch) * Second \<and> (0 < n \<longrightarrow> (n + unix_epoch) * Second \<le> t)"
  using assms by (auto simp: claims_hold_def time_Unix_of_int After_def Before_def)

text \<open>
  The time window of a token is exact: with whole numbers of seconds as expiry and as
  start of validity the claims are accepted at an instant exactly if there is a subject, the
  issuer is the configured one if one is configured, the expiry is present and not passed,
  and the start, when positive, has been reached.
\<close>

theorem claims_window:
  assumes "clm_Expiry claims = of_int e" and "clm_NotBefore claims = of_int n"
    and "int64 e" "int64 (e + unix_epoch)" "int64 n" "int64 (n + unix_epoch)"
  shows "claims_hold oor issuer t claims \<longleftrightarrow> clm_Subject claims \<noteq> [] \<and> (issuer = [] \<or> clm_Issuer claims = issuer)
    \<and> e \<noteq> 0 \<and> t \<le> (e + unix_epoch) * Second \<and> (0 < n \<longrightarrow> (n + unix_epoch) * Second \<le> t)"
  by (rule claims_hold_int [OF assms])

lemma published_from_new:
  "genuine oor V H D issuer (newJWKSCache url) token claims \<Longrightarrow> \<exists>p0 p1 p2 h cl sig header t pub.
     token = p0 @ ''.'' @ p1 @ ''.'' @ p2
     \<and> RawURL_DecodeString p0 = Inr h \<and> json_Header D h = Inr header \<and> hdr_Alg header = ''RS256''
     \<and> RawURL_DecodeString p1 = Inr cl \<and> json_Claims D cl = Inr claims \<and> claims_hold oor issuer t claims
     \<and> RawURL_DecodeString p2 = Inr sig \<and> published_key H D url (hdr_KID header) pub
     \<and> V pub (p0 @ ''.'' @ p1) sig = None"
  unfolding genuine_def cached_key_def newJWKSCache_def by simp


text \<open>
  C11. A genuine token is accepted: if the parts of the token encode a header and claims that
  Clerk's decoders read, the claims hold at the first reading of the clock, the key server
  answers with the key and the signature verifies, then the caller is authenticated as the
  user mapped to the subject, with the token's e-mail if it has one.
\<close>

theorem genuine_token_accepted:
  assumes "json_Header D h = Inr \<lparr>hdr_Alg = ''RS256'', hdr_KID = kid\<rparr>" and "kid \<noteq> []" and "json_Claims D cl = Inr claims"
    and "token = RawURL_EncodeToString h @ ''.'' @ RawURL_EncodeToString cl @ ''.'' @ RawURL_EncodeToString sig"
    and "TrimSpace (os_Getenv R ''CLERK_JWKS_URL'') = url" and "url \<noteq> []"
    and "time_Now R w = (t, wa)" and "claims_hold oor (TrimSpace (os_Getenv R ''CLERK_ISSUER'')) t claims"
    and "time_Now R wa = (t', wb)" and "0 \<le> t'"
    and "http_Do H (WithTimeout Background (5 * Second)) (jwks_request url) wb
      = (Ok \<lparr>Resp_StatusCode = 200, Resp_Body = Inr body\<rparr>, wc)"
    and "json_Jwks D body = Inr raws" and "foldl add_key Map.empty raws kid = Some pub"
    and "time_Now R wc = (t'', wd)"
    and "V pub (RawURL_EncodeToString h @ ''.'' @ RawURL_EncodeToString cl) sig = None"
    and "dao_GetByClerkUserID dao c (clm_Subject claims) wd = (Ok (Some m), we)"
  shows "NewAuthenticator_Authenticate oor V H R D dao c token w = (Ok (identity_of claims m), we)"
proof -
  let ?issuer = "TrimSpace (os_Getenv R ''CLERK_ISSUER'')" and ?new = "newJWKSCache url"
  have parts: "Split token CHR ''.'' = [RawURL_EncodeToString h, RawURL_EncodeToString cl, RawURL_EncodeToString sig]"
    using assms(4) Encode_no_dot by (simp add: Split_append Split_no_sep)
  have check: "onSnd (validateClaims oor ?issuer R claims) (?new, w) = (Ok (), (?new, wa))"
    using assms(7,8) by (simp add: validateClaims_def onSnd_def now_def bindA_def ret_def)
  have key: "\<exists>jwks'. jwksCache_publicKey H R D kid (?new, wa) = (Ok pub, (jwks', wd))"
    using assms(9-14) by (simp add: jwksCache_publicKey_def jwksCache_refresh_def newJWKSCache_def now_def onSnd_def
        bindA_def getA_def setA_def find_key_def ret_def Before_def)
  from key obtain jwks' where "verifyToken oor V H R D ?issuer token (?new, w) = (Ok claims, (jwks', wd))"
    using parts check assms(1-3,6,15)
    by (auto simp: verifyToken_def act_simps decodeJWTPart_def newJWKSCache_def tryA_def ret_def)
  then show ?thesis
    using assms(5,16)
    by (simp add: NewAuthenticator_Authenticate_def Authenticate_def bindA_def onSnd_def ret_def identity_of_def)
qed

subsection \<open>Witnesses\<close>

text \<open>
  A key server with one key, a token of alice whose header and claims the decoders accept and
  a verifier that accepts one signature.
\<close>

definition ref_claims :: jwtClaims where
  "ref_claims = \<lparr>clm_Subject = ''user_1'', clm_Issuer = ''https://clerk.example'', clm_Email = [],
     clm_Expiry = of_int 2000000000, clm_NotBefore = of_int 800000000\<rparr>"

definition ref_clerk_json :: ClerkJson where
  "ref_clerk_json = \<lparr>json_Header = (\<lambda>s. Inr \<lparr>hdr_Alg = ''RS256'', hdr_KID = ''k1''\<rparr>), json_Claims = (\<lambda>s. Inr ref_claims),
     json_Jwks = (\<lambda>s. Inr [\<lparr>key_KID = ''k1'', key_KTY = ''RSA'', key_Alg = ''RS256'', key_Use = ''sig'',
       key_N = RawURL_EncodeToString ''n'', key_E = RawURL_EncodeToString ''e''\<rparr>])\<rparr>"

definition ref_key :: rsa_PublicKey where
  "ref_key = \<lparr>rsa_N = big_SetBytes ''n'', rsa_E = wrap64 (int (big_SetBytes ''e''))\<rparr>"

definition ref_verifier :: Verifier where
  "ref_verifier = (\<lambda>pub inp sig. if pub = ref_key \<and> sig = ''signature'' then None else Some (External ''verification error''))"

definition clerk_runtime :: "refw Runtime" where
  "clerk_runtime = ref_runtime\<lparr>os_Getenv := (\<lambda>k. if k = ''CLERK_JWKS_URL'' then ''https://clerk.example/jwks''
     else if k = ''CLERK_ISSUER'' then ''https://clerk.example'' else [])\<rparr>"

definition jwks_http :: "refw HttpClient" where
  "jwks_http = \<lparr>http_Do = (\<lambda>c q w. (Ok \<lparr>Resp_StatusCode = 200, Resp_Body = Inr ''{keys}''\<rparr>, w))\<rparr>"

definition alice_token :: string where
  "alice_token = RawURL_EncodeToString ''h'' @ ''.'' @ RawURL_EncodeToString ''c'' @ ''.'' @ RawURL_EncodeToString ''signature''"

definition ref_mappings :: "refw UserAuthMappingDao" where
  "ref_mappings = UserAuthMappingDaoImpl (Some ref_gorm) None (table_codec [])"

lemma ref_claims_hold:
  "claims_hold oor ''https://clerk.example'' (63000000000 * Second) ref_claims"
  by (subst claims_hold_int [where e = 2000000000 and n = 800000000])
    (simp_all add: ref_claims_def int64_def unix_epoch_def Second_def)

theorem claims_window_witness:
  "claims_hold (\<lambda>_. 0) ''https://clerk.example'' (63000000000 * Second) ref_claims
   \<and> \<not> claims_hold (\<lambda>_. 0) ''https://clerk.example'' (64200000000 * Second) ref_claims"
proof -
  have "clm_Expiry ref_claims = of_int 2000000000" "clm_NotBefore ref_claims = of_int 800000000"
    "int64 2000000000" "int64 (2000000000 + unix_epoch)" "int64 800000000" "int64 (800000000 + unix_epoch)"
    by (simp_all add: ref_claims_def int64_def unix_epoch_def)
  note law = claims_window [OF this, of "\<lambda>_. 0" "''https://clerk.example''"]
  show ?thesis unfolding law by (simp add: ref_claims_def unix_epoch_def Second_def)
qed

lemma clerk_url: "TrimSpace (os_Getenv clerk_runtime ''CLERK_JWKS_URL'') = ''https://clerk.example/jwks''"
    "TrimSpace (os_Getenv clerk_runtime ''CLERK_ISSUER'') = ''https://clerk.example''"
  by code_simp+

lemma ref_keys: "foldl add_key Map.empty [\<lparr>key_KID = ''k1'', key_KTY = ''RSA'', key_Alg = ''RS256'', key_Use = ''sig'',
       key_N = RawURL_EncodeToString ''n'', key_E = RawURL_EncodeToString ''e''\<rparr>] ''k1'' = Some ref_key"
proof -
  have "RawURL_EncodeToString ''n'' \<noteq> []" "RawURL_EncodeToString ''e'' \<noteq> []" by code_simp+
  then show ?thesis by (simp add: add_key_def ref_key_def)
qed

theorem genuine_token_accepted_witness:
  "fst (NewAuthenticator_Authenticate (\<lambda>_. 0) ref_verifier jwks_http clerk_runtime ref_clerk_json ref_mappings Background
     alice_token alice_world) = Ok (identity_of ref_claims alice_mapping)"
proof -
  let ?tick = "\<lambda>w. w\<lparr>rw_clock := rw_clock w + Second\<rparr>"
  let ?w4 = "?tick (?tick (?tick alice_world))"
  have clock: "time_Now clerk_runtime w = (rw_clock w, ?tick w)" for w
    by (simp add: clerk_runtime_def ref_runtime_def)
  have start: "rw_clock alice_world = 63000000000 * Second" by (simp add: alice_world_def ref_world_def ref_start_def)
  have row: "dao_GetByClerkUserID ref_mappings Background (clm_Subject ref_claims) ?w4 = (Ok (Some alice_mapping), ?w4)"
    by (simp add: ref_mappings_def UserAuthMappingDaoImpl_def UserAuthMappingDaoImpl_GetByClerkUserID_def
        getMappingFromCache_def setMappingCache_def ref_gorm_def ref_find_def alice_world_def ref_world_def ref_start_def
        alice_mapping_def ref_claims_def act_simps tryA_def)
  show ?thesis
    by (subst genuine_token_accepted [where h = "''h''" and kid = "''k1''" and cl = "''c''" and claims = ref_claims
          and sig = "''signature''" and url = "''https://clerk.example/jwks''" and t = "63000000000 * Second"
          and wa = "?tick alice_world" and t' = "63000000001 * Second" and wb = "?tick (?tick alice_world)"
          and wc = "?tick (?tick alice_world)" and t'' = "63000000002 * Second" and wd = ?w4 and we = ?w4
          and body = "''{keys}''" and pub = ref_key and m = alice_mapping
          and raws = "[\<lparr>key_KID = ''k1'', key_KTY = ''RSA'', key_Alg = ''RS256'', key_Use = ''sig'',
             key_N = RawURL_EncodeToString ''n'', key_E = RawURL_EncodeToString ''e''\<rparr>]"])
      (use row ref_keys ref_claims_hold [of "\<lambda>_. 0"] in \<open>simp_all add: clerk_url clock start ref_clerk_json_def
        jwks_http_def ref_verifier_def alice_token_def Second_def\<close>)
qed


end
