(* ===== verification/ClerkData.thy ===== *)
theory ClerkData
  imports GoStrings
begin

section \<open>The payload of the Clerk webhook\<close>

text \<open>
  server/http/data/clerk_callback_data.go: the \<open>user.created\<close> event and the choice of the
  e-mail address a new user is registered with. A \<open>*ClerkCallbackData\<close> is an option, \<open>None\<close>
  for nil.
\<close>

record ClerkEmailAddress =
  ClerkEmail_ID :: string
  ClerkEmail_EmailAddress :: string

record ClerkCallbackData =
  Clerk_ID :: string
  Clerk_PrimaryEmailAddressID :: string
  Clerk_EmailAddresses :: "ClerkEmailAddress list"

record ClerkCallbackRequest =
  Request_Type :: string
  Request_Data :: "ClerkCallbackData option"

definition ClerkUserID :: "ClerkCallbackData option \<Rightarrow> string" where
  "ClerkUserID d = (case d of None \<Rightarrow> [] | Some d \<Rightarrow> Clerk_ID d)"

definition normalizeEmail :: "string \<Rightarrow> string" where
  "normalizeEmail email0 =
    (let email = TrimSpace email0 in if \<not> Contains email CHR ''@'' then [] else email)"

text \<open>The second loop of \<open>EmailAddress\<close>: the first address that normalises to something.\<close>

fun first_email :: "ClerkEmailAddress list \<Rightarrow> string" where
  "first_email [] = []"
| "first_email (addr # rest) =
     (let email = normalizeEmail (ClerkEmail_EmailAddress addr) in
      if email \<noteq> [] then email else first_email rest)"

definition EmailAddress :: "ClerkCallbackData option \<Rightarrow> string" where
  "EmailAddress d = (case d of None \<Rightarrow> [] | Some d \<Rightarrow>
    if Clerk_EmailAddresses d = [] then []
    else case (if Clerk_PrimaryEmailAddressID d \<noteq> []
               then find (\<lambda>addr. ClerkEmail_ID addr = Clerk_PrimaryEmailAddressID d)
                      (Clerk_EmailAddresses d)
               else None) of
      Some addr \<Rightarrow> normalizeEmail (ClerkEmail_EmailAddress addr)
    | None \<Rightarrow> first_email (Clerk_EmailAddresses d))"

text \<open>What \<open>normalizeEmail\<close> lets through: trimmed text with an \<open>@\<close> in it.\<close>

definition address_like :: "string \<Rightarrow> bool" where
  "address_like e \<longleftrightarrow> TrimSpace e = e \<and> CHR ''@'' \<in> set e"

lemma normalizeEmail_address_like: "normalizeEmail e \<noteq> [] \<Longrightarrow> address_like (normalizeEmail e)"
  by (auto simp: normalizeEmail_def address_like_def Contains_def Let_def split: if_splits)

lemma first_email_from:
  "first_email as \<noteq> [] \<Longrightarrow> \<exists>a \<in> set as. first_email as = normalizeEmail (ClerkEmail_EmailAddress a)"
  by (induction as) (auto simp: Let_def)

lemma first_email_Nil_iff:
  "first_email as = [] \<longleftrightarrow> (\<forall>a \<in> set as. normalizeEmail (ClerkEmail_EmailAddress a) = [])"
  by (induction as) (auto simp: Let_def)

text \<open>Whatever the entries, the chosen address is one of the payload's, normalised.\<close>

lemma EmailAddress_from:
  assumes "EmailAddress (Some d) \<noteq> []"
  obtains a where "a \<in> set (Clerk_EmailAddresses d)"
    and "EmailAddress (Some d) = normalizeEmail (ClerkEmail_EmailAddress a)"
  using assms first_email_from [of "Clerk_EmailAddresses d"]
  by (auto simp: EmailAddress_def split: if_splits option.splits dest!: find_SomeD)

lemma EmailAddress_primary:
  assumes "Clerk_PrimaryEmailAddressID d \<noteq> []"
    and "find (\<lambda>a. ClerkEmail_ID a = Clerk_PrimaryEmailAddressID d) (Clerk_EmailAddresses d) = Some a"
  shows "EmailAddress (Some d) = normalizeEmail (ClerkEmail_EmailAddress a)"
  using assms by (auto simp: EmailAddress_def)

text \<open>
  The address a Clerk user is registered with is empty or trimmed text containing
  an at sign that is one of the addresses of the payload; the \<open>id\<close> fields of the entries
  are never returned as an address.
\<close>

theorem EmailAddress_sound:
  "EmailAddress d = [] \<or>
   address_like (EmailAddress d) \<and>
   (\<exists>p a. d = Some p \<and> a \<in> set (Clerk_EmailAddresses p)
      \<and> EmailAddress d = TrimSpace (ClerkEmail_EmailAddress a))"
proof (cases "EmailAddress d = []")
  case False
  then obtain p where d: "d = Some p" by (cases d) (auto simp: EmailAddress_def)
  with False obtain a where a: "a \<in> set (Clerk_EmailAddresses p)"
      "EmailAddress d = normalizeEmail (ClerkEmail_EmailAddress a)"
    by (auto elim: EmailAddress_from)
  moreover have "address_like (EmailAddress d)"
    using a(2) False normalizeEmail_address_like by metis
  moreover have "EmailAddress d = TrimSpace (ClerkEmail_EmailAddress a)"
    using a(2) False by (simp add: normalizeEmail_def Let_def split: if_splits)
  ultimately show ?thesis using d by blast
qed simp

end
