(* ===== verification/UserDaos.thy ===== *)
theory UserDaos
  imports Clients
begin

section \<open>The table users\<close>

text \<open>
  server/repository/dao/user_dao.go and errors.go. The interface \<open>UserDao\<close> is a record of its
  methods, \<open>UserDaoImpl\<close> the implementation over the gorm handle, \<open>None\<close> for a nil handle.
  A \<open>*model.User\<close> result is an option, \<open>None\<close> for nil. \<open>CreateInTransaction\<close> fills in the
  id of the user it is given, so its model returns that user. The contract the services
  rely on is the locale \<open>user_table\<close>.
\<close>

definition IsNotFound :: "go_error \<Rightarrow> bool" where
  "IsNotFound e \<longleftrightarrow> errors_Is e ErrRecordNotFound"

record 'w UserDao =
  dao_GetByID :: "ctx \<Rightarrow> int \<Rightarrow> ('w, User option) act"
  dao_CreateUser :: "User \<Rightarrow> ('w, User) act"
  dao_UpdateKYCStatus :: "ctx \<Rightarrow> int \<Rightarrow> string \<Rightarrow> ('w, unit) act"
  dao_UpdateProfile :: "ctx \<Rightarrow> int \<Rightarrow> User option \<Rightarrow> ('w, unit) act"

definition UserDaoImpl_GetByID :: "'w GormDB option \<Rightarrow> ctx \<Rightarrow> int \<Rightarrow> ('w, User option) act" where
  "UserDaoImpl_GetByID db c i = (case db of
      None \<Rightarrow> throw ErrDatabaseDisabled
    | Some G \<Rightarrow> tryA (gorm_FirstUser G c i)
        (\<lambda>user. ret (Some user))
        (\<lambda>e. if errors_Is e ErrRecordNotFound then ret None else throw e))"

definition UserDaoImpl_CreateInTransaction :: "'w GormDB option \<Rightarrow> User \<Rightarrow> ('w, User) act" where
  "UserDaoImpl_CreateInTransaction db user = (case db of
      None \<Rightarrow> throw ErrDatabaseDisabled
    | Some G \<Rightarrow> gorm_CreateUser G user)"

definition UserDaoImpl_UpdateKYCStatus ::
    "'w GormDB option \<Rightarrow> ctx \<Rightarrow> int \<Rightarrow> string \<Rightarrow> ('w, unit) act" where
  "UserDaoImpl_UpdateKYCStatus db c i status = (case db of
      None \<Rightarrow> throw ErrDatabaseDisabled
    | Some G \<Rightarrow> seqA (gorm_UpdateKYCStatus G c i status) (ret ()))"

definition UserDaoImpl_UpdateProfile ::
    "'w GormDB option \<Rightarrow> ctx \<Rightarrow> int \<Rightarrow> User option \<Rightarrow> ('w, unit) act" where
  "UserDaoImpl_UpdateProfile db c i user = (case db of
      None \<Rightarrow> throw ErrDatabaseDisabled
    | Some G \<Rightarrow> (case user of
        None \<Rightarrow> ret ()
      | Some user \<Rightarrow> seqA (gorm_UpdatesUser G c i user) (ret ())))"

definition UserDaoImpl :: "'w GormDB option \<Rightarrow> 'w UserDao" where
  "UserDaoImpl db = \<lparr>
     dao_GetByID = UserDaoImpl_GetByID db,
     dao_CreateUser = UserDaoImpl_CreateInTransaction db,
     dao_UpdateKYCStatus = UserDaoImpl_UpdateKYCStatus db,
     dao_UpdateProfile = UserDaoImpl_UpdateProfile db\<rparr>"

subsection \<open>The contract\<close>

text \<open>
  \<open>ok\<close> is what the implementation needs of the database; \<open>S w\<close> what the servers store.
  Reads change nothing and tell the truth or fail; a write that fails has been applied or
  not, and a created user gets a fresh positive id.
\<close>

locale user_table =
  fixes dao :: "'w UserDao"
    and S :: "'w \<Rightarrow> Stores"
    and ok :: bool
  assumes get_runs: "ok \<Longrightarrow> runs (dao_GetByID dao c i) w
      (\<lambda>r w'. S w' = S w \<and> r = st_users (S w) i) (\<lambda>e w'. outside e \<and> S w' = S w)"
    and create_runs: "ok \<Longrightarrow> User_ID u = 0 \<Longrightarrow> runs (dao_CreateUser dao u) w
      (\<lambda>u' w'. (\<exists>i r. 0 < i \<and> int64 i \<and> st_users (S w) i = None \<and> u' = u\<lparr>User_ID := i\<rparr>
        \<and> r\<lparr>User_CreatedAt := User_CreatedAt u'\<rparr> = u'
        \<and> S w' = (S w)\<lparr>st_users := (st_users (S w))(i \<mapsto> r)\<rparr>))
      (\<lambda>e w'. outside e \<and> S w' = S w)"
    and kyc_runs: "ok \<Longrightarrow> runs (dao_UpdateKYCStatus dao c i s) w
      (\<lambda>r w'. S w' = set_kyc_status i s (S w))
      (\<lambda>e w'. outside e \<and> (S w' = S w \<or> S w' = set_kyc_status i s (S w)))"
    and profile_runs: "ok \<Longrightarrow> User_ID u = 0 \<Longrightarrow> runs (dao_UpdateProfile dao c i (Some u)) w
      (\<lambda>r w'. S w' = update_user i u (S w))
      (\<lambda>e w'. outside e \<and> (S w' = S w \<or> S w' = update_user i u (S w)))"

text \<open>The two updates touch one row of one table.\<close>

lemma set_kyc_status_simps [simp]:
  "st_mappings (set_kyc_status i s st) = st_mappings st"
  "st_cache (set_kyc_status i s st) = st_cache st"
  "st_events (set_kyc_status i s st) = st_events st"
  "st_users (set_kyc_status i s st) =
     (\<lambda>j. if j = i then map_option (\<lambda>u. u\<lparr>User_KYCStatus := s\<rparr>) (st_users st i) else st_users st j)"
  by (auto simp: set_kyc_status_def fun_eq_iff split: option.splits)

lemma update_user_simps [simp]:
  "st_mappings (update_user i u st) = st_mappings st"
  "st_cache (update_user i u st) = st_cache st"
  "st_events (update_user i u st) = st_events st"
  "st_users (update_user i u st) =
     (\<lambda>j. if j = i then map_option (merge_User u) (st_users st i) else st_users st j)"
  by (auto simp: update_user_def fun_eq_iff split: option.splits)

text \<open>With the row at hand, the updates as updates of the table.\<close>

lemma updated_row:
  assumes "st_users st i = Some u"
  shows "st_users (update_user i p st) = (st_users st)(i \<mapsto> merge_User p u)"
    and "st_users (set_kyc_status i s st) = (st_users st)(i \<mapsto> u\<lparr>User_KYCStatus := s\<rparr>)"
  using assms by (auto simp: fun_eq_iff)

lemma merge_User_simps [simp]:
  "User_ID (merge_User u r) = User_ID r"
  "User_Name (merge_User u r) = nonzero (User_Name u) (User_Name r)"
  "User_Market (merge_User u r) = nonzero (User_Market u) (User_Market r)"
  "User_Language (merge_User u r) = nonzero (User_Language u) (User_Language r)"
  "User_KYCStatus (merge_User u r) = nonzero (User_KYCStatus u) (User_KYCStatus r)"
  "User_CreatedAt (merge_User u r) = (if User_CreatedAt u \<noteq> 0 then User_CreatedAt u else User_CreatedAt r)"
  by (simp_all add: merge_User_def)

lemma nonzero_simps [simp]: "nonzero [] old = old" "new \<noteq> [] \<Longrightarrow> nonzero new old = new"
  by (simp_all add: nonzero_def)

subsection \<open>The implementation meets the contract\<close>

interpretation users_impl: user_table "UserDaoImpl db" S "db_ok S coll db" for db S coll
proof unfold_locales
  fix c i s w and u :: User
  assume ok: "db_ok S coll db"
  then have G: "gorm_ok S coll G" if "db = Some G" for G
    using that by (simp add: db_ok_def)
  note first = runs_tryA [OF first_user_runs [OF G]] and kyc = runs_bindA [OF update_kyc_runs [OF G]]
  show "runs (dao_GetByID (UserDaoImpl db) c i) w
      (\<lambda>r w'. S w' = S w \<and> r = st_users (S w) i) (\<lambda>e w'. outside e \<and> S w' = S w)"
    using ok by (cases db) (auto simp: UserDaoImpl_def UserDaoImpl_GetByID_def intro!: first)
  show "runs (dao_UpdateKYCStatus (UserDaoImpl db) c i s) w
      (\<lambda>r w'. S w' = set_kyc_status i s (S w))
      (\<lambda>e w'. outside e \<and> (S w' = S w \<or> S w' = set_kyc_status i s (S w)))"
    using ok by (cases db) (auto simp: UserDaoImpl_def UserDaoImpl_UpdateKYCStatus_def intro!: kyc)
  assume u: "User_ID u = 0"
  note create = runs_mono [OF create_user_runs [OF G u]]
    and profile = runs_bindA [OF updates_user_runs [OF G u]]
  show "runs (dao_CreateUser (UserDaoImpl db) u) w
      (\<lambda>u' w'. (\<exists>i r. 0 < i \<and> int64 i \<and> st_users (S w) i = None \<and> u' = u\<lparr>User_ID := i\<rparr>
        \<and> r\<lparr>User_CreatedAt := User_CreatedAt u'\<rparr> = u'
        \<and> S w' = (S w)\<lparr>st_users := (st_users (S w))(i \<mapsto> r)\<rparr>))
      (\<lambda>e w'. outside e \<and> S w' = S w)"
    using ok by (cases db) (auto simp: UserDaoImpl_def UserDaoImpl_CreateInTransaction_def intro!: create)
  show "runs (dao_UpdateProfile (UserDaoImpl db) c i (Some u)) w
      (\<lambda>r w'. S w' = update_user i u (S w))
      (\<lambda>e w'. outside e \<and> (S w' = S w \<or> S w' = update_user i u (S w)))"
    using ok by (cases db) (auto simp: UserDaoImpl_def UserDaoImpl_UpdateProfile_def intro!: profile)
qed

end
