(* ===== verification/Mask.thy ===== *)
theory Mask
  imports GoStrings
begin

section \<open>Masking of e-mail addresses\<close>

text \<open>server/util/mask.go. The slices \<open>value[:1]\<close> and \<open>value[len-1:]\<close> are by bytes.\<close>

definition maskString :: "string \<Rightarrow> string" where
  "maskString value =
    (if length value = 0 then []
     else if length value = 1 then ''*''
     else if length value = 2 then take 1 value @ ''*''
     else take 1 value @ ''***'' @ drop (length value - 1) value)"

definition MaskEmail :: "string \<Rightarrow> string" where
  "MaskEmail email0 =
    (let email = TrimSpace email0; (local, domain, ok) = Cut email CHR ''@'' in
     if \<not> ok \<or> local = [] \<or> domain = [] then maskString email
     else maskString local @ ''@'' @ domain)"

lemma drop_all_but_last: "v \<noteq> [] \<Longrightarrow> drop (length v - 1) v = [last v]"
  by (induction v) (auto simp: drop_Cons')

lemma maskString_long: "3 \<le> length v \<Longrightarrow> maskString v = hd v # ''***'' @ [last v]"
  using drop_all_but_last [of v] by (cases v) (auto simp: maskString_def)

lemma length_maskString: "length (maskString v) \<le> 5"
proof (cases "3 \<le> length v")
  case True
  then show ?thesis by (simp add: maskString_long)
next
  case False
  then show ?thesis by (auto simp: maskString_def)
qed

lemma MaskEmail_Nil [simp]: "MaskEmail [] = []"
  by (simp add: MaskEmail_def Cut_def maskString_def)

lemma MaskEmail_address:
  assumes "TrimSpace e = l @ CHR ''@'' # d" and "CHR ''@'' \<notin> set l" and "l \<noteq> []" and "d \<noteq> []"
  shows "MaskEmail e = maskString l @ ''@'' @ d"
  using assms by (simp add: MaskEmail_def Cut_append)

text \<open>
  A masked address tells no more of a local part of three bytes or more than its first
  and last byte: two addresses of one domain whose local parts agree in these are masked
  alike, and the local part is shown as five bytes whatever its length.
\<close>

theorem mask_hides_local_part:
  assumes "TrimSpace e1 = l1 @ CHR ''@'' # d" and "TrimSpace e2 = l2 @ CHR ''@'' # d"
    and "CHR ''@'' \<notin> set l1 \<union> set l2" and "3 \<le> length l1" and "3 \<le> length l2" and "d \<noteq> []"
    and "hd l1 = hd l2" and "last l1 = last l2"
  shows "MaskEmail e1 = MaskEmail e2 \<and> MaskEmail e1 = [hd l1] @ ''***'' @ [last l1] @ ''@'' @ d"
proof -
  have "l1 \<noteq> []" "l2 \<noteq> []" using assms(4,5) by auto
  then show ?thesis
    using MaskEmail_address [OF assms(1)] MaskEmail_address [OF assms(2)] assms(3-8) by (simp add: maskString_long)
qed

theorem mask_hides_local_part_witness:
  "MaskEmail '' alice@x.sg'' = ''a***e@x.sg'' \<and> MaskEmail ''abcde@x.sg'' = ''a***e@x.sg''"
proof -
  have "TrimSpace '' alice@x.sg'' = ''alice'' @ CHR ''@'' # ''x.sg''" "TrimSpace ''abcde@x.sg'' = ''abcde'' @ CHR ''@'' # ''x.sg''"
    by code_simp+
  from mask_hides_local_part [OF this] show ?thesis by auto
qed

end
