(* ===== verification/ProfileService.thy ===== *)
theory ProfileService
  imports UserDaos MappingDao Mask
begin

section \<open>Profiles\<close>

text \<open>
  server/service/user_profile_service.go with the payloads of server/http/data/user_profile.go:
  reading a profile by HTTP (\<open>GetProfile\<close>) and by gRPC (\<open>GetUserProfile\<close>, through Redis), and
  the partial update. The data access objects are the arguments \<open>users\<close> and \<open>mappings\<close>, the
  package variable \<open>cacheredis.Client\<close> the argument \<open>C\<close>, \<open>J\<close> the JSON form of an aggregate.
\<close>

record UserProfileAggregate =
  Aggregate_UserID :: int
  Aggregate_Email :: string
  Aggregate_Name :: string
  Aggregate_Market :: string
  Aggregate_KYCStatus :: string
  Aggregate_RegisteredAt :: instant

record UserProfileVO =
  VO_Username :: string
  VO_Email :: string
  VO_Language :: string
  VO_Market :: string
  VO_KYCChecked :: bool
  VO_RegisteredAt :: string

record UpdateUserProfileRequest =
  Update_Username :: string
  Update_Language :: string
  Update_Market :: string

definition userProfileCacheTTL :: duration where "userProfileCacheTTL = Hour"

subsection \<open>The format RFC 3339\<close>

text \<open>
  \<open>t.Format(time.RFC3339)\<close> for an instant in UTC, the location the driver gives to the
  times it reads.
\<close>

definition leap :: "int \<Rightarrow> bool" where
  "leap y \<longleftrightarrow> 4 dvd y \<and> (\<not> 100 dvd y \<or> 400 dvd y)"

definition month_lengths :: "int \<Rightarrow> int list" where
  "month_lengths y = [31, if leap y then 29 else 28, 31, 30, 31, 30, 31, 31, 30, 31, 30, 31]"

fun month_day :: "int \<Rightarrow> int \<Rightarrow> int list \<Rightarrow> int \<times> int" where
  "month_day m d [] = (m, d + 1)"
| "month_day m d [l] = (m, d + 1)"
| "month_day m d (l # ls) = (if d < l then (m, d + 1) else month_day (m + 1) (d - l) ls)"

definition civil_date :: "int \<Rightarrow> int \<times> int \<times> int" where
  "civil_date day =
    (let n400 = day div 146097; d1 = day mod 146097;
         n100 = min 3 (d1 div 36524); d2 = d1 - n100 * 36524;
         n4 = d2 div 1461; d3 = d2 mod 1461;
         n1 = min 3 (d3 div 365); yday = d3 - n1 * 365;
         y = 400 * n400 + 100 * n100 + 4 * n4 + n1 + 1
     in (y, month_day 1 yday (month_lengths y)))"

definition RFC3339 :: "instant \<Rightarrow> string" where
  "RFC3339 t =
    (let s = t div Second; sod = s mod 86400; (y, m, d) = civil_date (s div 86400) in
     pad 4 (FormatInt y) @ ''-'' @ pad 2 (FormatInt m) @ ''-'' @ pad 2 (FormatInt d) @ ''T''
     @ pad 2 (FormatInt (sod div 3600)) @ '':'' @ pad 2 (FormatInt (sod mod 3600 div 60)) @ '':''
     @ pad 2 (FormatInt (sod mod 60)) @ ''Z'')"

subsection \<open>The update\<close>

text \<open>Each step returns the update it was given, changed or not, with its other results.\<close>

definition applyUsernameUpdate :: "User \<Rightarrow> string \<Rightarrow> User \<times> bool" where
  "applyUsernameUpdate update username0 =
    (let username = TrimSpace username0 in
     if username = [] then (update, False) else (update\<lparr>User_Name := username\<rparr>, True))"

definition applyLanguageUpdate :: "User \<Rightarrow> string \<Rightarrow> go_error + User \<times> bool" where
  "applyLanguageUpdate update language0 =
    (let language = TrimSpace language0 in
     if language = [] then Inr (update, False)
     else if \<not> IsValidLanguage language then Inl ErrInvalidLanguage
     else Inr (update\<lparr>User_Language := language\<rparr>, True))"

definition applyMarketUpdate :: "User \<Rightarrow> string \<Rightarrow> string \<Rightarrow> go_error + User \<times> bool" where
  "applyMarketUpdate update existingMarket market0 =
    (let market = TrimSpace market0 in
     if market = [] then Inr (update, False)
     else if \<not> IsValidMarket market then Inl ErrInvalidMarket
     else let existing = TrimSpace existingMarket in
       if existing \<noteq> [] \<and> existing \<noteq> market then Inl ErrMarketAlreadySet
       else if existing \<noteq> [] then Inr (update, False)
       else Inr (update\<lparr>User_Market := market\<rparr>, True))"

definition buildProfileUpdate :: "User \<Rightarrow> UpdateUserProfileRequest \<Rightarrow> go_error + User option" where
  "buildProfileUpdate user req =
    (let (update, hasUpdate) = applyUsernameUpdate zero_User (Update_Username req) in
     case applyLanguageUpdate update (Update_Language req) of
       Inl err \<Rightarrow> Inl err
     | Inr (update, applied) \<Rightarrow>
         let hasUpdate = (hasUpdate \<or> applied) in
         (case applyMarketUpdate update (User_Market user) (Update_Market req) of
            Inl err \<Rightarrow> Inl err
          | Inr (update, applied) \<Rightarrow>
              let hasUpdate = (hasUpdate \<or> applied) in
              if \<not> hasUpdate then Inr None else Inr (Some update)))"

subsection \<open>The cache of aggregates\<close>

definition userProfileCacheKey :: "int \<Rightarrow> string" where
  "userProfileCacheKey userID = ''user_profile:id:'' @ FormatInt userID"

definition getUserProfileCache ::
    "'w RedisClient option \<Rightarrow> UserProfileAggregate Codec \<Rightarrow> ctx \<Rightarrow> int \<Rightarrow> ('w, UserProfileAggregate option) act" where
  "getUserProfileCache C J c userID = (case C of
      None \<Rightarrow> ret None
    | Some R \<Rightarrow> tryA (redis_Get R c (userProfileCacheKey userID))
        (\<lambda>raw. case json_Unmarshal J raw of
            Inl err \<Rightarrow> seqA (best_effort (redis_Del R c (userProfileCacheKey userID))) (ret None)
          | Inr profile \<Rightarrow> ret (Some profile))
        (\<lambda>err. ret None))"

definition setUserProfileCache ::
    "'w RedisClient option \<Rightarrow> UserProfileAggregate Codec \<Rightarrow> ctx \<Rightarrow> UserProfileAggregate option \<Rightarrow> ('w, unit) act" where
  "setUserProfileCache C J c profile = (case (C, profile) of
      (Some R, Some profile) \<Rightarrow> (case json_Marshal J profile of
          Inl err \<Rightarrow> ret ()
        | Inr raw \<Rightarrow> best_effort (redis_Set R c (userProfileCacheKey (Aggregate_UserID profile)) raw
                                   userProfileCacheTTL))
    | _ \<Rightarrow> ret ())"

definition InvalidateUserProfileCache :: "'w RedisClient option \<Rightarrow> ctx \<Rightarrow> int \<Rightarrow> ('w, unit) act" where
  "InvalidateUserProfileCache C c userID = (case C of
      None \<Rightarrow> ret ()
    | Some R \<Rightarrow> if userID \<le> 0 then ret () else best_effort (redis_Del R c (userProfileCacheKey userID)))"

subsection \<open>The methods\<close>

definition svc_GetUser :: "'w UserDao \<Rightarrow> ctx \<Rightarrow> int \<Rightarrow> ('w, User option) act" where
  "svc_GetUser users c userID = tryA (dao_GetByID users c userID)
     (\<lambda>user. ret user)
     (\<lambda>err. throw (Wrapped ''failed to get user'' err))"

definition svc_GetProfile :: "'w UserDao \<Rightarrow> ctx \<Rightarrow> int \<Rightarrow> string \<Rightarrow> ('w, UserProfileVO option) act" where
  "svc_GetProfile users c userID email = bindA (svc_GetUser users c userID) (\<lambda>user. case user of
      None \<Rightarrow> ret None
    | Some user \<Rightarrow> ret (Some \<lparr>
        VO_Username = User_Name user,
        VO_Email = MaskEmail email,
        VO_Language = User_Language user,
        VO_Market = User_Market user,
        VO_KYCChecked = (User_KYCStatus user = KYCStatusPassed),
        VO_RegisteredAt = RFC3339 (User_CreatedAt user)\<rparr>))"

text \<open>
  \<open>GetUserProfile\<close> after a miss in the cache: both rows are read, then the aggregate is
  stored. The two halves are named because another request may run between them.
\<close>

definition load_profile ::
    "'w UserDao \<Rightarrow> 'w UserAuthMappingDao \<Rightarrow> ctx \<Rightarrow> int \<Rightarrow> ('w, UserProfileAggregate) act" where
  "load_profile users mappings c userID =
    tryA (dao_GetByID users c userID)
      (\<lambda>user. case user of
         None \<Rightarrow> throw ErrUserNotFound
       | Some user \<Rightarrow> tryA (dao_GetByInternalUserID mappings c userID)
          (\<lambda>mapping. case mapping of
             None \<Rightarrow> throw ErrUserNotFound
           | Some mapping \<Rightarrow> ret \<lparr>
               Aggregate_UserID = User_ID user,
               Aggregate_Email = Mapping_Email mapping,
               Aggregate_Name = User_Name user,
               Aggregate_Market = User_Market user,
               Aggregate_KYCStatus = User_KYCStatus user,
               Aggregate_RegisteredAt = User_CreatedAt user\<rparr>)
          (\<lambda>err. throw (Wrapped ''get user auth mapping'' err)))
      (\<lambda>err. throw (Wrapped ''get user'' err))"

definition svc_GetUserProfile ::
    "'w UserDao \<Rightarrow> 'w UserAuthMappingDao \<Rightarrow> 'w RedisClient option \<Rightarrow> UserProfileAggregate Codec
      \<Rightarrow> ctx \<Rightarrow> int \<Rightarrow> ('w, UserProfileAggregate) act" where
  "svc_GetUserProfile users mappings C J c userID =
    (if userID \<le> 0 then throw ErrInvalidArgument
     else bindA (getUserProfileCache C J c userID) (\<lambda>cached. case cached of
         Some profile \<Rightarrow> ret profile
       | None \<Rightarrow> bindA (load_profile users mappings c userID) (\<lambda>profile.
           seqA (setUserProfileCache C J c (Some profile)) (ret profile))))"

text \<open>\<open>UpdateProfile\<close>, its reads and checks named apart from its writes for the same reason.\<close>

definition plan_update ::
    "'w UserDao \<Rightarrow> ctx \<Rightarrow> int \<Rightarrow> UpdateUserProfileRequest option \<Rightarrow> ('w, User option) act" where
  "plan_update users c userID req = (case req of
      None \<Rightarrow> throw ErrInvalidArgument
    | Some req \<Rightarrow> bindA (svc_GetUser users c userID) (\<lambda>user. case user of
        None \<Rightarrow> throw ErrUserNotFound
      | Some user \<Rightarrow> (case buildProfileUpdate user req of
            Inl err \<Rightarrow> throw err
          | Inr update \<Rightarrow> ret update)))"

definition finish_update ::
    "'w UserDao \<Rightarrow> 'w RedisClient option \<Rightarrow> ctx \<Rightarrow> int \<Rightarrow> User option \<Rightarrow> ('w, unit) act" where
  "finish_update users C c userID update = (case update of
      None \<Rightarrow> ret ()
    | Some update \<Rightarrow>
        seqA (dao_UpdateProfile users c userID (Some update))
             (InvalidateUserProfileCache C c userID))"

definition svc_UpdateProfile ::
    "'w UserDao \<Rightarrow> 'w RedisClient option \<Rightarrow> ctx \<Rightarrow> int \<Rightarrow> UpdateUserProfileRequest option \<Rightarrow> ('w, unit) act" where
  "svc_UpdateProfile users C c userID req =
    bindA (plan_update users c userID req) (finish_update users C c userID)"

subsection \<open>What an update contains\<close>

lemma applyLanguageUpdate_Inr:
  "applyLanguageUpdate up l = Inr (up', b) \<Longrightarrow>
     up' = up\<lparr>User_Language := (if TrimSpace l = [] then User_Language up else TrimSpace l)\<rparr>
     \<and> (b \<longleftrightarrow> TrimSpace l \<noteq> []) \<and> (TrimSpace l \<noteq> [] \<longrightarrow> IsValidLanguage (TrimSpace l))"
  by (auto simp: applyLanguageUpdate_def Let_def split: if_splits)

lemma applyMarketUpdate_Inr:
  "applyMarketUpdate up m0 m = Inr (up', b) \<Longrightarrow>
     up' = (if b then up\<lparr>User_Market := TrimSpace m\<rparr> else up)
     \<and> (b \<longleftrightarrow> TrimSpace m \<noteq> [] \<and> TrimSpace m0 = [])
     \<and> (TrimSpace m \<noteq> [] \<longrightarrow> IsValidMarket (TrimSpace m) \<and> (TrimSpace m0 = [] \<or> TrimSpace m0 = TrimSpace m))"
  by (auto simp: applyMarketUpdate_def Let_def split: if_splits)

lemma applyUsernameUpdate_eq:
  "applyUsernameUpdate zero_User n = (zero_User\<lparr>User_Name := TrimSpace n\<rparr>, TrimSpace n \<noteq> [])"
  by (simp add: applyUsernameUpdate_def zero_User_def Let_def)

text \<open>The update a valid request gives: the trimmed values, the market only when none is set.\<close>

definition requested :: "User \<Rightarrow> UpdateUserProfileRequest \<Rightarrow> User" where
  "requested user req = zero_User\<lparr>
     User_Name := TrimSpace (Update_Username req),
     User_Language := TrimSpace (Update_Language req),
     User_Market := (if TrimSpace (User_Market user) = [] then TrimSpace (Update_Market req) else [])\<rparr>"

lemma zero_User_simps [simp]:
  "User_ID zero_User = 0" "User_Name zero_User = []" "User_Market zero_User = []"
  "User_Language zero_User = []" "User_Segment zero_User = []" "User_KYCStatus zero_User = []"
  "User_RiskLevel zero_User = []" "User_CreatedAt zero_User = 0"
  by (simp_all add: zero_User_def)

definition request_error :: "User \<Rightarrow> UpdateUserProfileRequest \<Rightarrow> go_error option" where
  "request_error user req =
    (let l = TrimSpace (Update_Language req); m = TrimSpace (Update_Market req);
         m0 = TrimSpace (User_Market user) in
     if l \<noteq> [] \<and> \<not> IsValidLanguage l then Some ErrInvalidLanguage
     else if m \<noteq> [] \<and> \<not> IsValidMarket m then Some ErrInvalidMarket
     else if m \<noteq> [] \<and> m0 \<noteq> [] \<and> m0 \<noteq> m then Some ErrMarketAlreadySet
     else None)"

lemma buildProfileUpdate_eq:
  "buildProfileUpdate user req = (case request_error user req of
      Some err \<Rightarrow> Inl err
    | None \<Rightarrow> Inr (if requested user req = zero_User then None else Some (requested user req)))"
  unfolding buildProfileUpdate_def applyUsernameUpdate_eq
  by (simp add: applyLanguageUpdate_def applyMarketUpdate_def request_error_def requested_def Let_def zero_User_def)

lemma request_error_None:
  "request_error user req = None \<Longrightarrow>
     (TrimSpace (Update_Language req) \<noteq> [] \<longrightarrow> IsValidLanguage (TrimSpace (Update_Language req)))
     \<and> (TrimSpace (Update_Market req) \<noteq> [] \<longrightarrow> IsValidMarket (TrimSpace (Update_Market req))
        \<and> (TrimSpace (User_Market user) = [] \<or> TrimSpace (User_Market user) = TrimSpace (Update_Market req)))"
  by (auto simp: request_error_def Let_def split: if_splits)

lemma request_error_cases:
  "request_error user req = Some e \<Longrightarrow> e = ErrInvalidLanguage \<or> e = ErrInvalidMarket \<or> e = ErrMarketAlreadySet"
  by (auto simp: request_error_def Let_def split: if_splits)

lemma requested_simps [simp]:
  "User_ID (requested user req) = 0"
  "User_Name (requested user req) = TrimSpace (Update_Username req)"
  "User_Language (requested user req) = TrimSpace (Update_Language req)"
  "User_Market (requested user req) =
     (if TrimSpace (User_Market user) = [] then TrimSpace (Update_Market req) else [])"
  "User_Segment (requested user req) = []" "User_KYCStatus (requested user req) = []"
  "User_RiskLevel (requested user req) = []" "User_CreatedAt (requested user req) = 0"
  by (simp_all add: requested_def)

subsection \<open>What the cache may hold\<close>

definition profile_of :: "(string \<Rightarrow> string \<Rightarrow> bool) \<Rightarrow> int \<Rightarrow> Stores \<Rightarrow> UserProfileAggregate option" where
  "profile_of coll i st = (case (st_users st i, mapping_of coll (internal_user_id_eq i) st) of
      (Some u, Some m) \<Rightarrow> Some \<lparr>
        Aggregate_UserID = i,
        Aggregate_Email = Mapping_Email m,
        Aggregate_Name = User_Name u,
        Aggregate_Market = User_Market u,
        Aggregate_KYCStatus = User_KYCStatus u,
        Aggregate_RegisteredAt = User_CreatedAt u\<rparr>
    | _ \<Rightarrow> None)"

definition profile_key :: "string \<Rightarrow> bool" where
  "profile_key k \<longleftrightarrow> (\<exists>i. k = userProfileCacheKey i)"

lemma profile_key_inj [simp]: "userProfileCacheKey i = userProfileCacheKey j \<longleftrightarrow> i = j"
  by (simp add: userProfileCacheKey_def)

lemma keys_disjoint [simp]:
  "\<not> mapping_key (userProfileCacheKey i)" "\<not> profile_key (userAuthMappingCacheKey k)"
  by (simp_all add: mapping_key_def profile_key_def userProfileCacheKey_def userAuthMappingCacheKey_def
      userAuthMappingCachePrefix_def)

text \<open>\<open>fresh i\<close>: an entry for user \<open>i\<close> decodes to what the tables hold.\<close>

definition fresh :: "(string \<Rightarrow> string \<Rightarrow> bool) \<Rightarrow> UserProfileAggregate Codec \<Rightarrow> int \<Rightarrow> Stores \<Rightarrow> bool" where
  "fresh coll J i st \<longleftrightarrow> (\<forall>v p. st_cache st (userProfileCacheKey i) = Some v \<longrightarrow> json_Unmarshal J v = Inr p
     \<longrightarrow> profile_of coll i st = Some p)"

definition keyed :: "Stores \<Rightarrow> bool" where
  "keyed st \<longleftrightarrow> (\<forall>i u. st_users st i = Some u \<longrightarrow> User_ID u = i)"

lemma profile_of_cong:
  "st_users st' i = st_users st i \<Longrightarrow> st_mappings st' = st_mappings st \<Longrightarrow> profile_of coll i st' = profile_of coll i st"
  by (simp add: profile_of_def mapping_of_def)

lemma fresh_mono:
  assumes "fresh coll J i st" and "st_users st' i = st_users st i" and "st_mappings st' = st_mappings st"
    and "\<And>v. st_cache st' (userProfileCacheKey i) = Some v \<Longrightarrow> st_cache st (userProfileCacheKey i) = Some v"
  shows "fresh coll J i st'"
  using assms by (simp add: fresh_def profile_of_cong [OF assms(2,3)])

lemma fresh_shrinks: "fresh coll J i st \<Longrightarrow> shrinks st st' \<Longrightarrow> fresh coll J i st'"
  by (rule fresh_mono [where st = st]) (auto dest: shrinksD)

lemma fresh_other: "fresh coll J i st \<Longrightarrow> only_cache mapping_key st st' \<Longrightarrow> fresh coll J i st'"
  by (rule fresh_mono [where st = st]) (auto simp: only_cache_def)

lemma fresh_gone: "st_cache st (userProfileCacheKey i) = None \<Longrightarrow> fresh coll J i st"
  by (simp add: fresh_def)

lemma keyed_cong: "keyed st \<Longrightarrow> st_users st' = st_users st \<Longrightarrow> keyed st'"
  by (simp add: keyed_def)

lemma keyed_update [intro]: "keyed st \<Longrightarrow> keyed (update_user i u st)"
  by (auto simp: keyed_def)

lemma keyed_kyc [intro]: "keyed st \<Longrightarrow> keyed (set_kyc_status i s st)"
  by (auto simp: keyed_def)

lemma getUserProfileCache_runs:
  assumes "cache_client_ok S C" and "C \<noteq> None \<Longrightarrow> fresh coll J i (S w)"
  shows "runs (getUserProfileCache C J c i) w
    (\<lambda>r w'. (\<forall>p. r = Some p \<longrightarrow> profile_of coll i (S w) = Some p) \<and> shrinks (S w) (S w')) Q"
proof (cases C)
  case (Some R)
  then have R: "redis_ok S R" using assms(1) by (simp add: cache_client_ok_def)
  have "runs (case json_Unmarshal J raw of
          Inl e \<Rightarrow> seqA (best_effort (redis_Del R c (userProfileCacheKey i))) (ret None)
        | Inr p \<Rightarrow> ret (Some p)) w1
      (\<lambda>r w'. (\<forall>p. r = Some p \<longrightarrow> profile_of coll i (S w) = Some p) \<and> shrinks (S w) (S w')) Q"
    if raw: "st_cache (S w) (userProfileCacheKey i) = Some raw" "shrinks (S w) (S w1)" for raw w1
  proof (cases "json_Unmarshal J raw")
    case (Inl e)
    have "runs (best_effort (redis_Del R c (userProfileCacheKey i))) w1
        (\<lambda>_ w'. shrinks (S w) (S w')) Q"
      by (rule runs_best_effort [OF redis_del_runs [OF R]]) (auto intro: shrinks_trans [OF raw(2)])
    with Inl show ?thesis by (auto intro: runs_bindA)
  next
    case (Inr p)
    then show ?thesis using raw assms(2) Some by (auto simp: fresh_def)
  qed
  then show ?thesis
    unfolding getUserProfileCache_def Some
    by (auto intro: runs_tryA [OF redis_get_runs [OF R]])
qed (simp add: getUserProfileCache_def)

lemma setUserProfileCache_runs:
  assumes "cache_client_ok S C" and "codec_ok J" and p: "profile_of coll i (S w) = Some p"
  shows "runs (setUserProfileCache C J c (Some p)) w
    (\<lambda>_ w'. only_cache profile_key (S w) (S w') \<and> (\<forall>j. fresh coll J j (S w) \<longrightarrow> fresh coll J j (S w'))) Q"
proof -
  have id: "Aggregate_UserID p = i" using p by (auto simp: profile_of_def split: option.splits)
  let ?k = "userProfileCacheKey (Aggregate_UserID p)"
  have put: "only_cache profile_key (S w) (put ?k raw st) \<and> (\<forall>j. fresh coll J j (S w) \<longrightarrow> fresh coll J j (put ?k raw st))"
    if sh: "shrinks (S w) st" "json_Marshal J p = Inr raw" for st raw
  proof
    show "only_cache profile_key (S w) (put ?k raw st)"
      by (rule only_cache_store [OF that(1)]) (auto simp: profile_key_def)
    have dec: "json_Unmarshal J raw = Inr p" using assms(2) that(2) by (simp add: codec_ok_def)
    have same: "profile_of coll j (put ?k raw st) = profile_of coll j (S w)" for j
      using shrinksD [OF sh(1)] by (simp add: profile_of_def mapping_of_def)
    have "fresh coll J j (put ?k raw st)" if "fresh coll J j (S w)" for j
      using dec p id fresh_shrinks [OF that sh(1)] that shrinksD(4) [OF sh(1)]
      by (auto simp: fresh_def same)
    then show "\<forall>j. fresh coll J j (S w) \<longrightarrow> fresh coll J j (put ?k raw st)" by blast
  qed
  have keep: "only_cache profile_key (S w) st \<and> (\<forall>j. fresh coll J j (S w) \<longrightarrow> fresh coll J j st)"
    if "shrinks (S w) st" for st
    using that fresh_shrinks only_cache_shrink by blast
  show ?thesis
  proof (cases C)
    case (Some R)
    then have R: "redis_ok S R" using assms(1) by (simp add: cache_client_ok_def)
    show ?thesis
      using keep put unfolding setUserProfileCache_def Some
      by (auto split: sum.splits intro!: runs_best_effort [OF redis_set_runs [OF R]])
  qed (simp add: setUserProfileCache_def)
qed

text \<open>\<open>answering S C\<close>: Redis executes the deletions it is asked for.\<close>

definition answering :: "'w RedisClient option \<Rightarrow> bool" where
  "answering C \<longleftrightarrow> (case C of None \<Rightarrow> True
     | Some R \<Rightarrow> \<forall>c k w e w'. redis_Del R c k w \<noteq> (Err e, w'))"

lemma InvalidateUserProfileCache_runs:
  assumes "cache_client_ok S C"
  shows "runs (InvalidateUserProfileCache C c i) w
    (\<lambda>_ w'. shrinks (S w) (S w')
      \<and> (answering C \<longrightarrow> C \<noteq> None \<longrightarrow> 0 < i \<longrightarrow> st_cache (S w') (userProfileCacheKey i) = None)) Q"
proof (cases C)
  case (Some R)
  then have R: "redis_ok S R" using assms by (simp add: cache_client_ok_def)
  have "runs (redis_Del R c (userProfileCacheKey i)) w
      (\<lambda>u w'. shrinks (S w) (S w') \<and> st_cache (S w') (userProfileCacheKey i) = None)
      (\<lambda>e w'. shrinks (S w) (S w') \<and> \<not> answering C)"
    using redis_del_runs [OF R, of c "userProfileCacheKey i" w] Some
    unfolding runs_def answering_def by (auto split: prod.splits res.splits) blast
  then show ?thesis
    unfolding InvalidateUserProfileCache_def Some
    by (auto intro: runs_best_effort)
qed (simp add: InvalidateUserProfileCache_def)

end
