(* ===== verification/Http.thy ===== *)
theory Http
  imports Identity ClerkAuth ClerkData ProfileService Logging
begin

section \<open>The HTTP handlers\<close>

text \<open>
  server/http/api, server/http/data and the middlewares of server/log. A handler takes the
  service calls it makes as arguments, so that the router can hand it the services as they
  are wired; \<open>ctx\<close> values of the request are in the \<open>Gin\<close>. Of the log lines those of the
  middlewares are modelled.
\<close>

text \<open>The payloads of the common response.\<close>

datatype Payload =
    ProfilePayload UserProfileVO
  | CurrentUserData int string string
  | SingpassLoginData string

subsection \<open>Responses\<close>

definition data_JSON :: "int \<Rightarrow> int \<Rightarrow> string \<Rightarrow> 'p option \<Rightarrow> 'p Gin \<Rightarrow> 'p Gin" where
  "data_JSON httpStatus code message payload c = c_JSON httpStatus (Envelope code message payload) c"

definition CodeSuccess :: int where "CodeSuccess = 0"

definition data_OK :: "'p option \<Rightarrow> 'p Gin \<Rightarrow> 'p Gin" where
  "data_OK payload c = data_JSON 200 CodeSuccess ''success'' payload c"

definition authError :: "'p Gin \<Rightarrow> 'p Gin" where
  "authError c = data_JSON 401 (- 1) ''Authentication required'' None c"

definition handleRepoErr :: "'p Gin \<Rightarrow> go_error \<Rightarrow> 'p Gin" where
  "handleRepoErr c err =
    (if err = ErrDatabaseDisabled then data_JSON 503 (- 1) (error_text err) None c
     else data_JSON 500 (- 1) (error_text err) None c)"

definition handleProfileUpdateErr :: "'p Gin \<Rightarrow> go_error \<Rightarrow> 'p Gin" where
  "handleProfileUpdateErr c err =
    (if errors_Is err ErrUserNotFound then data_JSON 404 (- 1) (error_text err) None c
     else if errors_Is err ErrMarketAlreadySet \<or> errors_Is err ErrInvalidMarket
        \<or> errors_Is err ErrInvalidLanguage \<or> errors_Is err ErrInvalidArgument
     then data_JSON 400 (- 1) (error_text err) None c
     else handleRepoErr c err)"

text \<open>
  server/http/api/common.go: an older envelope that no handler uses any more. \<open>code\<close> are the
  variadic arguments.
\<close>

definition MsgFlags :: "int \<rightharpoonup> string" where "MsgFlags = [200 \<mapsto> ''ok'']"

definition GetMsg :: "int \<Rightarrow> string" where
  "GetMsg code = (case MsgFlags code of
      Some msg \<Rightarrow> msg
    | None \<Rightarrow> (case MsgFlags 500 of Some msg \<Rightarrow> msg | None \<Rightarrow> []))"

record 'd Response =
  Response_Status :: int
  Response_Data :: "'d option"
  Response_Msg :: string
  Response_Error :: string

definition RespSuccess :: "'d option \<Rightarrow> int list \<Rightarrow> 'd Response" where
  "RespSuccess data code = (let status = (case code of [] \<Rightarrow> 200 | c # _ \<Rightarrow> c) in
     \<lparr>Response_Status = status, Response_Data = data, Response_Msg = GetMsg status, Response_Error = []\<rparr>)"

definition RespError :: "go_error \<Rightarrow> int list \<Rightarrow> 'd Response" where
  "RespError err code = (let status = (case code of [] \<Rightarrow> 500 | c # _ \<Rightarrow> c) in
     \<lparr>Response_Status = status, Response_Data = None, Response_Msg = GetMsg status, Response_Error = error_text err\<rparr>)"

lemma RespError_has_no_message: "Response_Msg (RespError err []) = []"
  by (simp add: RespError_def GetMsg_def MsgFlags_def)

subsection \<open>Profiles\<close>

definition AdminGetCurrentUser :: "(ctx \<Rightarrow> int \<Rightarrow> ('w, User option) act) \<Rightarrow> ('w, Payload) handler" where
  "AdminGetCurrentUser getUser c = (case GetUser (req_ctx c) of
      None \<Rightarrow> ret (authError c)
    | Some authUser \<Rightarrow> tryA (getUser (req_ctx c) (AuthUser_InternalUserID authUser))
        (\<lambda>user. case user of
           None \<Rightarrow> ret (data_JSON 404 (- 1) ''user not found'' None c)
         | Some user \<Rightarrow> ret (data_OK (Some (CurrentUserData (AuthUser_InternalUserID authUser) (User_Name user)
             (AuthUser_Role authUser))) c))
        (\<lambda>err. ret (handleRepoErr c err)))"

definition UserGetProfile ::
    "(ctx \<Rightarrow> int \<Rightarrow> string \<Rightarrow> ('w, UserProfileVO option) act) \<Rightarrow> ('w, Payload) handler" where
  "UserGetProfile getProfile c = (case GetUser (req_ctx c) of
      None \<Rightarrow> ret (authError c)
    | Some user \<Rightarrow> tryA (getProfile (req_ctx c) (AuthUser_InternalUserID user) (AuthUser_Email user))
        (\<lambda>profile. case profile of
           None \<Rightarrow> ret (data_JSON 404 (- 1) ''user not found'' None c)
         | Some profile \<Rightarrow> ret (data_OK (Some (ProfilePayload profile)) c))
        (\<lambda>err. ret (handleRepoErr c err)))"

text \<open>\<open>bind\<close> is gin's \<open>ShouldBindJSON\<close> into an \<open>UpdateUserProfileRequest\<close>.\<close>

definition UserUpdateProfile ::
    "(Request \<Rightarrow> go_error + UpdateUserProfileRequest)
      \<Rightarrow> (ctx \<Rightarrow> int \<Rightarrow> UpdateUserProfileRequest option \<Rightarrow> ('w, unit) act) \<Rightarrow> ('w, Payload) handler" where
  "UserUpdateProfile bind updateProfile c = (case GetUser (req_ctx c) of
      None \<Rightarrow> ret (authError c)
    | Some user \<Rightarrow> (case bind (g_Request c) of
        Inl err \<Rightarrow> ret (data_JSON 400 (- 1) ''invalid request body'' None c)
      | Inr req \<Rightarrow> tryA (updateProfile (req_ctx c) (AuthUser_InternalUserID user) (Some req))
          (\<lambda>_. ret (data_OK None c))
          (\<lambda>err. ret (handleProfileUpdateErr c err))))"

subsection \<open>Singpass\<close>

definition SingpassLogin :: "(ctx \<Rightarrow> int \<Rightarrow> string \<Rightarrow> ('w, string) act) \<Rightarrow> ('w, Payload) handler" where
  "SingpassLogin start c = (case GetUser (req_ctx c) of
      None \<Rightarrow> ret (authError c)
    | Some user \<Rightarrow> tryA (start (req_ctx c) (AuthUser_InternalUserID user) (AuthUser_Email user))
        (\<lambda>authorizeURL. ret (data_OK (Some (SingpassLoginData authorizeURL)) c))
        (\<lambda>err. ret (data_JSON 500 (- 1) ''failed to start singpass login'' None c)))"

definition callback_error :: "'p Gin \<Rightarrow> go_error \<Rightarrow> 'p Gin" where
  "callback_error c err =
    (if errors_Is err ErrInvalidOAuthState then c_JSON 400 (ErrorJSON ''Invalid or expired state'') c
     else if errors_Is err ErrKYCEmailMismatch
     then c_JSON 403 (ErrorJSON ''Singpass email does not match authenticated user'') c
     else c_JSON 500 (ErrorJSON (error_text err)) c)"

text \<open>\<open>redirect\<close> is \<open>PostKYCRedirectURI\<close>, \<open>None\<close> when there is no system configuration.\<close>

definition callback_done :: "string option \<Rightarrow> 'p Gin \<Rightarrow> 'p Gin" where
  "callback_done redirect c =
    (let redirectURI = (case redirect of None \<Rightarrow> [] | Some uri \<Rightarrow> TrimSpace uri) in
     if redirectURI = [] then c_JSON 200 (MessageJSON ''Callback accepted'') c
     else c_JSON 302 (Location redirectURI) c)"

definition api_SingpassCallback ::
    "string option \<Rightarrow> (ctx \<Rightarrow> string \<Rightarrow> string \<Rightarrow> ('w, unit) act) \<Rightarrow> ('w, 'p) handler" where
  "api_SingpassCallback redirect callback c =
    (let code = Query c ''code''; state = Query c ''state''; idpError = Query c ''error'';
         idpErrorDesc = Query c ''error_description'' in
     if idpError \<noteq> [] then ret (c_JSON 400 (IdpErrorJSON ''singpass authorization failed'' idpError idpErrorDesc) c)
     else if code = [] then ret (c_JSON 400 (ErrorJSON ''Invalid code'') c)
     else if state = [] then ret (c_JSON 400 (ErrorJSON ''Invalid state'') c)
     else tryA (callback (req_ctx c) code state)
       (\<lambda>_. ret (callback_done redirect c))
       (\<lambda>err. ret (callback_error c err)))"

definition trimPrefix :: "string \<Rightarrow> int \<Rightarrow> string" where
  "trimPrefix s n = (if n \<le> 0 \<or> s = [] then [] else if int (length s) \<le> n then s else take (nat n) s)"

subsection \<open>The Clerk webhook\<close>

definition maxClerkWebhookBody :: nat where "maxClerkWebhookBody = 1048576"

text \<open>
  \<open>io.ReadAll\<close> of a body capped by \<open>MaxBytesReader\<close>: too many bytes, a failed read, or the
  payload.
\<close>

datatype read_result = TooLarge | ReadFailed go_error | Payload_Bytes string

definition ReadAll_capped :: "nat \<Rightarrow> string \<times> go_error option \<Rightarrow> read_result" where
  "ReadAll_capped limit body = (case body of (bytes, end_err) \<Rightarrow>
     if limit < length bytes then TooLarge
     else case end_err of Some err \<Rightarrow> ReadFailed err | None \<Rightarrow> Payload_Bytes bytes)"

text \<open>Svix: the webhook validator of a secret and its check of a payload with its headers.\<close>

record 'w Svix =
  svix_NewWebhook :: "string \<Rightarrow> go_error option"
  svix_Verify :: "string \<Rightarrow> string \<Rightarrow> (string \<times> string) list \<Rightarrow> ('w, unit) act"

definition ClerkCallback ::
    "'w Runtime \<Rightarrow> 'w Svix \<Rightarrow> (string \<Rightarrow> go_error + ClerkCallbackRequest)
      \<Rightarrow> (ctx \<Rightarrow> ClerkCallbackData option \<Rightarrow> ('w, unit) act) \<Rightarrow> ('w, 'p) handler" where
  "ClerkCallback R X unmarshal createUser c =
    (let secret = os_Getenv R ''CLERK_WEBHOOK_SECRET'' in
     if GetHeader c ''svix-id'' = [] \<or> GetHeader c ''svix-signature'' = [] \<or> GetHeader c ''svix-timestamp'' = []
     then ret (c_JSON 400 (ErrorJSON ''Missing svix headers'') c)
     else case ReadAll_capped maxClerkWebhookBody (In_Body (g_Request c)) of
         TooLarge \<Rightarrow> ret (c_JSON 413 (ErrorJSON ''Request body too large'') c)
       | ReadFailed err \<Rightarrow> ret (c_JSON 400 (ErrorJSON ''Read body failed'') c)
       | Payload_Bytes payload \<Rightarrow> (case svix_NewWebhook X secret of
           Some err \<Rightarrow> ret (c_JSON 500 (ErrorJSON ''Webhook init failed'') c)
         | None \<Rightarrow> tryA (svix_Verify X secret payload (In_Header (g_Request c)))
             (\<lambda>_. case unmarshal payload of
                Inl err \<Rightarrow> ret (c_JSON 400 (ErrorJSON ''Invalid request body'') c)
              | Inr request \<Rightarrow>
                  if Request_Type request \<noteq> ''user.created'' then ret (c_Status 200 c)
                  else if Request_Data request = None then ret (c_JSON 400 (ErrorJSON ''Data is required'') c)
                  else if ClerkUserID (Request_Data request) = [] \<or> EmailAddress (Request_Data request) = []
                  then ret (c_JSON 400 (ErrorJSON ''Invalid user data'') c)
                  else tryA (createUser (req_ctx c) (Request_Data request))
                    (\<lambda>_. ret (c_Status 200 c))
                    (\<lambda>err. ret (c_JSON 500 (ErrorJSON ''Failed to create user mapping'') c)))
             (\<lambda>err. ret (c_JSON 400 (ErrorJSON ''Invalid signature'') c))))"

subsection \<open>Forward authentication\<close>

definition bearerFromAuthorization :: "string \<Rightarrow> string option" where
  "bearerFromAuthorization header =
    (if \<not> HasPrefix header ''Bearer '' then None
     else let token = TrimSpace (TrimPrefix header ''Bearer '') in if token \<noteq> [] then Some token else None)"

definition AuthForward :: "(ctx \<Rightarrow> string \<Rightarrow> ('w, AuthUser) act) \<Rightarrow> ('w, 'p) handler" where
  "AuthForward authenticate c = (case bearerFromAuthorization (GetHeader c ''Authorization'') of
      None \<Rightarrow> ret (c_Status 200 c)
    | Some token \<Rightarrow> tryA (authenticate (req_ctx c) token)
        (\<lambda>user. ret (c_Status 200 (c_Header HeaderUserRole (AuthUser_Role user)
           (c_Header HeaderInternalUserID (FormatInt (AuthUser_InternalUserID user)) c))))
        (\<lambda>err. ret (c_Status 200 c)))"

subsection \<open>Middlewares of server/log\<close>

definition set_request_header :: "string \<Rightarrow> string \<Rightarrow> 'p Gin \<Rightarrow> 'p Gin" where
  "set_request_header k v c = c\<lparr>g_Request := (g_Request c)\<lparr>In_Header := header_set k v (In_Header (g_Request c))\<rparr>\<rparr>"

definition HTTPResponseIDMiddleware :: "'w Runtime \<Rightarrow> ('w, 'p) handler \<Rightarrow> ('w, 'p) handler" where
  "HTTPResponseIDMiddleware R next c =
    bindA (requestIDFromHeader R (GetHeader c RequestIDHeader)) (\<lambda>requestID.
      let c1 = c_Header RequestIDHeader requestID (set_request_header RequestIDHeader requestID c);
          (traceID, _) = TraceIDs (req_ctx c) in
      next (if traceID \<noteq> [] then c_Header TraceIDHeader traceID c1 else c1))"

text \<open>\<open>fullPath\<close> is gin's \<open>FullPath\<close>, the pattern of the route that matched, empty when none did.\<close>

definition accessLogFields :: "('p Gin \<Rightarrow> string) \<Rightarrow> 'p Gin \<Rightarrow> int \<Rightarrow> LogField list" where
  "accessLogFields fullPath c duration =
    (let route = (if fullPath c = [] then In_Path (g_Request c) else fullPath c) in
     [(''method'', LogString (In_Method (g_Request c))), (''path'', LogString (In_Path (g_Request c))),
      (''route'', LogString route), (''status'', LogInt (g_Status c)), (''duration_ms'', LogMicros duration)])"

definition requestFields :: "('p Gin \<Rightarrow> string) \<Rightarrow> 'p Gin \<Rightarrow> string \<Rightarrow> int \<Rightarrow> LogField list" where
  "requestFields fullPath c requestID duration = (''request_id'', LogString requestID) # accessLogFields fullPath c duration"

text \<open>The line of a request that has been handled, with a request and response as they are then.\<close>

definition access_line :: "'w Runtime \<Rightarrow> ('p Gin \<Rightarrow> string) \<Rightarrow> 'p Gin \<Rightarrow> int \<Rightarrow> ('w, unit) act" where
  "access_line R fullPath c duration =
    (let fs = accessLogFields fullPath c duration; logger = WithContext R (Some (req_ctx c)) in
     if 0 < length (g_Errors c)
     then Errorw R logger ''http request completed with errors'' (fs @ [(''errors'', LogStrings (g_Errors c))])
     else Infow R logger ''http request completed'' fs)"

definition HTTPObservabilityMiddleware ::
    "'w Runtime \<Rightarrow> ('p Gin \<Rightarrow> string) \<Rightarrow> ('w, 'p) handler \<Rightarrow> ('w, 'p) handler" where
  "HTTPObservabilityMiddleware R fullPath next c =
    bindA (now R) (\<lambda>start. bindA (requestIDFromHeader R (GetHeader c RequestIDHeader)) (\<lambda>requestID.
      let ctx = WithLogger (req_ctx c) (With [(''request_id'', LogString requestID)] (log_Logger R)) in
      bindA (next (set_ctx ctx c)) (\<lambda>c. bindA (now R) (\<lambda>t.
        seqA (access_line R fullPath c (Microseconds (t - start))) (ret c)))))"

text \<open>
  A panic below it becomes a 500. The deferred function sees the request and the response as
  they were when the panic struck, which the model of a panic does not say: \<open>struck\<close> stands
  for them; \<open>stack\<close> is the text of \<open>debug.Stack\<close>.
\<close>

definition panic_line :: "'w Runtime \<Rightarrow> ('p Gin \<Rightarrow> string) \<Rightarrow> (string \<Rightarrow> string) \<Rightarrow> string \<Rightarrow> string \<Rightarrow> 'p Gin \<Rightarrow> ('w, unit) act" where
  "panic_line R fullPath stack m requestID c = Errorw R (WithContext R (Some (req_ctx c))) ''panic recovered''
     (requestFields fullPath c requestID 0 @ [(''panic'', LogString m), (''stack'', LogString (stack m))])"

definition RecoveryMiddleware ::
    "'w Runtime \<Rightarrow> ('p Gin \<Rightarrow> string) \<Rightarrow> (string \<Rightarrow> string) \<Rightarrow> ('p Gin \<Rightarrow> string \<Rightarrow> 'w \<Rightarrow> 'p Gin)
      \<Rightarrow> ('w, 'p) handler \<Rightarrow> ('w, 'p) handler" where
  "RecoveryMiddleware R fullPath stack struck next c = (\<lambda>w. case next c w of
      (Panicked m, w') \<Rightarrow>
        (let c1 = struck c m w'; answer = c_JSON 500 (CodeMessageJSON (- 1) ''internal server error'');
             requestID = GetHeader c1 RequestIDHeader in
         if requestID = []
         then bindA (requestIDFromHeader R []) (\<lambda>requestID. let c2 = c_Header RequestIDHeader requestID c1 in
           seqA (panic_line R fullPath stack m requestID c2) (ret (answer c2))) w'
         else seqA (panic_line R fullPath stack m requestID c1) (ret (answer c1)) w')
    | out \<Rightarrow> out)"

end
