(* ===== verification/HttpLaws.thy ===== *)
theory HttpLaws
  imports Http
begin

section \<open>What the handlers answer\<close>

text \<open>
  Properties of single handlers, for whatever services they are given: the headers of
  forward authentication and how they are read back, what the Clerk webhook lets through,
  and the status of a disabled database.
\<close>

lemma header_names [simp]: "CanonicalHeaderKey HeaderInternalUserID \<noteq> CanonicalHeaderKey HeaderUserRole"
  by code_simp

lemma FormatInt_not_Nil [simp]: "FormatInt i \<noteq> []"
  by (rule FormatInt_plain)

lemma header_get_drop: "header_get (filter (\<lambda>e. fst e \<noteq> CanonicalHeaderKey k) h) k' =
    (if CanonicalHeaderKey k = CanonicalHeaderKey k' then [] else header_get h k')"
  by (auto simp: header_get_def map_of_drop)

lemma response_header_get:
  "header_get (g_Header (c_Header k v c)) k' =
    (if CanonicalHeaderKey k = CanonicalHeaderKey k' then v else header_get (g_Header c) k')"
  by (simp add: c_Header_def header_get_set header_get_drop)

lemma userFromHeaders_of:
  assumes "GetHeader d HeaderInternalUserID = FormatInt i" and "GetHeader d HeaderUserRole = role"
    and "0 < i" and "int64 i" and "TrimSpace role \<noteq> []"
  shows "userFromHeaders d = Some \<lparr>AuthUser_InternalUserID = i, AuthUser_ClerkUserID = [], AuthUser_Email = [],
    AuthUser_Role = TrimSpace role\<rparr>"
  using assms by (simp add: userFromHeaders_def Let_def ParseInt_FormatInt)

text \<open>
  C20. Forward authentication and the identity middleware agree: whoever authenticates with a
  bearer token gets a 200 whose two headers, copied to the next request, are read back as the
  same user id and role; a missing or refused token gets a 200 without these headers, which
  read back as no identity.
\<close>

theorem forwarded_identity_roundtrip:
  assumes "g_Header c = []" and "AuthForward authenticate c w = (Ok c', w')" and "In_Header (g_Request d) = g_Header c'"
  shows "g_Status c' = 200
    \<and> (case bearerFromAuthorization (GetHeader c ''Authorization'') of
        None \<Rightarrow> userFromHeaders d = None \<and> w' = w
      | Some token \<Rightarrow> (case authenticate (req_ctx c) token w of
          (Ok u, w1) \<Rightarrow> w' = w1 \<and> (0 < AuthUser_InternalUserID u \<longrightarrow> int64 (AuthUser_InternalUserID u)
            \<longrightarrow> TrimSpace (AuthUser_Role u) \<noteq> [] \<longrightarrow> userFromHeaders d = Some \<lparr>
              AuthUser_InternalUserID = AuthUser_InternalUserID u, AuthUser_ClerkUserID = [], AuthUser_Email = [],
              AuthUser_Role = TrimSpace (AuthUser_Role u)\<rparr>)
        | (Err e, w1) \<Rightarrow> w' = w1 \<and> userFromHeaders d = None
        | (Panicked m, w1) \<Rightarrow> False))"
proof -
  have get: "GetHeader d k = header_get (g_Header c') k" for k
    using assms(3) by (simp add: GetHeader_def)
  have none: "userFromHeaders d = None" if "g_Header c' = []"
    using that get by (simp add: userFromHeaders_def header_get_def)
  show ?thesis
  proof (cases "bearerFromAuthorization (GetHeader c ''Authorization'')")
    case None
    with assms none show ?thesis by (auto simp: AuthForward_def act_simps)
  next
    case (Some token)
    obtain r w1 where r: "authenticate (req_ctx c) token w = (r, w1)" by fastforce
    show ?thesis
    proof (cases r)
      case (Ok u)
      let ?c = "c_Status 200 (c_Header HeaderUserRole (AuthUser_Role u)
           (c_Header HeaderInternalUserID (FormatInt (AuthUser_InternalUserID u)) c))"
      have c': "c' = ?c" "w' = w1" using assms(2) Some r Ok by (auto simp: AuthForward_def act_simps)
      have "GetHeader d HeaderInternalUserID = FormatInt (AuthUser_InternalUserID u)" "GetHeader d HeaderUserRole = AuthUser_Role u"
        by (simp_all add: get c' response_header_get header_names [symmetric])
      then show ?thesis using c' Some r Ok by (auto intro: userFromHeaders_of)
    next
      case (Err e)
      with assms Some r none show ?thesis by (auto simp: AuthForward_def act_simps)
    next
      case (Panicked m)
      with assms Some r show ?thesis by (auto simp: AuthForward_def act_simps)
    qed
  qed
qed

text \<open>
  C13. Nobody registers a user without Svix's signature: a webhook call changes the stores only
  if its three signature headers are there, its body has at most one MiB, the validator of
  the configured secret accepts body and headers, and the body is a \<open>user.created\<close> event
  with an id and an address; and then all that happens is one registration of its data, and
  the answer is 200 or 500 as the registration succeeds or fails.
\<close>

theorem unsigned_webhook_changes_nothing:
  assumes "\<And>secret payload h. keeps S (svix_Verify X secret payload h)"
    and "ClerkCallback R X unmarshal createUser c w = (r, w')" and "S w' \<noteq> S w"
  shows "\<exists>payload request w1 r1. In_Body (g_Request c) = (payload, None) \<and> length payload \<le> 1048576
    \<and> GetHeader c ''svix-id'' \<noteq> [] \<and> GetHeader c ''svix-signature'' \<noteq> [] \<and> GetHeader c ''svix-timestamp'' \<noteq> []
    \<and> svix_NewWebhook X (os_Getenv R ''CLERK_WEBHOOK_SECRET'') = None
    \<and> svix_Verify X (os_Getenv R ''CLERK_WEBHOOK_SECRET'') payload (In_Header (g_Request c)) w = (Ok (), w1)
    \<and> unmarshal payload = Inr request \<and> Request_Type request = ''user.created''
    \<and> ClerkUserID (Request_Data request) \<noteq> [] \<and> EmailAddress (Request_Data request) \<noteq> []
    \<and> createUser (req_ctx c) (Request_Data request) w1 = (r1, w')
    \<and> (case r1 of Ok x \<Rightarrow> r = Ok (c_Status 200 c)
       | Err e \<Rightarrow> r = Ok (c_JSON 500 (ErrorJSON ''Failed to create user mapping'') c)
       | Panicked m \<Rightarrow> r = Panicked m)"
proof -
  let ?secret = "os_Getenv R ''CLERK_WEBHOOK_SECRET''" and ?h = "In_Header (g_Request c)"
  have headers: "GetHeader c ''svix-id'' \<noteq> []" "GetHeader c ''svix-signature'' \<noteq> []" "GetHeader c ''svix-timestamp'' \<noteq> []"
    using assms(2,3) by (auto simp: ClerkCallback_def act_simps split: if_splits)
  then obtain payload where body: "In_Body (g_Request c) = (payload, None)" "length payload \<le> 1048576"
    and init: "svix_NewWebhook X ?secret = None"
    using assms(2,3) by (auto simp: ClerkCallback_def act_simps ReadAll_capped_def maxClerkWebhookBody_def Let_def
        split: if_splits option.splits prod.splits)
  obtain rv w1 where v: "svix_Verify X ?secret payload ?h w = (rv, w1)" by fastforce
  have S1: "S w1 = S w" using keepsD [OF assms(1) v] .
  note run = assms(2) [unfolded ClerkCallback_def Let_def, simplified headers body init ReadAll_capped_def maxClerkWebhookBody_def]
  have ok: "rv = Ok ()" using run v S1 assms(3) body(2) by (cases rv) (auto simp: act_simps tryA_def)
  then obtain request where rq: "unmarshal payload = Inr request" "Request_Type request = ''user.created''"
      "Request_Data request \<noteq> None" "ClerkUserID (Request_Data request) \<noteq> []" "EmailAddress (Request_Data request) \<noteq> []"
    using run v S1 assms(3) body(2) by (auto simp: act_simps tryA_def split: sum.splits if_splits)
  obtain r1 w2 where "createUser (req_ctx c) (Request_Data request) w1 = (r1, w2)" by fastforce
  then show ?thesis
    using headers body init v ok rq run by (cases r1) (auto simp: act_simps tryA_def split: if_splits)
qed

text \<open>
  A disabled database is answered with 500, not with the 503 the handler provides for it:
  the service wraps the error before the handler compares it.
\<close>

theorem disabled_database_is_500:
  "UserGetProfile (svc_GetProfile (UserDaoImpl None)) (set_ctx (WithUser x (Some u)) c) w
    = (Ok (c_JSON 500 (Envelope (- 1) ''failed to get user: database is disabled or not initialized'' None)
        (set_ctx (WithUser x (Some u)) c)), w)"
  by (simp add: UserGetProfile_def svc_GetProfile_def svc_GetUser_def UserDaoImpl_def UserDaoImpl_GetByID_def
      handleRepoErr_def data_JSON_def tryA_def bindA_def throw_def ret_def)

subsection \<open>Witnesses\<close>

definition asking :: "(string \<times> string) list \<Rightarrow> string \<Rightarrow> unit Gin" where
  "asking h body = new_Gin \<lparr>In_Method = ''POST'', In_Host = ''id'', In_URI = ''/'', In_Path = ''/'', In_Query = [], In_Header = h, In_RemoteAddr = [],
     In_Body = (body, None), In_Ctx = Background\<rparr>"

definition ref_authenticate :: "ctx \<Rightarrow> string \<Rightarrow> (nat, AuthUser) act" where
  "ref_authenticate c token = (if token = ''t0k'' then ret \<lparr>AuthUser_InternalUserID = 7, AuthUser_ClerkUserID = ''user_1'',
     AuthUser_Email = ''a@b.sg'', AuthUser_Role = ''user''\<rparr> else throw ErrInvalidToken)"

theorem forwarded_identity_roundtrip_witness:
  "case AuthForward ref_authenticate (asking [(''Authorization'', ''Bearer t0k'')] []) 0 of
     (Ok c', w') \<Rightarrow> userFromHeaders (asking (g_Header c') []) = Some \<lparr>AuthUser_InternalUserID = 7, AuthUser_ClerkUserID = [],
        AuthUser_Email = [], AuthUser_Role = ''user''\<rparr>
   | _ \<Rightarrow> False"
proof -
  let ?c = "asking [(''Authorization'', ''Bearer t0k'')] []"
  have token: "bearerFromAuthorization (GetHeader ?c ''Authorization'') = Some ''t0k''" "TrimSpace ''user'' = ''user''"
    by code_simp+
  obtain c' w' where run: "AuthForward ref_authenticate ?c 0 = (Ok c', w')"
    by (auto simp: AuthForward_def token ref_authenticate_def tryA_def ret_def)
  have start: "g_Header ?c = []" "In_Header (g_Request (asking (g_Header c') [])) = g_Header c'"
    by (simp_all add: asking_def new_Gin_def)
  from forwarded_identity_roundtrip [OF start(1) run start(2)] run token show ?thesis
    by (simp add: ref_authenticate_def ret_def int64_def)
qed

definition ref_svix :: "nat Svix" where
  "ref_svix = \<lparr>svix_NewWebhook = (\<lambda>s. None), svix_Verify = (\<lambda>s p h. if header_get h ''svix-signature'' = ''v1,ok'' then ret ()
     else throw (External ''no matching signature''))\<rparr>"

definition env_runtime :: "nat Runtime" where
  "env_runtime = \<lparr>time_Now = (\<lambda>w. (0, w)), rand_Read = (\<lambda>n. throw (External ''no entropy'')),
     rand_Int = (\<lambda>n. throw (External ''no entropy'')), os_Getenv = (\<lambda>k. []),
     log_Logger = \<lparr>Logger_Level = None, Logger_Fields = []\<rparr>, log_Write = (\<lambda>e w. w),
     otel_Start = (\<lambda>t n k a c w. ((c, None), w)), otel_Span = (\<lambda>h k w. w), otel_Inject = (\<lambda>c. [])\<rparr>"

definition ref_event :: ClerkCallbackRequest where
  "ref_event = \<lparr>Request_Type = ''user.created'', Request_Data = Some \<lparr>Clerk_ID = ''user_2'', Clerk_PrimaryEmailAddressID = ''e1'',
     Clerk_EmailAddresses = [\<lparr>ClerkEmail_ID = ''e1'', ClerkEmail_EmailAddress = ''bob@example.com''\<rparr>]\<rparr>\<rparr>"

theorem unsigned_webhook_changes_nothing_witness:
  "let c = asking [(''Svix-Id'', ''m1''), (''Svix-Signature'', ''v1,ok''), (''Svix-Timestamp'', ''1'')] ''{}'' in
     snd (ClerkCallback env_runtime ref_svix (\<lambda>s. Inr ref_event) (\<lambda>x d w. (Ok (), w + 1)) c 0) = 1
     \<and> fst (ClerkCallback env_runtime ref_svix (\<lambda>s. Inr ref_event) (\<lambda>x d w. (Ok (), w + 1)) c 0) = Ok (c_Status 200 c)"
proof -
  let ?c = "asking [(''Svix-Id'', ''m1''), (''Svix-Signature'', ''v1,ok''), (''Svix-Timestamp'', ''1'')] ''{}''"
  let ?run = "ClerkCallback env_runtime ref_svix (\<lambda>s. Inr ref_event) (\<lambda>x d w. (Ok (), w + 1)) ?c 0"
  have "GetHeader ?c ''svix-id'' \<noteq> []" "GetHeader ?c ''svix-signature'' \<noteq> []" "GetHeader ?c ''svix-timestamp'' \<noteq> []"
      "header_get (In_Header (g_Request ?c)) ''svix-signature'' = ''v1,ok''"
      "ClerkUserID (Request_Data ref_event) \<noteq> []" "EmailAddress (Request_Data ref_event) \<noteq> []"
    by code_simp+
  moreover have "In_Body (g_Request ?c) = (''{}'', None)" by (simp add: asking_def new_Gin_def)
  ultimately have "snd ?run = 1"
    by (simp add: ClerkCallback_def Let_def ReadAll_capped_def maxClerkWebhookBody_def ref_svix_def act_simps tryA_def)
      (simp add: ref_event_def act_simps)
  moreover have "keeps id (svix_Verify ref_svix s p h)" for s p h
    by (auto simp: ref_svix_def)
  ultimately show ?thesis
    using unsigned_webhook_changes_nothing [where S = id, OF _ prod.collapse [symmetric], of ref_svix env_runtime
        "\<lambda>s. Inr ref_event" "\<lambda>x d w. (Ok (), w + 1)" ?c 0]
    by auto
qed

end
