(* ===== verification/KYCStore.thy ===== *)
theory KYCStore
  imports Clients
begin

section \<open>Pending Singpass attempts\<close>

text \<open>
  server/service/kyc_state_store.go: the store that binds an OAuth state to the user who
  started KYC. The interface \<open>KYCStateStore\<close> is a record of its two methods; the contract
  its clients rely on is the locale \<open>one_time_store\<close>; \<open>memoryKYCStateStore\<close> is the
  implementation, its \<open>now\<close> field the clock of the runtime. Each method holds the mutex
  from its first to its last access of the map, so a call is one step. The store and the
  rest of the world form a pair.
\<close>

definition defaultKYCStateTTL :: duration where "defaultKYCStateTTL = 10 * Minute"

record KYCPending =
  Pending_InternalUserID :: int
  Pending_Email :: string
  Pending_ExpiresAt :: instant

record 'w KYCStateStore =
  store_Save :: "string \<Rightarrow> KYCPending \<Rightarrow> 'w \<Rightarrow> 'w"
  store_Consume :: "string \<Rightarrow> 'w \<Rightarrow> KYCPending option \<times> 'w"

subsection \<open>The contract\<close>

text \<open>
  \<open>pend w\<close> is what the store holds in \<open>w\<close>. A pending attempt comes out of the store only
  if it is there, and is then gone; nothing but \<open>Save\<close> adds one, under its own state and
  for its own user; the empty state is never stored.
\<close>

locale one_time_store =
  fixes store :: "'w KYCStateStore"
    and pend :: "'w \<Rightarrow> string \<Rightarrow> KYCPending option"
  assumes save_empty: "pend (store_Save store [] p w) = pend w"
    and save_bound: "s \<noteq> [] \<Longrightarrow> \<exists>p'. Pending_InternalUserID p' = Pending_InternalUserID p
      \<and> Pending_Email p' = Pending_Email p
      \<and> pend (store_Save store s p w) \<subseteq>\<^sub>m (pend w)(s \<mapsto> p')"
    and consume_hit: "store_Consume store s w = (Some p, w') \<Longrightarrow> pend w s = Some p"
    and consume_gone: "store_Consume store s w = (r, w') \<Longrightarrow> pend w' s = None"
    and consume_le: "store_Consume store s w = (r, w') \<Longrightarrow> pend w' \<subseteq>\<^sub>m pend w"

text \<open>Uses of a store: calls in some order, with what each \<open>Consume\<close> returned.\<close>

datatype store_call = Save string KYCPending | Consume string

fun run_store :: "'w KYCStateStore \<Rightarrow> store_call list \<Rightarrow> 'w \<Rightarrow> (string \<times> KYCPending) list \<times> 'w" where
  "run_store store [] w = ([], w)"
| "run_store store (Save s p # cs) w = run_store store cs (store_Save store s p w)"
| "run_store store (Consume s # cs) w =
     (case store_Consume store s w of (r, w1) \<Rightarrow>
        (case run_store store cs w1 of (hits, w2) \<Rightarrow>
           ((case r of None \<Rightarrow> [] | Some p \<Rightarrow> [(s, p)]) @ hits, w2)))"

definition saves_of :: "string \<Rightarrow> store_call list \<Rightarrow> nat" where
  "saves_of s cs = length (filter (\<lambda>c. case c of Save s' p \<Rightarrow> s' = s | Consume s' \<Rightarrow> False) cs)"

definition hits_of :: "string \<Rightarrow> (string \<times> KYCPending) list \<Rightarrow> nat" where
  "hits_of s hs = length (filter (\<lambda>h. fst h = s) hs)"

lemma count_simps [simp]:
  "saves_of s [] = 0" "hits_of s [] = 0"
  "saves_of s (Save s' p # cs) = (if s' = s then 1 else 0) + saves_of s cs"
  "saves_of s (Consume s' # cs) = saves_of s cs"
  "hits_of s (h # hs) = (if fst h = s then 1 else 0) + hits_of s hs"
  "hits_of s (hs @ hs') = hits_of s hs + hits_of s hs'"
  by (simp_all add: saves_of_def hits_of_def)

context one_time_store begin

lemma consume_once:
  assumes "store_Consume store s w = (r, w1)" and "store_Consume store s w1 = (r', w2)"
  shows "r' = None"
  using consume_gone [OF assms(1)] consume_hit [of s w1] assms(2) by (cases r') auto

lemma save_source:
  assumes "pend (store_Save store s p w) s' = Some q"
  shows "s \<noteq> [] \<and> s' = s \<and> Pending_InternalUserID q = Pending_InternalUserID p \<and> Pending_Email q = Pending_Email p
    \<or> (s' \<noteq> s \<or> s = []) \<and> pend w s' = Some q"
proof (cases "s = []")
  case True
  with assms show ?thesis by (simp add: save_empty)
next
  case False
  then obtain p' where p': "Pending_InternalUserID p' = Pending_InternalUserID p" "Pending_Email p' = Pending_Email p"
    and le: "pend (store_Save store s p w) \<subseteq>\<^sub>m (pend w)(s \<mapsto> p')"
    using save_bound [OF False, of p w] by blast
  from map_leD [OF le assms] p' False show ?thesis by (auto split: if_splits)
qed

lemma save_other: "s' \<noteq> s \<Longrightarrow> pend (store_Save store s p w) s' = Some q \<Longrightarrow> pend w s' = Some q"
  using save_source by blast

lemma consume_keeps: "store_Consume store s w = (r, w') \<Longrightarrow> pend w' s' = Some q \<Longrightarrow> pend w s' = Some q"
  using consume_le by (blast dest: map_leD)

text \<open>A state is redeemed at most as often as it was saved.\<close>

lemma redeemed_le_saved:
  "run_store store cs w = (hs, w') \<Longrightarrow>
    hits_of s hs \<le> saves_of s cs + (if pend w s = None then 0 else 1)"
proof (induction cs arbitrary: w hs)
  case Nil
  then show ?case by simp
next
  case (Cons c cs)
  show ?case
  proof (cases c)
    case (Save s' p)
    with Cons.prems have run: "run_store store cs (store_Save store s' p w) = (hs, w')" by simp
    from Cons.IH [OF run] show ?thesis
      using save_other [of s s' p w] Save by (cases "s' = s") (auto split: if_splits)
  next
    case (Consume s')
    obtain r w1 where r: "store_Consume store s' w = (r, w1)" by fastforce
    obtain hs1 where hs1: "run_store store cs w1 = (hs1, w')"
      and hs: "hs = (case r of None \<Rightarrow> [] | Some p \<Rightarrow> [(s', p)]) @ hs1"
      using Cons.prems Consume r by (auto split: prod.splits)
    from Cons.IH [OF hs1] show ?thesis
      using consume_gone [OF r] consume_hit [of s' w _ w1] consume_keeps [OF r, of s] r hs Consume
      by (cases r; cases "s' = s"; cases "pend w1 s") (auto split: if_splits)
  qed
qed

text \<open>Whoever redeems a state gets the user some \<open>Save\<close> bound to that very state.\<close>

lemma redeemed_was_saved:
  "run_store store cs w = (hs, w') \<Longrightarrow> (s, q) \<in> set hs \<Longrightarrow>
    pend w s = Some q \<or>
    (\<exists>p. Save s p \<in> set cs \<and> Pending_InternalUserID p = Pending_InternalUserID q
       \<and> Pending_Email p = Pending_Email q)"
proof (induction cs arbitrary: w hs)
  case Nil
  then show ?case by simp
next
  case (Cons c cs)
  show ?case
  proof (cases c)
    case (Save s' p)
    with Cons.prems have run: "run_store store cs (store_Save store s' p w) = (hs, w')" by simp
    from Cons.IH [OF run Cons.prems(2)] show ?thesis
      using save_source [of s' p w s q] Save by auto
  next
    case (Consume s')
    obtain r w1 where r: "store_Consume store s' w = (r, w1)" by fastforce
    obtain hs1 where hs1: "run_store store cs w1 = (hs1, w')"
      and hs: "hs = (case r of None \<Rightarrow> [] | Some p \<Rightarrow> [(s', p)]) @ hs1"
      using Cons.prems Consume r by (auto split: prod.splits)
    show ?thesis
    proof (cases "(s, q) \<in> set hs1")
      case True
      with Cons.IH [OF hs1] consume_keeps [OF r] Consume show ?thesis by auto
    next
      case False
      with Cons.prems(2) hs have "r = Some q" "s' = s" by (auto split: option.splits)
      with consume_hit r show ?thesis by blast
    qed
  qed
qed

text \<open>Without another \<open>Save\<close> of the state, what it is bound to can only disappear.\<close>

lemma run_keeps_binding:
  "run_store store cs w = (hs, w') \<Longrightarrow> saves_of s cs = 0 \<Longrightarrow> pend w' s = Some q \<Longrightarrow> pend w s = Some q"
proof (induction cs arbitrary: w hs)
  case (Cons c cs)
  show ?case
  proof (cases c)
    case (Save s' p)
    with Cons.prems show ?thesis using Cons.IH save_other [of s s' p w q] by (auto split: if_splits)
  next
    case (Consume s')
    obtain r w1 where r: "store_Consume store s' w = (r, w1)" by fastforce
    with Cons.prems Consume obtain hs1 where "run_store store cs w1 = (hs1, w')" by (auto split: prod.splits)
    with Cons.IH [OF this] Cons.prems Consume consume_keeps [OF r] show ?thesis by auto
  qed
qed simp

end

subsection \<open>The memory store\<close>

record memoryKYCStateStore =
  items :: "string \<Rightarrow> KYCPending option"
  store_ttl :: duration

definition newMemoryKYCStateStore :: "duration \<Rightarrow> memoryKYCStateStore" where
  "newMemoryKYCStateStore ttl =
    \<lparr>items = Map.empty, store_ttl = (if ttl \<le> 0 then defaultKYCStateTTL else ttl)\<rparr>"

text \<open>Deleting the expired entries while ranging over the map.\<close>

definition drop_expired :: "instant \<Rightarrow> (string \<Rightarrow> KYCPending option) \<Rightarrow> string \<Rightarrow> KYCPending option" where
  "drop_expired t m k = (case m k of None \<Rightarrow> None
     | Some v \<Rightarrow> if After t (Pending_ExpiresAt v) then None else Some v)"

definition purgeExpiredLocked ::
    "'w Runtime \<Rightarrow> memoryKYCStateStore \<times> 'w \<Rightarrow> memoryKYCStateStore \<times> 'w" where
  "purgeExpiredLocked R = (\<lambda>(s, w). case time_Now R w of (t, w') \<Rightarrow>
     (s\<lparr>items := drop_expired t (items s)\<rparr>, w'))"

definition memory_Save ::
    "'w Runtime \<Rightarrow> string \<Rightarrow> KYCPending \<Rightarrow> memoryKYCStateStore \<times> 'w \<Rightarrow> memoryKYCStateStore \<times> 'w" where
  "memory_Save R state pending = (\<lambda>(s, w).
     if state = [] then (s, w)
     else case (if IsZero (Pending_ExpiresAt pending)
                then (case time_Now R w of (t, w') \<Rightarrow>
                        (pending\<lparr>Pending_ExpiresAt := t + store_ttl s\<rparr>, w'))
                else (pending, w)) of (pending, w) \<Rightarrow>
       purgeExpiredLocked R (s\<lparr>items := (items s)(state \<mapsto> pending)\<rparr>, w))"

definition memory_Consume ::
    "'w Runtime \<Rightarrow> string \<Rightarrow> memoryKYCStateStore \<times> 'w \<Rightarrow> KYCPending option \<times> memoryKYCStateStore \<times> 'w" where
  "memory_Consume R state = (\<lambda>sw. case purgeExpiredLocked R sw of (s, w) \<Rightarrow>
     (case items s state of
        None \<Rightarrow> (None, s, w)
      | Some pending \<Rightarrow>
          (case time_Now R w of (t, w') \<Rightarrow>
             let s' = s\<lparr>items := (items s)(state := None)\<rparr> in
             if After t (Pending_ExpiresAt pending) then (None, s', w') else (Some pending, s', w'))))"

definition memory_store :: "'w Runtime \<Rightarrow> (memoryKYCStateStore \<times> 'w) KYCStateStore" where
  "memory_store R = \<lparr>store_Save = memory_Save R, store_Consume = memory_Consume R\<rparr>"

lemma drop_expired_le: "drop_expired t m \<subseteq>\<^sub>m m"
  by (auto simp: map_le_def drop_expired_def dom_def split: option.splits if_splits)

lemma drop_expired_live: "drop_expired t m k = Some v \<Longrightarrow> m k = Some v \<and> t \<le> Pending_ExpiresAt v"
  by (auto simp: drop_expired_def After_def split: option.splits if_splits)

lemma purge_le: "items (fst (purgeExpiredLocked R sw)) \<subseteq>\<^sub>m items (fst sw)"
  using drop_expired_le by (auto simp: purgeExpiredLocked_def split: prod.splits)

text \<open>
  What \<open>Save\<close> puts in: the pending attempt, with \<open>now + ttl\<close> as its expiry when the caller
  gave none.
\<close>

lemma memory_Save_eq:
  assumes "s \<noteq> []"
  obtains p' w1 where "Pending_InternalUserID p' = Pending_InternalUserID p"
    and "Pending_Email p' = Pending_Email p"
    and "IsZero (Pending_ExpiresAt p) \<Longrightarrow>
      \<exists>t. time_Now R w = (t, w1) \<and> Pending_ExpiresAt p' = t + store_ttl st"
    and "memory_Save R s p (st, w) = purgeExpiredLocked R (st\<lparr>items := (items st)(s \<mapsto> p')\<rparr>, w1)"
proof (cases "IsZero (Pending_ExpiresAt p)")
  case True
  then show ?thesis using assms
    by (intro that [of "p\<lparr>Pending_ExpiresAt := fst (time_Now R w) + store_ttl st\<rparr>" "snd (time_Now R w)"])
      (auto simp: memory_Save_def split: prod.splits)
next
  case False
  then show ?thesis using assms by (intro that [of p w]) (auto simp: memory_Save_def)
qed

lemma memory_Save_empty [simp]: "memory_Save R [] p sw = sw"
  by (cases sw) (simp add: memory_Save_def)

lemma memory_Save_bound:
  assumes "s \<noteq> []"
  shows "\<exists>p'. Pending_InternalUserID p' = Pending_InternalUserID p \<and> Pending_Email p' = Pending_Email p
     \<and> items (fst (memory_Save R s p sw)) \<subseteq>\<^sub>m (items (fst sw))(s \<mapsto> p')"
proof -
  obtain st w where sw: "sw = (st, w)" by fastforce
  from assms obtain p' w1 where "Pending_InternalUserID p' = Pending_InternalUserID p"
      "Pending_Email p' = Pending_Email p"
      and eq: "memory_Save R s p (st, w) = purgeExpiredLocked R (st\<lparr>items := (items st)(s \<mapsto> p')\<rparr>, w1)"
    by (rule memory_Save_eq)
  then show ?thesis
    using purge_le [of R "(st\<lparr>items := (items st)(s \<mapsto> p')\<rparr>, w1)"] by (auto simp: sw)
qed

lemma memory_Consume_hit:
  assumes "memory_Consume R s (st, w) = (Some p, st', w')"
  shows "items st s = Some p"
    and "\<exists>t w1. time_Now R w1 = (t, w') \<and> t \<le> Pending_ExpiresAt p"
    and "items st' s = None"
  using assms
  by (auto simp: memory_Consume_def purgeExpiredLocked_def Let_def After_def
      dest!: drop_expired_live split: prod.splits option.splits if_splits)

lemma memory_Consume_after:
  assumes "memory_Consume R s (st, w) = (r, st', w')"
  shows "items st' s = None" and "items st' \<subseteq>\<^sub>m items st" and "store_ttl st' = store_ttl st"
  using assms drop_expired_le
  by (auto simp: memory_Consume_def purgeExpiredLocked_def Let_def map_le_def dom_def
      drop_expired_def split: prod.splits option.splits if_splits)

interpretation kyc_store: one_time_store "memory_store R" "\<lambda>sw. items (fst sw)" for R
proof unfold_locales
  fix p sw s r sw'
  show "items (fst (store_Save (memory_store R) [] p sw)) = items (fst sw)"
    by (simp add: memory_store_def)
  show "s \<noteq> [] \<Longrightarrow> \<exists>p'. Pending_InternalUserID p' = Pending_InternalUserID p
      \<and> Pending_Email p' = Pending_Email p
      \<and> items (fst (store_Save (memory_store R) s p sw)) \<subseteq>\<^sub>m (items (fst sw))(s \<mapsto> p')"
    by (simp add: memory_store_def memory_Save_bound)
  show "store_Consume (memory_store R) s sw = (Some p, sw') \<Longrightarrow> items (fst sw) s = Some p"
    by (cases sw; cases sw') (auto simp: memory_store_def dest: memory_Consume_hit)
  show "store_Consume (memory_store R) s sw = (r, sw') \<Longrightarrow> items (fst sw') s = None"
    by (cases sw; cases sw') (auto simp: memory_store_def dest: memory_Consume_after)
  show "store_Consume (memory_store R) s sw = (r, sw') \<Longrightarrow> items (fst sw') \<subseteq>\<^sub>m items (fst sw)"
    by (cases sw; cases sw') (auto simp: memory_store_def dest: memory_Consume_after)
qed

subsection \<open>Properties\<close>

text \<open>
  C21. A pending attempt is one-time: from an empty store, in any history of calls, a state
  is redeemed successfully at most as often as it was saved.
\<close>

theorem oauth_state_is_one_time:
  "hits_of s (fst (run_store (memory_store R) cs (newMemoryKYCStateStore ttl, w))) \<le> saves_of s cs"
  using kyc_store.redeemed_le_saved [OF prod.collapse [symmetric], of s R cs "(newMemoryKYCStateStore ttl, w)"]
  by (simp add: newMemoryKYCStateStore_def)

text \<open>
  Whoever redeems a state gets the user and the e-mail that some call saved under that
  very state, which is not empty: no other user's attempt can come out.
\<close>

theorem redeemed_attempt_was_bound:
  assumes "(s, q) \<in> set (fst (run_store (memory_store R) cs (newMemoryKYCStateStore ttl, w)))"
  shows "\<exists>p. Save s p \<in> set cs \<and> Pending_InternalUserID p = Pending_InternalUserID q
     \<and> Pending_Email p = Pending_Email q"
  using kyc_store.redeemed_was_saved [OF prod.collapse [symmetric] assms]
  by (simp add: newMemoryKYCStateStore_def)

text \<open>A clock for the witnesses: a counter of nanoseconds.\<close>

definition tick_runtime :: "int Runtime" where
  "tick_runtime = \<lparr>time_Now = (\<lambda>t. (t, t + 1)), rand_Read = (\<lambda>n. throw (External ''no entropy'')),
     rand_Int = (\<lambda>n. throw (External ''no entropy'')), os_Getenv = (\<lambda>k. []),
     log_Logger = \<lparr>Logger_Level = None, Logger_Fields = []\<rparr>, log_Write = (\<lambda>e w. w),
     otel_Start = (\<lambda>t n k a c w. ((c, None), w)), otel_Span = (\<lambda>h k w. w), otel_Inject = (\<lambda>c. [])\<rparr>"

definition attempt :: "int \<Rightarrow> KYCPending" where
  "attempt i = \<lparr>Pending_InternalUserID = i, Pending_Email = [], Pending_ExpiresAt = 0\<rparr>"

theorem redeemed_attempt_was_bound_witness:
  "let hs = fst (run_store (memory_store tick_runtime) [Save ''s'' (attempt 7), Consume ''s'']
      (newMemoryKYCStateStore 0, 100))
   in \<exists>q. hs = [(''s'', q)] \<and> Pending_InternalUserID q = 7"
proof -
  define hs where "hs = fst (run_store (memory_store tick_runtime) [Save ''s'' (attempt 7), Consume ''s'']
      (newMemoryKYCStateStore 0, 100))"
  have "map fst hs = [''s'']" unfolding hs_def by code_simp
  then obtain q where q: "hs = [(''s'', q)]" by (cases hs) auto
  then have "(''s'', q) \<in> set hs" by simp
  then have "Pending_InternalUserID q = 7"
    unfolding hs_def by (drule_tac redeemed_attempt_was_bound) (simp add: attempt_def)
  with q show ?thesis by (simp add: hs_def [symmetric] Let_def del: run_store.simps)
qed

lemma run_store_ttl:
  "run_store (memory_store R) cs (st, w) = (hs, st', w') \<Longrightarrow> store_ttl st' = store_ttl st"
proof (induction cs arbitrary: st w hs)
  case (Cons c cs)
  show ?case
  proof (cases c)
    case (Save s p)
    obtain st1 w1 where sv: "memory_Save R s p (st, w) = (st1, w1)" by fastforce
    then have "store_ttl st1 = store_ttl st"
      by (auto simp: memory_Save_def purgeExpiredLocked_def split: if_splits prod.splits)
    with Cons sv Save show ?thesis by (simp add: memory_store_def)
  next
    case (Consume s)
    obtain r st1 w1 where c: "memory_Consume R s (st, w) = (r, st1, w1)" by (metis prod_cases3)
    obtain hs1 where "run_store (memory_store R) cs (st1, w1) = (hs1, st', w')"
      using Cons.prems c Consume by (auto simp: memory_store_def split: prod.splits)
    from Cons.IH [OF this] memory_Consume_after(3) [OF c] show ?thesis by simp
  qed
qed simp

text \<open>
  C22. An attempt saved without an expiry is redeemed only within the time to live of the
  store: whatever is called in between, short of saving the state again, the clock read
  when it comes out shows at most the time it was saved plus the time to live.
\<close>

theorem redeemed_within_ttl:
  assumes "s \<noteq> []" and "IsZero (Pending_ExpiresAt p)"
    and "memory_Save R s p (st, w) = (st1, w1)"
    and "run_store (memory_store R) cs (st1, w1) = (hs, st2, w2)" and "saves_of s cs = 0"
    and "memory_Consume R s (st2, w2) = (Some q, st3, w3)"
  shows "Pending_InternalUserID q = Pending_InternalUserID p
    \<and> (\<exists>t wt. time_Now R wt = (t, w3) \<and> t \<le> fst (time_Now R w) + store_ttl st)"
proof -
  from assms(1) obtain p' wt where p': "Pending_InternalUserID p' = Pending_InternalUserID p"
    and exp: "\<exists>t. time_Now R w = (t, wt) \<and> Pending_ExpiresAt p' = t + store_ttl st"
    and sv: "memory_Save R s p (st, w) = purgeExpiredLocked R (st\<lparr>items := (items st)(s \<mapsto> p')\<rparr>, wt)"
    by (rule memory_Save_eq) (use assms(2) in blast)
  have st1: "st1 = fst (purgeExpiredLocked R (st\<lparr>items := (items st)(s \<mapsto> p')\<rparr>, wt))"
    using sv assms(3) by (metis fst_conv)
  have "items st2 s = Some q" by (rule memory_Consume_hit(1) [OF assms(6)])
  then have "items st1 s = Some q"
    using kyc_store.run_keeps_binding [OF assms(4,5)] by simp
  then have "q = p'"
    using map_leD [OF purge_le, of R "(st\<lparr>items := (items st)(s \<mapsto> p')\<rparr>, wt)" s q] by (simp add: st1)
  with memory_Consume_hit(2) [OF assms(6)] exp p' show ?thesis by auto
qed

theorem redeemed_within_ttl_witness:
  "let run = memory_Consume tick_runtime ''s'' (memory_Save tick_runtime ''s'' (attempt 7) (newMemoryKYCStateStore 50, 100))
   in \<exists>q t wt. fst run = Some q \<and> time_Now tick_runtime wt = (t, snd (snd run)) \<and> t \<le> 150"
proof -
  define sv where "sv = memory_Save tick_runtime ''s'' (attempt 7) (newMemoryKYCStateStore 50, 100)"
  define run where "run = memory_Consume tick_runtime ''s'' sv"
  have "map_option Pending_InternalUserID (fst run) = Some 7" unfolding run_def sv_def by code_simp
  then obtain q where q: "fst run = Some q" by auto
  have "\<exists>t wt. time_Now tick_runtime wt = (t, snd (snd run))
      \<and> t \<le> fst (time_Now tick_runtime 100) + store_ttl (newMemoryKYCStateStore 50)"
  proof (rule redeemed_within_ttl [THEN conjunct2])
    show "memory_Save tick_runtime ''s'' (attempt 7) (newMemoryKYCStateStore 50, 100) = (fst sv, snd sv)"
      by (simp add: sv_def)
    show "run_store (memory_store tick_runtime) [] (fst sv, snd sv) = ([], fst sv, snd sv)" by simp
    show "memory_Consume tick_runtime ''s'' (fst sv, snd sv) = (Some q, fst (snd run), snd (snd run))"
      using q by (simp add: run_def prod_eq_iff)
  qed (simp_all add: attempt_def IsZero_def)
  then have "\<exists>t wt. time_Now tick_runtime wt = (t, snd (snd run)) \<and> t \<le> 150"
    by (simp add: tick_runtime_def newMemoryKYCStateStore_def)
  with q show ?thesis by (auto simp: run_def sv_def Let_def)
qed

text \<open>Entries that outlive a bound on the clock survive every call that does not redeem them.\<close>

lemma purge_keeps:
  assumes "\<And>w. fst (time_Now R w) \<le> T" and "items st s = Some p" and "T \<le> Pending_ExpiresAt p"
  shows "items (fst (purgeExpiredLocked R (st, w))) s = Some p"
  using assms(1) [of w] assms(2,3)
  by (auto simp: purgeExpiredLocked_def drop_expired_def After_def split: prod.splits)

lemma save_keeps:
  assumes "\<And>w. fst (time_Now R w) \<le> T" and "items st s = Some p" and "T \<le> Pending_ExpiresAt p" and "s' \<noteq> s"
  shows "items (fst (memory_Save R s' p' (st, w))) s = Some p"
proof (cases "s' = []")
  case False
  then obtain p2 w1 where "memory_Save R s' p' (st, w) = purgeExpiredLocked R (st\<lparr>items := (items st)(s' \<mapsto> p2)\<rparr>, w1)"
    by (rule memory_Save_eq) blast
  with assms show ?thesis
    using purge_keeps [OF assms(1), of "st\<lparr>items := (items st)(s' \<mapsto> p2)\<rparr>" s p w1] by simp
qed (simp add: assms)

lemma consume_other_keeps:
  assumes "\<And>w. fst (time_Now R w) \<le> T" and "items st s = Some p" and "T \<le> Pending_ExpiresAt p" and "s' \<noteq> s"
    and "memory_Consume R s' (st, w) = (r, st', w')"
  shows "items st' s = Some p"
proof -
  obtain st1 w1 where pu: "purgeExpiredLocked R (st, w) = (st1, w1)" by fastforce
  with purge_keeps [OF assms(1-3), of w] have "items st1 s = Some p" by simp
  with assms(4,5) pu show ?thesis
    by (auto simp: memory_Consume_def Let_def split: prod.splits option.splits if_splits)
qed

definition touches :: "string \<Rightarrow> store_call \<Rightarrow> bool" where
  "touches s c \<longleftrightarrow> (case c of Save s' p \<Rightarrow> s' = s | Consume s' \<Rightarrow> s' = s)"

lemma run_keeps:
  assumes T: "\<And>w. fst (time_Now R w) \<le> T"
  shows "run_store (memory_store R) cs (st, w) = (hs, st', w') \<Longrightarrow> list_all (\<lambda>c. \<not> touches s c) cs \<Longrightarrow>
    items st s = Some p \<Longrightarrow> T \<le> Pending_ExpiresAt p \<Longrightarrow> items st' s = Some p"
proof (induction cs arbitrary: st w hs)
  case (Cons c cs)
  show ?case
  proof (cases c)
    case (Save s1 p1)
    obtain st1 w1 where sv: "memory_Save R s1 p1 (st, w) = (st1, w1)" by fastforce
    have "items st1 s = Some p"
      using save_keeps [OF T Cons.prems(3,4), of s1 p1 w] Cons.prems(2) Save sv by (simp add: touches_def)
    with Cons sv Save show ?thesis by (simp add: memory_store_def)
  next
    case (Consume s1)
    obtain r st1 w1 where c: "memory_Consume R s1 (st, w) = (r, st1, w1)" by (metis prod_cases3)
    have "items st1 s = Some p"
      using consume_other_keeps [OF T Cons.prems(3,4) _ c] Cons.prems(2) Consume by (simp add: touches_def)
    moreover obtain hs1 where "run_store (memory_store R) cs (st1, w1) = (hs1, st', w')"
      using Cons.prems c Consume by (auto simp: memory_store_def split: prod.splits)
    ultimately show ?thesis using Cons by simp
  qed
qed simp


text \<open>A clock that stands still, for the witness.\<close>

definition still_runtime :: "int Runtime" where "still_runtime = tick_runtime\<lparr>time_Now := (\<lambda>t. (100, t))\<rparr>"


end
