(* ===== verification/ProfileLaws.thy ===== *)
theory ProfileLaws
  imports ProfileService RefEnv
begin

section \<open>What the profile service guarantees\<close>

text \<open>
  The profile service over any data access objects that meet their contracts (locale
  \<open>profile_service\<close>), then over the repository's own (interpretation \<open>profiles_impl\<close>): reads
  through the cache give the join of the tables, updates write what was asked for, the
  market is set once.
\<close>

definition cached_key :: "string \<Rightarrow> bool" where
  "cached_key k \<longleftrightarrow> mapping_key k \<or> profile_key k"

lemma only_cache_weaken: "only_cache K st st' \<Longrightarrow> (\<And>k. K k \<Longrightarrow> K' k) \<Longrightarrow> only_cache K' st st'"
  by (auto simp: only_cache_def)

lemma only_cached [intro]:
  "only_cache mapping_key st st' \<Longrightarrow> only_cache cached_key st st'"
  "only_cache profile_key st st' \<Longrightarrow> only_cache cached_key st st'"
  by (auto elim!: only_cache_weaken simp: cached_key_def)

lemma profile_not_mapping: "profile_key k \<Longrightarrow> \<not> mapping_key k"
  by (auto simp: profile_key_def)

lemma mappings_kept_profile: "only_cache profile_key st st' \<Longrightarrow> mappings_kept st st'"
  using profile_not_mapping by (auto simp: only_cache_def)

lemma mappings_kept_shrinks: "shrinks st st' \<Longrightarrow> mappings_kept st st'"
  by (auto dest: shrinksD)

lemma mappings_kept_trans: "mappings_kept a b \<Longrightarrow> mappings_kept b c \<Longrightarrow> mappings_kept a c"
  by (auto simp: mappings_kept_def)

lemma mappings_kept_updates:
  "mappings_kept st (update_user i u st)" "mappings_kept st (set_kyc_status i s st)"
  by auto

text \<open>
  \<open>fresh_all\<close>: with a cache in use, every entry the service reads is up to date.
\<close>

definition fresh_all ::
    "'w RedisClient option \<Rightarrow> (string \<Rightarrow> string \<Rightarrow> bool) \<Rightarrow> UserProfileAggregate Codec \<Rightarrow> Stores \<Rightarrow> bool" where
  "fresh_all C coll J st \<longleftrightarrow> C \<noteq> None \<longrightarrow> (\<forall>i > 0. fresh coll J i st)"

locale profile_service =
  users: user_table users S uok + mappings: mapping_table mappings S coll mok
  for users :: "'w UserDao" and mappings :: "'w UserAuthMappingDao" and S :: "'w \<Rightarrow> Stores"
    and coll :: "string \<Rightarrow> string \<Rightarrow> bool" and uok :: bool and mok :: "'w \<Rightarrow> bool" +
  fixes C :: "'w RedisClient option"
    and J :: "UserProfileAggregate Codec"

context profile_service begin

lemma GetUser_runs:
  "uok \<Longrightarrow> runs (svc_GetUser users c i) w
     (\<lambda>r w'. S w' = S w \<and> r = st_users (S w) i) (\<lambda>e w'. outside e \<and> S w' = S w)"
  unfolding svc_GetUser_def by (rule runs_tryA [OF users.get_runs]) auto

lemma GetProfile_runs:
  "uok \<Longrightarrow> runs (svc_GetProfile users c i email) w
     (\<lambda>r w'. S w' = S w \<and> (case st_users (S w) i of None \<Rightarrow> r = None
        | Some u \<Rightarrow> \<exists>vo. r = Some vo \<and> VO_Username vo = User_Name u \<and> VO_Email vo = MaskEmail email
            \<and> VO_Language vo = User_Language u \<and> VO_Market vo = User_Market u
            \<and> (VO_KYCChecked vo \<longleftrightarrow> User_KYCStatus u = KYCStatusPassed)))
     (\<lambda>e w'. outside e \<and> S w' = S w)"
  unfolding svc_GetProfile_def by (rule runs_bindA [OF GetUser_runs]) (auto split: option.splits)

lemma load_profile_runs:
  assumes "uok" and "mok w" and "keyed (S w)" and "0 < i"
  shows "runs (load_profile users mappings c i) w
     (\<lambda>p w'. profile_of coll i (S w) = Some p \<and> only_cache mapping_key (S w) (S w') \<and> mok w')
     (\<lambda>e w'. (e = ErrUserNotFound \<and> profile_of coll i (S w) = None \<or> outside e)
        \<and> only_cache mapping_key (S w) (S w') \<and> mok w')"
    (is "runs _ w ?P ?Q")
proof -
  have same: "mok w1" if "S w1 = S w" for w1
    using mappings.ok_frame [OF assms(2), of w1] that by auto
  show ?thesis
    unfolding load_profile_def
  proof (rule runs_tryA [OF users.get_runs [OF assms(1)]])
    fix r w1
    assume r: "S w1 = S w \<and> r = st_users (S w) i"
    then have w1: "mok w1" and S: "S w1 = S w" using same by auto
    show "runs (case r of None \<Rightarrow> throw ErrUserNotFound
       | Some user \<Rightarrow> tryA (dao_GetByInternalUserID mappings c i)
          (\<lambda>mapping. case mapping of None \<Rightarrow> throw ErrUserNotFound
           | Some mapping \<Rightarrow> ret \<lparr>Aggregate_UserID = User_ID user, Aggregate_Email = Mapping_Email mapping,
               Aggregate_Name = User_Name user, Aggregate_Market = User_Market user,
               Aggregate_KYCStatus = User_KYCStatus user, Aggregate_RegisteredAt = User_CreatedAt user\<rparr>)
          (\<lambda>err. throw (Wrapped ''get user auth mapping'' err))) w1 ?P ?Q"
    proof (cases r)
      case None
      then show ?thesis using r w1 by (auto simp: profile_of_def)
    next
      case (Some u)
      then have u: "st_users (S w) i = Some u" using r by simp
      then have "User_ID u = i" using assms(3) by (simp add: keyed_def)
      with u Some S show ?thesis
        using assms(4)
        by (auto intro!: runs_tryA [OF mappings.internal_runs [OF w1]] simp: profile_of_def split: option.splits)
    qed
  qed (use same in auto)
qed

lemma GetUserProfile_runs:
  assumes "uok" and "mok w" and "cache_client_ok S C" and "codec_ok J" and "keyed (S w)"
    and fr: "fresh_all C coll J (S w)"
  shows "runs (svc_GetUserProfile users mappings C J c i) w
     (\<lambda>p w'. 0 < i \<and> profile_of coll i (S w) = Some p \<and> only_cache cached_key (S w) (S w')
        \<and> fresh_all C coll J (S w') \<and> mok w')
     (\<lambda>e w'. (e = ErrInvalidArgument \<and> i \<le> 0 \<or> 0 < i \<and> e = ErrUserNotFound \<and> profile_of coll i (S w) = None
           \<or> 0 < i \<and> outside e)
        \<and> only_cache cached_key (S w) (S w') \<and> fresh_all C coll J (S w') \<and> mok w')"
    (is "runs _ w ?P ?Q")
proof (cases "i \<le> 0")
  case True
  then show ?thesis using assms by (auto simp: svc_GetUserProfile_def)
next
  case False
  have shr: "mok w1 \<and> keyed (S w1) \<and> fresh_all C coll J (S w1)" if sh: "shrinks (S w) (S w1)" for w1
  proof (intro conjI)
    show "mok w1" by (rule mappings.ok_frame [OF assms(2) mappings_kept_shrinks [OF sh]])
    show "keyed (S w1)" by (rule keyed_cong [OF assms(5) shrinksD(1) [OF sh]])
    have "fresh coll J j (S w) \<Longrightarrow> fresh coll J j (S w1)" for j by (rule fresh_shrinks [OF _ sh])
    then show "fresh_all C coll J (S w1)" using fr by (auto simp: fresh_all_def)
  qed
  have miss: "runs (bindA (load_profile users mappings c i) (\<lambda>p.
      seqA (setUserProfileCache C J c (Some p)) (ret p))) w1 ?P ?Q" if sh: "shrinks (S w) (S w1)" for w1
  proof (rule runs_bindA [OF load_profile_runs])
    show "uok" "mok w1" "keyed (S w1)" "0 < i" using assms False shr [OF sh] by auto
    have pr: "profile_of coll i (S w1) = profile_of coll i (S w)"
      by (rule profile_of_cong) (simp_all add: shrinksD [OF sh])
    have frame: "fresh_all C coll J (S w2) \<and> only_cache cached_key (S w) (S w2)"
      if "only_cache mapping_key (S w1) (S w2)" for w2
      using that shr [OF sh] fresh_other only_cached only_cache_trans [OF only_cache_shrink [OF sh]]
      by (auto simp: fresh_all_def)
    {
      fix p w2
      assume p: "profile_of coll i (S w1) = Some p \<and> only_cache mapping_key (S w1) (S w2) \<and> mok w2"
      then have p2: "profile_of coll i (S w2) = Some p"
        using profile_of_cong [of "S w2" i "S w1" coll] only_cacheD(1,2) by metis
      show "runs (seqA (setUserProfileCache C J c (Some p)) (ret p)) w2 ?P ?Q"
      proof (rule runs_bindA [OF setUserProfileCache_runs [OF assms(3,4) p2]])
        fix u w3
        assume w3: "only_cache profile_key (S w2) (S w3) \<and> (\<forall>j. fresh coll J j (S w2) \<longrightarrow> fresh coll J j (S w3))"
        then have "mok w3" using p mappings.ok_frame mappings_kept_profile by blast
        moreover have "fresh_all C coll J (S w3)" using w3 frame p by (auto simp: fresh_all_def)
        moreover have "only_cache cached_key (S w) (S w3)"
          using w3 frame p only_cache_trans by blast
        ultimately show "runs (ret p) w3 ?P ?Q" using p pr False by auto
      qed simp
    }
    fix e w2
    assume "(e = ErrUserNotFound \<and> profile_of coll i (S w1) = None \<or> outside e)
        \<and> only_cache mapping_key (S w1) (S w2) \<and> mok w2"
    then show "?Q e w2" using frame pr False by auto
  qed
  have "runs (case r of None \<Rightarrow> bindA (load_profile users mappings c i) (\<lambda>p.
      seqA (setUserProfileCache C J c (Some p)) (ret p)) | Some p \<Rightarrow> ret p) w1 ?P ?Q"
    if "\<forall>p. r = Some p \<longrightarrow> profile_of coll i (S w) = Some p" "shrinks (S w) (S w1)" for r w1
    using that miss shr [OF that(2)] only_cache_shrink [OF that(2)] False by (cases r) auto
  then show ?thesis
    unfolding svc_GetUserProfile_def using False fr
    by (auto simp: fresh_all_def intro!: runs_bindA [OF getUserProfileCache_runs [OF assms(3), where Q = "\<lambda>_ _. False"]])
qed

lemma plan_update_runs:
  "uok \<Longrightarrow> runs (plan_update users c i req) w
     (\<lambda>r w'. S w' = S w \<and> (\<exists>rq u. req = Some rq \<and> st_users (S w) i = Some u \<and> request_error u rq = None
        \<and> r = (if requested u rq = zero_User then None else Some (requested u rq))))
     (\<lambda>e w'. S w' = S w \<and> (req = None \<and> e = ErrInvalidArgument
        \<or> (\<exists>rq. req = Some rq \<and> (outside e
             \<or> (case st_users (S w) i of None \<Rightarrow> e = ErrUserNotFound | Some u \<Rightarrow> request_error u rq = Some e)))))"
  unfolding plan_update_def
  by (cases req; simp; rule runs_bindA [OF GetUser_runs]) (auto simp: buildProfileUpdate_eq split: option.splits)

lemma UpdateProfile_runs:
  assumes "uok" and "cache_client_ok S C"
  shows "runs (svc_UpdateProfile users C c i req) w
     (\<lambda>_ w'. \<exists>rq u. req = Some rq \<and> st_users (S w) i = Some u \<and> request_error u rq = None
        \<and> shrinks (update_user i (requested u rq) (S w)) (S w')
        \<and> (requested u rq = zero_User \<longrightarrow> S w' = S w)
        \<and> (requested u rq \<noteq> zero_User \<longrightarrow> answering C \<longrightarrow> C \<noteq> None \<longrightarrow> 0 < i
             \<longrightarrow> st_cache (S w') (userProfileCacheKey i) = None))
     (\<lambda>e w'. S w' = S w \<and> (req = None \<and> e = ErrInvalidArgument
          \<or> (\<exists>rq. req = Some rq \<and> (case st_users (S w) i of None \<Rightarrow> e = ErrUserNotFound
                | Some u \<Rightarrow> request_error u rq = Some e)))
        \<or> outside e \<and> (S w' = S w \<or> (\<exists>rq u. req = Some rq \<and> st_users (S w) i = Some u
             \<and> request_error u rq = None \<and> S w' = update_user i (requested u rq) (S w))))"
    (is "runs _ w ?P ?Q")
proof -
  have zero: "update_user i zero_User st = st" if "st_users st i = Some u" for st u
  proof -
    have "merge_User zero_User u = u" by (simp add: merge_User_def)
    with that show ?thesis by (simp add: update_user_def fun_upd_idem)
  qed
  have "runs (case r of None \<Rightarrow> ret ()
      | Some update \<Rightarrow> seqA (dao_UpdateProfile users c i (Some update)) (InvalidateUserProfileCache C c i)) w1 ?P ?Q"
    if w1: "S w1 = S w" and rq: "req = Some rq" "st_users (S w) i = Some u" "request_error u rq = None"
      and r: "r = (if requested u rq = zero_User then None else Some (requested u rq))" for r w1 rq u
  proof (cases "requested u rq = zero_User")
    case True
    then show ?thesis using w1 rq r zero [OF rq(2)] by auto
  next
    case False
    have "runs (InvalidateUserProfileCache C c i) w2 ?P ?Q" if "S w2 = update_user i (requested u rq) (S w)" for w2
      by (rule runs_mono [OF InvalidateUserProfileCache_runs [OF assms(2), where Q = "\<lambda>_ _. False"]])
        (use that rq False in auto)
    then show ?thesis
      using False r w1 rq assms(1) by (auto intro!: runs_bindA [OF users.profile_runs])
  qed
  note save = this
  show ?thesis
    unfolding svc_UpdateProfile_def finish_update_def
  proof (rule runs_bindA [OF plan_update_runs [OF assms(1)]])
    fix r w1
    assume "S w1 = S w \<and> (\<exists>rq u. req = Some rq \<and> st_users (S w) i = Some u \<and> request_error u rq = None
        \<and> r = (if requested u rq = zero_User then None else Some (requested u rq)))"
    then show "runs (case r of None \<Rightarrow> ret () | Some update \<Rightarrow> seqA (dao_UpdateProfile users c i (Some update))
        (InvalidateUserProfileCache C c i)) w1 ?P ?Q"
      using save by blast
  qed (auto split: option.splits)
qed

lemma UpdateProfile_step:
  assumes "uok" and "cache_client_ok S C" and "svc_UpdateProfile users C c i req w = (r, w')"
  shows "st_users (S w') = st_users (S w) \<or> (\<exists>rq u. req = Some rq \<and> st_users (S w) i = Some u
      \<and> request_error u rq = None \<and> st_users (S w') = (st_users (S w))(i \<mapsto> merge_User (requested u rq) u))"
  using UpdateProfile_runs [OF assms(1,2), of c i req w] assms(3)
  by (cases r) (auto simp: runs_def updated_row dest!: shrinksD(1) simp del: update_user_simps(4))

lemma UpdateProfile_mok:
  assumes "uok" and "mok w" and "cache_client_ok S C" and "svc_UpdateProfile users C c i req w = (r, w')"
  shows "mok w'"
proof (rule mappings.ok_frame [OF assms(2)])
  show "mappings_kept (S w) (S w')"
    using UpdateProfile_runs [OF assms(1,3), of c i req w] assms(4)
      mappings_kept_trans [OF mappings_kept_updates(1) mappings_kept_shrinks] mappings_kept_updates(1)
    by (cases r) (auto simp: runs_def)
qed

end

text \<open>A history of updates, each by some request, whatever each returns.\<close>

fun run_updates ::
    "'w UserDao \<Rightarrow> 'w RedisClient option \<Rightarrow> (ctx \<times> int \<times> UpdateUserProfileRequest option) list \<Rightarrow> 'w \<Rightarrow> 'w" where
  "run_updates users C [] w = w"
| "run_updates users C ((c, i, req) # calls) w =
     run_updates users C calls (snd (svc_UpdateProfile users C c i req w))"

context profile_service begin

lemma market_kept_step:
  assumes "uok" and "cache_client_ok S C" and "st_users (S w) i = Some u" and "TrimSpace (User_Market u) \<noteq> []"
  shows "\<exists>u'. st_users (S (snd (svc_UpdateProfile users C c j req w))) i = Some u' \<and> User_Market u' = User_Market u"
  using UpdateProfile_step [OF assms(1,2) prod.collapse [symmetric], of c j req w] assms(3,4)
  by auto

lemma market_kept:
  "uok \<Longrightarrow> cache_client_ok S C \<Longrightarrow> st_users (S w) i = Some u \<Longrightarrow> TrimSpace (User_Market u) \<noteq> [] \<Longrightarrow>
    \<exists>u'. st_users (S (run_updates users C calls w)) i = Some u' \<and> User_Market u' = User_Market u"
proof (induction calls arbitrary: w u)
  case Nil
  then show ?case by simp
next
  case (Cons call calls)
  obtain c j req where call: "call = (c, j, req)" by (cases call)
  let ?w1 = "snd (svc_UpdateProfile users C c j req w)"
  obtain u1 where u1: "st_users (S ?w1) i = Some u1" "User_Market u1 = User_Market u"
    using market_kept_step [OF Cons.prems] by blast
  with Cons.IH [OF Cons.prems(1,2) u1(1)] Cons.prems(4) show ?case by (simp add: call)
qed

end

text \<open>Rows whose market and language are unset or among the supported ones.\<close>

definition valid_row :: "User \<Rightarrow> bool" where
  "valid_row u \<longleftrightarrow> (User_Market u = [] \<or> IsValidMarket (User_Market u))
     \<and> (User_Language u = [] \<or> IsValidLanguage (User_Language u))"

definition valid_rows :: "Stores \<Rightarrow> bool" where
  "valid_rows st \<longleftrightarrow> (\<forall>i u. st_users st i = Some u \<longrightarrow> valid_row u)"

lemma valid_row_merge:
  "valid_row u \<Longrightarrow> request_error u rq = None \<Longrightarrow> valid_row (merge_User (requested u rq) u)"
  using request_error_None [of u rq] by (auto simp: valid_row_def nonzero_def)

context profile_service begin

lemma valid_rows_kept:
  "uok \<Longrightarrow> cache_client_ok S C \<Longrightarrow> valid_rows (S w) \<Longrightarrow> valid_rows (S (run_updates users C calls w))"
proof (induction calls arbitrary: w)
  case (Cons call calls)
  obtain c j req where call: "call = (c, j, req)" by (cases call)
  have "valid_rows (S (snd (svc_UpdateProfile users C c j req w)))"
    using UpdateProfile_step [OF Cons.prems(1,2) prod.collapse [symmetric], of c j req w] Cons.prems(3)
      valid_row_merge
    by (auto simp: valid_rows_def split: if_splits)
  with Cons show ?case by (simp add: call)
qed simp

end

interpretation profiles_impl: profile_service "UserDaoImpl db" "UserAuthMappingDaoImpl db C JM" S coll
    "db_ok S coll db" "mapping_world_ok S coll db C JM" C J for db C JM S coll J
  by unfold_locales

subsection \<open>Properties\<close>

text \<open>
  \<open>profile_world\<close>: the clients behave as documented, a cached mapping is the row's, and a
  row of users is filed under its own id.
\<close>

definition profile_world ::
    "('w \<Rightarrow> Stores) \<Rightarrow> (string \<Rightarrow> string \<Rightarrow> bool) \<Rightarrow> 'w GormDB option \<Rightarrow> 'w RedisClient option
      \<Rightarrow> UserAuthMapping Codec \<Rightarrow> UserProfileAggregate Codec \<Rightarrow> 'w \<Rightarrow> bool" where
  "profile_world S coll db C JM J w \<longleftrightarrow> mapping_world_ok S coll db C JM w \<and> codec_ok J \<and> keyed (S w)"

lemma profile_worldD:
  assumes "profile_world S coll db C JM J w"
  shows "db_ok S coll db" "mapping_world_ok S coll db C JM w" "cache_client_ok S C" "codec_ok J" "keyed (S w)"
  using assms by (simp_all add: profile_world_def mapping_world_ok_def)

text \<open>The reference deployment the witnesses use: one user, in-memory servers.\<close>

definition alice_profile :: "string \<Rightarrow> string \<Rightarrow> UserProfileAggregate" where
  "alice_profile name market = \<lparr>Aggregate_UserID = 1, Aggregate_Email = ''alice@example.com'',
     Aggregate_Name = name, Aggregate_Market = market, Aggregate_KYCStatus = KYCStatusPending,
     Aggregate_RegisteredAt = User_CreatedAt alice\<rparr>"

definition ref_profile_codec :: "UserProfileAggregate Codec" where
  "ref_profile_codec = table_codec [(''old'', alice_profile ''alice'' []), (''new'', alice_profile ''bob'' ''SG'')]"

definition ref_mapping_codec :: "UserAuthMapping Codec" where
  "ref_mapping_codec = table_codec [(''m1'', alice_mapping)]"

abbreviation ref_users :: "refw UserDao" where "ref_users \<equiv> UserDaoImpl (Some ref_gorm)"

abbreviation ref_mappings :: "refw UserAuthMappingDao" where
  "ref_mappings \<equiv> UserAuthMappingDaoImpl (Some ref_gorm) (Some ref_redis) ref_mapping_codec"

definition ask :: "string \<Rightarrow> string \<Rightarrow> UpdateUserProfileRequest" where
  "ask name market = \<lparr>Update_Username = name, Update_Language = [], Update_Market = market\<rparr>"

lemma keyed_ref_world: "keyed (rw_stores (ref_world us ms))"
  by (auto simp: keyed_def dest: map_of_SomeD)

lemma ref_db_ok [simp]: "db_ok rw_stores (=) (Some ref_gorm)"
  by (simp add: db_ok_def ref_gorm_ok)

lemma ref_cache_ok [simp]: "cache_client_ok rw_stores (Some ref_redis)"
  by (simp add: cache_client_ok_def ref_redis_ok)

lemma ref_answering [simp]: "answering (Some ref_redis)"
  by (simp add: answering_def ref_redis_def)

lemma ref_mapping_world: "mapping_world_ok rw_stores (=) (Some ref_gorm) (Some ref_redis) ref_mapping_codec (ref_world us ms)"
proof -
  have "codec_ok ref_mapping_codec" by (simp add: ref_mapping_codec_def table_codec_ok)
  then show ?thesis by (simp add: mapping_world_ok_def collation_def mapping_cache_ok_def)
qed

lemma ref_profile_world:
  "profile_world rw_stores (=) (Some ref_gorm) (Some ref_redis) ref_mapping_codec ref_profile_codec (ref_world us ms)"
proof -
  have "codec_ok ref_profile_codec" by (simp add: ref_profile_codec_def table_codec_ok)
  with ref_mapping_world keyed_ref_world show ?thesis by (simp add: profile_world_def)
qed

lemma ref_fresh: "fresh_all C coll J (rw_stores (ref_world us ms))"
  by (simp add: fresh_all_def fresh_def)

text \<open>
  C16. Reading a profile by gRPC, from the cache or not, gives exactly the join of the two
  tables; it reports an invalid argument only for ids that are not positive and a missing
  user only if there is no such row; it never panics, and the cache stays up to date.
\<close>

theorem profile_reads_are_true:
  assumes "profile_world S coll db C JM J w" and "fresh_all C coll J (S w)"
    and "svc_GetUserProfile (UserDaoImpl db) (UserAuthMappingDaoImpl db C JM) C J c i w = (r, w')"
  shows "(case r of
      Ok p \<Rightarrow> 0 < i \<and> profile_of coll i (S w) = Some p
    | Err e \<Rightarrow> e = ErrInvalidArgument \<and> i \<le> 0 \<or> 0 < i \<and> e = ErrUserNotFound \<and> profile_of coll i (S w) = None
        \<or> 0 < i \<and> outside e
    | Panicked m \<Rightarrow> False)
    \<and> fresh_all C coll J (S w') \<and> only_cache cached_key (S w) (S w')"
proof -
  note ok = profile_worldD [OF assms(1)]
  from profiles_impl.GetUserProfile_runs [OF ok(1) ok(2) ok(3) ok(4) ok(5) assms(2), of c i] assms(3)
  show ?thesis by (cases r) (auto simp: runs_def)
qed

theorem profile_reads_are_true_witness:
  "case fst (svc_GetUserProfile ref_users ref_mappings (Some ref_redis) ref_profile_codec Background 1 alice_world) of
      Ok p \<Rightarrow> profile_of (=) 1 (rw_stores alice_world) = Some p | _ \<Rightarrow> False"
proof -
  let ?run = "svc_GetUserProfile ref_users ref_mappings (Some ref_redis) ref_profile_codec Background 1 alice_world"
  have "is_Ok (fst ?run)" by code_simp
  then obtain p where p: "fst ?run = Ok p" by (rule is_OkE)
  have "profile_world rw_stores (=) (Some ref_gorm) (Some ref_redis) ref_mapping_codec ref_profile_codec alice_world"
    unfolding alice_world_def by (rule ref_profile_world)
  moreover have "fresh_all (Some ref_redis) (=) ref_profile_codec (rw_stores alice_world)"
    unfolding alice_world_def by (rule ref_fresh)
  ultimately show ?thesis
    using profile_reads_are_true [OF _ _ prod.collapse [symmetric], where S = rw_stores and coll = "(=)" and db = "Some ref_gorm"
        and C = "Some ref_redis" and JM = ref_mapping_codec and J = ref_profile_codec and w = alice_world
        and c = Background and i = 1] p
    by simp
qed

text \<open>
  The market of a user is chosen once: whatever updates are requested afterwards, by
  whomever and however each of them ends, the market that was set stays.
\<close>

theorem market_is_set_once:
  assumes "db_ok S coll db" and "cache_client_ok S C"
    and "st_users (S w) i = Some u" and "TrimSpace (User_Market u) \<noteq> []"
  shows "\<exists>u'. st_users (S (run_updates (UserDaoImpl db) C calls w)) i = Some u' \<and> User_Market u' = User_Market u"
  by (rule profiles_impl.market_kept [OF assms])

definition alice_in_SG :: refw where "alice_in_SG = ref_world [alice\<lparr>User_Market := ''SG''\<rparr>] [alice_mapping]"

theorem market_is_set_once_witness:
  "\<exists>u. st_users (rw_stores (run_updates ref_users (Some ref_redis)
      [(Background, 1, Some (ask ''bob'' [])), (Background, 1, Some (ask [] ''HK''))] alice_in_SG)) 1 = Some u
    \<and> User_Market u = ''SG''"
proof -
  let ?u = "alice\<lparr>User_Market := ''SG''\<rparr>"
  have "st_users (rw_stores alice_in_SG) 1 = Some ?u" by (simp add: alice_in_SG_def alice_def)
  moreover have "TrimSpace (User_Market ?u) \<noteq> []" by code_simp
  ultimately show ?thesis
    using market_is_set_once [OF ref_db_ok ref_cache_ok, of alice_in_SG 1 ?u] by (simp del: run_updates.simps)
qed

text \<open>
  The table never holds a market or a language that is not supported: rows that are
  valid stay valid under any history of update requests.
\<close>

theorem updates_keep_rows_valid:
  assumes "db_ok S coll db" and "cache_client_ok S C" and "valid_rows (S w)"
  shows "valid_rows (S (run_updates (UserDaoImpl db) C calls w))"
  by (rule profiles_impl.valid_rows_kept [OF assms])

theorem updates_keep_rows_valid_witness:
  "valid_rows (rw_stores (run_updates ref_users (Some ref_redis)
      [(Background, 1, Some (ask ''bob'' ''Mars'')), (Background, 1, Some (ask [] ''HK''))] alice_world))"
proof (rule updates_keep_rows_valid [OF ref_db_ok ref_cache_ok])
  show "valid_rows (rw_stores alice_world)"
    by (simp add: valid_rows_def valid_row_def alice_world_def alice_def)
qed

text \<open>
  C15. What an update does, on every path. Success: the user exists, the request is valid,
  the row has the trimmed non-empty values asked for (the market only if none was set) and
  is otherwise unchanged. A refusal by the service changes nothing and names the first
  fault of the request; after a database error the row is as before or as requested.
\<close>

theorem update_outcome:
  assumes "db_ok S coll db" and "cache_client_ok S C"
    and "svc_UpdateProfile (UserDaoImpl db) C c i (Some rq) w = (r, w')"
  shows "case r of
      Ok x \<Rightarrow> \<exists>u. st_users (S w) i = Some u \<and> request_error u rq = None
        \<and> st_users (S w') = (st_users (S w))(i \<mapsto> u\<lparr>
            User_Name := nonzero (TrimSpace (Update_Username rq)) (User_Name u),
            User_Language := nonzero (TrimSpace (Update_Language rq)) (User_Language u),
            User_Market := (if TrimSpace (User_Market u) = []
                            then nonzero (TrimSpace (Update_Market rq)) (User_Market u) else User_Market u)\<rparr>)
        \<and> st_mappings (S w') = st_mappings (S w)
    | Err e \<Rightarrow> S w' = S w \<and> (case st_users (S w) i of None \<Rightarrow> e = ErrUserNotFound | Some u \<Rightarrow> request_error u rq = Some e)
        \<or> outside e \<and> (S w' = S w \<or> (\<exists>u. st_users (S w) i = Some u \<and> request_error u rq = None
             \<and> S w' = update_user i (requested u rq) (S w)))
    | Panicked m \<Rightarrow> False"
proof -
  have row: "merge_User (requested u rq) u = u\<lparr>
      User_Name := nonzero (TrimSpace (Update_Username rq)) (User_Name u),
      User_Language := nonzero (TrimSpace (Update_Language rq)) (User_Language u),
      User_Market := (if TrimSpace (User_Market u) = []
                      then nonzero (TrimSpace (Update_Market rq)) (User_Market u) else User_Market u)\<rparr>" for u
    by (simp add: merge_User_def)
  note runs = profiles_impl.UpdateProfile_runs [OF assms(1,2), of c i "Some rq" w]
  show ?thesis
  proof (cases r)
    case (Ok x)
    then obtain u where u: "st_users (S w) i = Some u" "request_error u rq = None"
      and sh: "shrinks (update_user i (requested u rq) (S w)) (S w')"
      using runs assms(3) by (auto simp: runs_def)
    have "st_users (S w') = (st_users (S w))(i \<mapsto> merge_User (requested u rq) u)"
      "st_mappings (S w') = st_mappings (S w)"
      using shrinksD(1,2) [OF sh] updated_row(1) [OF u(1)] by simp_all
    with u show ?thesis unfolding row Ok by auto
  next
    case (Err e)
    then show ?thesis using runs assms(3) by (auto simp: runs_def)
  next
    case (Panicked m)
    then show ?thesis using runs assms(3) by (auto simp: runs_def)
  qed
qed

theorem update_outcome_witness:
  "\<exists>u. st_users (rw_stores alice_world) 1 = Some u
    \<and> (let w' = snd (svc_UpdateProfile ref_users (Some ref_redis) Background 1 (Some (ask ''bob'' ''SG'')) alice_world) in
        \<exists>u'. st_users (rw_stores w') 1 = Some u' \<and> User_Name u' = ''bob'' \<and> User_Market u' = ''SG''
          \<and> User_KYCStatus u' = User_KYCStatus u)"
proof -
  let ?run = "svc_UpdateProfile ref_users (Some ref_redis) Background 1 (Some (ask ''bob'' ''SG'')) alice_world"
  have ok: "fst ?run = Ok ()" and empty: "User_Market alice = []" by code_simp+
  have trims: "TrimSpace ''bob'' = ''bob''" "TrimSpace ''SG'' = ''SG''" "TrimSpace [] = []" by code_simp+
  have "st_users (rw_stores alice_world) 1 = Some alice" by (simp add: alice_world_def alice_def)
  then show ?thesis
    using update_outcome [OF ref_db_ok ref_cache_ok prod.collapse [symmetric],
        where c = Background and i = 1 and rq = "ask ''bob'' ''SG''" and w = alice_world] ok empty trims
    by (auto simp: ask_def Let_def)
qed

text \<open>
  C17. With a Redis that answers, an accepted update is visible to the next read by gRPC:
  the profile returned after it has the new name and market, whatever was cached before.
\<close>

theorem read_after_update:
  assumes "profile_world S coll db C JM J w" and "fresh_all C coll J (S w)" and "answering C"
    and "svc_UpdateProfile (UserDaoImpl db) C c i (Some rq) w = (Ok x, w1)"
    and "svc_GetUserProfile (UserDaoImpl db) (UserAuthMappingDaoImpl db C JM) C J c' i w1 = (Ok p, w2)"
  shows "\<exists>u. st_users (S w) i = Some u
    \<and> Aggregate_Name p = nonzero (TrimSpace (Update_Username rq)) (User_Name u)
    \<and> (TrimSpace (Update_Market rq) \<noteq> [] \<longrightarrow> TrimSpace (Aggregate_Market p) = TrimSpace (Update_Market rq))
    \<and> Aggregate_KYCStatus p = User_KYCStatus u"
proof -
  note ok = profile_worldD [OF assms(1)]
  from profiles_impl.UpdateProfile_runs [OF ok(1,3), of c i "Some rq" w] assms(4)
  obtain u where u: "st_users (S w) i = Some u" "request_error u rq = None"
    and sh: "shrinks (update_user i (requested u rq) (S w)) (S w1)"
    and same: "requested u rq = zero_User \<longrightarrow> S w1 = S w"
    and gone: "requested u rq \<noteq> zero_User \<longrightarrow> C \<noteq> None \<longrightarrow> 0 < i \<longrightarrow> st_cache (S w1) (userProfileCacheKey i) = None"
    using assms(3) by (auto simp: runs_def)
  have u1: "st_users (S w1) = (st_users (S w))(i \<mapsto> merge_User (requested u rq) u)"
    using shrinksD(1) [OF sh] updated_row(1) [OF u(1)] by simp
  have "fresh_all C coll J (S w1)"
    unfolding fresh_all_def
  proof (intro impI allI)
    fix j assume "C \<noteq> None" "0 < (j :: int)"
    with assms(2) have fj: "fresh coll J j (S w)" by (simp add: fresh_all_def)
    show "fresh coll J j (S w1)"
    proof (cases "j = i \<and> requested u rq \<noteq> zero_User")
      case True
      then show ?thesis using gone \<open>C \<noteq> None\<close> \<open>0 < j\<close> fresh_gone by blast
    next
      case False
      show ?thesis
      proof (cases "requested u rq = zero_User")
        case True
        then show ?thesis using same fj by simp
      next
        case False
        then have "j \<noteq> i" using \<open>\<not> (j = i \<and> requested u rq \<noteq> zero_User)\<close> by simp
        then show ?thesis
          using shrinksD [OF sh] u1 by (intro fresh_mono [OF fj]) auto
      qed
    qed
  qed
  moreover have "mapping_world_ok S coll db C JM w1"
    by (rule profiles_impl.UpdateProfile_mok [OF ok(1-3) assms(4)])
  moreover have "keyed (S w1)" using ok(5) u(1) u1 by (auto simp: keyed_def split: if_splits)
  ultimately have p: "profile_of coll i (S w1) = Some p"
    using profiles_impl.GetUserProfile_runs [of S coll db C JM w1 J c' i] ok assms(5)
    by (auto simp: runs_def)
  then have "Aggregate_Name p = User_Name (merge_User (requested u rq) u)"
    "Aggregate_Market p = User_Market (merge_User (requested u rq) u)"
    "Aggregate_KYCStatus p = User_KYCStatus u"
    using u1 by (auto simp: profile_of_def split: option.splits)
  with u request_error_None [OF u(2)] show ?thesis by (auto simp: nonzero_def)
qed

theorem read_after_update_witness:
  "let w1 = snd (svc_UpdateProfile ref_users (Some ref_redis) Background 1 (Some (ask ''bob'' ''SG''))
              (snd (svc_GetUserProfile ref_users ref_mappings (Some ref_redis) ref_profile_codec Background 1 alice_world)))
   in \<exists>p. fst (svc_GetUserProfile ref_users ref_mappings (Some ref_redis) ref_profile_codec Background 1 w1) = Ok p
     \<and> Aggregate_Name p = ''bob''"
proof -
  define w0 where "w0 = snd (svc_GetUserProfile ref_users ref_mappings (Some ref_redis) ref_profile_codec Background 1 alice_world)"
  let ?up = "svc_UpdateProfile ref_users (Some ref_redis) Background 1 (Some (ask ''bob'' ''SG'')) w0"
  let ?rd = "svc_GetUserProfile ref_users ref_mappings (Some ref_redis) ref_profile_codec Background 1 (snd ?up)"
  have pw: "profile_world rw_stores (=) (Some ref_gorm) (Some ref_redis) ref_mapping_codec ref_profile_codec alice_world"
    unfolding alice_world_def by (rule ref_profile_world)
  have fr: "fresh_all (Some ref_redis) (=) ref_profile_codec (rw_stores alice_world)"
    unfolding alice_world_def by (rule ref_fresh)
  note ok = profile_worldD [OF pw]
  have "is_Ok (fst (svc_GetUserProfile ref_users ref_mappings (Some ref_redis) ref_profile_codec Background 1 alice_world))"
    by code_simp
  then have w0: "fresh_all (Some ref_redis) (=) ref_profile_codec (rw_stores w0)
      \<and> mapping_world_ok rw_stores (=) (Some ref_gorm) (Some ref_redis) ref_mapping_codec w0
      \<and> st_users (rw_stores w0) = st_users (rw_stores alice_world)"
    using profiles_impl.GetUserProfile_runs [OF ok fr, of Background 1]
    by (auto simp: runs_def w0_def only_cacheD(1) split: prod.splits res.splits)
  then have "keyed (rw_stores w0)" using ok(5) keyed_cong by blast
  with w0 ok(4) have pw0: "profile_world rw_stores (=) (Some ref_gorm) (Some ref_redis) ref_mapping_codec ref_profile_codec w0"
    by (simp add: profile_world_def)
  have up: "fst ?up = Ok ()" unfolding w0_def by code_simp
  have "is_Ok (fst ?rd)" unfolding w0_def by code_simp
  then obtain p where rd: "fst ?rd = Ok p" by (rule is_OkE)
  have bob: "TrimSpace ''bob'' = ''bob''" by code_simp
  have "Aggregate_Name p = ''bob''"
    using read_after_update [OF pw0 _ ref_answering, where c = Background and i = 1 and rq = "ask ''bob'' ''SG''"
        and x = "()" and ?w1.0 = "snd ?up" and c' = Background and p = p and ?w2.0 = "snd ?rd"]
      w0 up rd bob prod.collapse [of ?up] prod.collapse [of ?rd]
    by (auto simp: ask_def)
  with rd show ?thesis by (auto simp: w0_def [symmetric])
qed



end
