(* ===== verification/Url.thy ===== *)
theory Url
  imports GoStrings "HOL-Library.List_Lexorder"
begin

section \<open>Query strings\<close>

text \<open>
  \<open>net/url\<close>: \<open>QueryEscape\<close> and \<open>Values.Encode\<close> (sorted by key), as the code uses them for
  the authorize URL and the token request. A \<open>url.Values\<close> with one value per key is a list
  of pairs. \<open>QueryUnescape\<close> is the inverse the receiver applies.
\<close>

definition unreserved :: "char \<Rightarrow> bool" where
  "unreserved c \<longleftrightarrow> (let b = byte c in 97 \<le> b \<and> b \<le> 122 \<or> 65 \<le> b \<and> b \<le> 90 \<or> 48 \<le> b \<and> b \<le> 57
     \<or> c = CHR ''-'' \<or> c = CHR ''_'' \<or> c = CHR ''.'' \<or> c = CHR ''~'')"

definition upper_hex :: "nat \<Rightarrow> char" where
  "upper_hex d = char_of (if d < 10 then 48 + d else 55 + d)"

definition hex_value :: "char \<Rightarrow> nat" where
  "hex_value c = (if byte c < 58 then byte c - 48 else byte c - 55)"

fun QueryEscape :: "string \<Rightarrow> string" where
  "QueryEscape [] = []"
| "QueryEscape (c # cs) =
    (if unreserved c then c # QueryEscape cs
     else if c = CHR '' '' then CHR ''+'' # QueryEscape cs
     else CHR ''%'' # upper_hex (byte c div 16) # upper_hex (byte c mod 16) # QueryEscape cs)"

fun QueryUnescape :: "string \<Rightarrow> string" where
  "QueryUnescape [] = []"
| "QueryUnescape (c # cs) =
    (if c = CHR ''+'' then CHR '' '' # QueryUnescape cs
     else if c = CHR ''%'' then (case cs of
        a # b # rest \<Rightarrow> char_of (16 * hex_value a + hex_value b) # QueryUnescape rest
      | _ \<Rightarrow> [])
     else c # QueryUnescape cs)"

definition Values_Encode :: "(string \<times> string) list \<Rightarrow> string" where
  "Values_Encode v = Join (map (\<lambda>(k, x). QueryEscape k @ ''='' @ QueryEscape x) (sort_key fst v)) ''&''"

lemma byte_upper_hex: "d < 16 \<Longrightarrow> byte (upper_hex d) = (if d < 10 then 48 + d else 55 + d)"
  by (simp add: byte_def upper_hex_def)

lemma hex_value_upper [simp]: "d < 16 \<Longrightarrow> hex_value (upper_hex d) = d"
  by (simp add: hex_value_def byte_upper_hex)

lemma unreserved_not [simp]: "unreserved c \<Longrightarrow> c \<noteq> CHR ''+''" "unreserved c \<Longrightarrow> c \<noteq> CHR ''%''"
  "unreserved c \<Longrightarrow> c \<noteq> CHR ''&''" "unreserved c \<Longrightarrow> c \<noteq> CHR ''=''"
  by (auto simp: unreserved_def byte_def Let_def)

lemma char_of_byte [simp]: "char_of (byte c) = c"
  by (simp add: byte_def)

lemma Unescape_Escape [simp]: "QueryUnescape (QueryEscape s) = s"
proof (induction s)
  case (Cons c s)
  have "byte c div 16 < 16" "byte c mod 16 < 16" using byte_less_256 [of c] by linarith+
  moreover have "16 * (byte c div 16) + byte c mod 16 = byte c" by simp
  ultimately show ?case using Cons by (simp del: mult_div_mod_eq)
qed simp

lemma QueryEscape_eq [simp]: "QueryEscape s = QueryEscape t \<longleftrightarrow> s = t"
  by (metis Unescape_Escape)

lemma upper_hex_chars: "d < 16 \<Longrightarrow> upper_hex d \<noteq> CHR ''&'' \<and> upper_hex d \<noteq> CHR ''=''"
  using byte_upper_hex [of d] by (auto simp: byte_def split: if_splits)

lemma reserved [simp]: "\<not> unreserved CHR ''&''" "\<not> unreserved CHR ''=''"
  by code_simp+

lemma QueryEscape_chars: "c \<in> set (QueryEscape s) \<Longrightarrow> c \<noteq> CHR ''&'' \<and> c \<noteq> CHR ''=''"
proof (induction s)
  case (Cons x s)
  have "byte x div 16 < 16" "byte x mod 16 < 16" using byte_less_256 [of x] by linarith+
  then show ?case using Cons upper_hex_chars by (auto split: if_splits)
qed simp

text \<open>Texts without escaping, such as hexadecimal ones, are sent as they are.\<close>

lemma QueryEscape_id: "list_all unreserved s \<Longrightarrow> QueryEscape s = s"
  by (induction s) auto

text \<open>What the receiver of an encoded query reads back.\<close>

definition parse_pair :: "string \<Rightarrow> string \<times> string" where
  "parse_pair s = (case Cut s CHR ''='' of (k, v, ok) \<Rightarrow> (QueryUnescape k, QueryUnescape v))"

definition ParseQuery :: "string \<Rightarrow> (string \<times> string) list" where
  "ParseQuery s = (if s = [] then [] else map parse_pair (Split s CHR ''&''))"

lemma parse_pair_encode [simp]: "parse_pair (QueryEscape k @ CHR ''='' # QueryEscape x) = (k, x)"
proof -
  have "CHR ''='' \<notin> set (QueryEscape k)" using QueryEscape_chars by blast
  then show ?thesis by (simp add: parse_pair_def Cut_append)
qed

lemma Join_encoded_not_Nil: "v \<noteq> [] \<Longrightarrow> Join (map (\<lambda>(k, x). QueryEscape k @ ''='' @ QueryEscape x) v) sep \<noteq> []"
  by (cases v; cases "tl v") auto

lemma ParseQuery_Encode: "ParseQuery (Values_Encode v) = sort_key fst v"
proof (cases "v = []")
  case True
  then show ?thesis by (simp add: ParseQuery_def Values_Encode_def)
next
  case False
  let ?e = "\<lambda>(k, x). QueryEscape k @ ''='' @ QueryEscape x" and ?s = "sort_key fst v"
  have "?s \<noteq> []" using False by (metis length_0_conv length_sort)
  moreover have "CHR ''&'' \<notin> set p" if "p \<in> set (map ?e ?s)" for p
    using that QueryEscape_chars by fastforce
  ultimately have "Split (Values_Encode v) CHR ''&'' = map ?e ?s"
    unfolding Values_Encode_def by (intro Split_Join) auto
  moreover have "Values_Encode v \<noteq> []"
    unfolding Values_Encode_def by (rule Join_encoded_not_Nil [OF \<open>?s \<noteq> []\<close>])
  ultimately show ?thesis
    by (simp add: ParseQuery_def case_prod_unfold comp_def)
qed

end
