(* ===== verification/Singpass.thy ===== *)
theory Singpass
  imports Config Clients Url Base64
begin

section \<open>The Singpass proxy\<close>

text \<open>
  server/proxy: the OAuth client of Singpass. \<open>cfg\<close> is \<open>config.Config.SingpassConfig\<close>, \<open>H\<close>
  the HTTP client, \<open>R\<close> the runtime. The JOSE libraries (jwx, golang-jwt) are the record
  \<open>Jose\<close>, with types \<open>'k\<close> and \<open>'s\<close> for their keys and key sets; the JSON decoders of the
  responses are the record \<open>SingpassJson\<close>, one field per Go type decoded into. A request that
  cannot be built is a request whose \<open>Do\<close> fails.
\<close>

record UserInfo =
  UserInfo_Name :: string
  UserInfo_Email :: string
  UserInfo_Phone :: string
  UserInfo_Address :: string
  UserInfo_City :: string
  UserInfo_State :: string
  UserInfo_Zip :: string
  UserInfo_Country :: string

definition zero_UserInfo :: UserInfo where
  "zero_UserInfo = \<lparr>UserInfo_Name = [], UserInfo_Email = [], UserInfo_Phone = [], UserInfo_Address = [],
     UserInfo_City = [], UserInfo_State = [], UserInfo_Zip = [], UserInfo_Country = []\<rparr>"

record 'w SingpassProxy =
  proxy_GetAccessToken :: "ctx \<Rightarrow> string \<Rightarrow> ('w, string) act"
  proxy_GetUserInfo :: "ctx \<Rightarrow> string \<Rightarrow> ('w, UserInfo option) act"

text \<open>The private keys of the relying party and what is made of them.\<close>

record jwkPrivateKey =
  jwk_KTY :: string
  jwk_Use :: string
  jwk_Crv :: string
  jwk_KID :: string
  jwk_Alg :: string
  jwk_D :: string
  jwk_X :: string
  jwk_Y :: string

datatype Curve = P256 | P384 | P521
datatype SigningMethod = ES256 | ES384 | ES512

record ecdsa_PrivateKey =
  ecdsa_Curve :: Curve
  ecdsa_X :: nat
  ecdsa_Y :: nat
  ecdsa_D :: nat

record singpassSigningKey =
  sk_privateKey :: ecdsa_PrivateKey
  sk_kid :: string
  sk_method :: SigningMethod

record AssertionClaims =
  claim_iss :: string
  claim_sub :: string
  claim_aud :: string
  claim_iat :: int
  claim_exp :: int
  claim_jti :: string

record ('w, 'k, 's) Jose =
  jwt_SignedString :: "SigningMethod \<Rightarrow> (string \<times> string) list \<Rightarrow> AssertionClaims \<Rightarrow> ecdsa_PrivateKey \<Rightarrow> ('w, string) act"
  jwk_Parse :: "string \<Rightarrow> go_error + 's"
  jwk_ParseKey :: "jwkPrivateKey \<Rightarrow> go_error + 'k"
  jwk_AddKey :: "'k \<Rightarrow> go_error option"
  jwe_Decrypt :: "'k \<Rightarrow> string \<Rightarrow> go_error + string"
  jws_Verify :: "'s \<Rightarrow> string \<Rightarrow> go_error + string"

record SingpassJson =
  json_TokenResult :: "string \<Rightarrow> go_error + string"
  json_UserInfo :: "string \<Rightarrow> go_error + UserInfo"
  json_RawObject :: "string \<Rightarrow> go_error + (string \<Rightarrow> string option)"
  json_WrappedValue :: "string \<Rightarrow> go_error + string"
  json_PlainString :: "string \<Rightarrow> go_error + string"
  json_JwksFile :: "string \<Rightarrow> go_error + jwkPrivateKey list"

record ('k, 's) singpassProxyImpl =
  sp_ClientID :: string
  sp_Issuer :: string
  sp_SigningKey :: "singpassSigningKey option"
  sp_EncryptionKey :: "'k option"
  sp_ASPKeySet :: "'s option"

subsection \<open>OAuth parameters and the authorize URL\<close>

definition RandomOAuthParam :: "'w Runtime \<Rightarrow> ('w, string) act" where
  "RandomOAuthParam R = bindA (rand_Read R 20) (\<lambda>buf. ret (hex_EncodeToString buf))"

definition randomJTI :: "'w Runtime \<Rightarrow> ('w, string) act" where
  "randomJTI R = RandomOAuthParam R"

definition authorize_params :: "SingpassConfig \<Rightarrow> 'w Runtime \<Rightarrow> string \<Rightarrow> string \<Rightarrow> (string \<times> string) list" where
  "authorize_params cfg R state nonce =
    [(''scope'', Cfg_Scope cfg), (''response_type'', ''code''),
     (''client_id'', TrimSpace (os_Getenv R ''SINGPASS_CLIENT_ID'')),
     (''redirect_uri'', Cfg_RedirectURI cfg), (''state'', state), (''nonce'', nonce)]"

definition BuildAuthorizeURL :: "SingpassConfig \<Rightarrow> 'w Runtime \<Rightarrow> string \<Rightarrow> string \<Rightarrow> string" where
  "BuildAuthorizeURL cfg R state nonce =
    TrimRight (Cfg_IssuerURL cfg) ''/'' @ ''/auth?'' @ Values_Encode (authorize_params cfg R state nonce)"

subsection \<open>Resolving the configuration\<close>

definition resolveAssertionAud :: "SingpassConfig option \<Rightarrow> string" where
  "resolveAssertionAud cfg = (case cfg of
      None \<Rightarrow> []
    | Some cfg \<Rightarrow>
        let aud = TrimSpace (Cfg_AssertionAud cfg) in
        if aud \<noteq> [] then TrimRight aud ''/''
        else let token = TrimSpace (Cfg_TokenURL cfg); (base, ok) = CutSuffix token ''/token'' in
          if token \<noteq> [] \<and> ok \<and> base \<noteq> [] then base
          else TrimRight (TrimSpace (Cfg_IssuerURL cfg)) ''/'')"

definition resolveJWKSURI :: "'w Runtime \<Rightarrow> string \<Rightarrow> string" where
  "resolveJWKSURI R configured =
    (let uri = TrimSpace (os_Getenv R ''SINGPASS_JWKS_URI'') in
     if uri \<noteq> [] then uri else TrimSpace configured)"

subsection \<open>Keys\<close>

definition signingMethodForAlg :: "string \<Rightarrow> SigningMethod \<Rightarrow> SigningMethod" where
  "signingMethodForAlg alg fallback =
    (if alg = ''ES256'' then ES256 else if alg = ''ES384'' then ES384
     else if alg = ''ES512'' then ES512 else fallback)"

definition curveAndMethod :: "string \<Rightarrow> string \<Rightarrow> go_error + Curve \<times> SigningMethod" where
  "curveAndMethod crv alg =
    (if crv = ''P-256'' then Inr (P256, signingMethodForAlg alg ES256)
     else if crv = ''P-384'' then Inr (P384, signingMethodForAlg alg ES384)
     else if crv = ''P-521'' then Inr (P521, signingMethodForAlg alg ES512)
     else Inl (NewError ''unsupported curve''))"

definition decodeBase64URLBigInt :: "string \<Rightarrow> go_error + nat" where
  "decodeBase64URLBigInt s = (case RawURL_DecodeString s of
      Inl err \<Rightarrow> Inl err
    | Inr raw \<Rightarrow> Inr (big_SetBytes raw))"

definition jwkToECDSA ::
    "jwkPrivateKey \<Rightarrow> go_error + ecdsa_PrivateKey \<times> SigningMethod" where
  "jwkToECDSA key = (case curveAndMethod (jwk_Crv key) (jwk_Alg key) of
      Inl err \<Rightarrow> Inl err
    | Inr (curve, signing) \<Rightarrow> (case decodeBase64URLBigInt (jwk_D key) of
        Inl err \<Rightarrow> Inl (Wrapped ''decode d'' err)
      | Inr d \<Rightarrow> (case decodeBase64URLBigInt (jwk_X key) of
          Inl err \<Rightarrow> Inl (Wrapped ''decode x'' err)
        | Inr x \<Rightarrow> (case decodeBase64URLBigInt (jwk_Y key) of
            Inl err \<Rightarrow> Inl (Wrapped ''decode y'' err)
          | Inr y \<Rightarrow> Inr (\<lparr>ecdsa_Curve = curve, ecdsa_X = x, ecdsa_Y = y, ecdsa_D = d\<rparr>, signing)))))"

fun parseSigningKey ::
    "jwkPrivateKey list \<Rightarrow> go_error + singpassSigningKey" where
  "parseSigningKey [] = Inl (NewError ''no private signing key with use=sig found in client jwks'')"
| "parseSigningKey (key # keys) =
    (if jwk_Use key \<noteq> ''sig'' \<or> jwk_KTY key \<noteq> ''EC'' \<or> jwk_D key = [] then parseSigningKey keys
     else case jwkToECDSA key of
         Inl err \<Rightarrow> Inl err
       | Inr (privateKey, signing) \<Rightarrow>
           Inr \<lparr>sk_privateKey = privateKey, sk_kid = jwk_KID key, sk_method = signing\<rparr>)"

fun parseEncryptionKey ::
    "('w, 'k, 's) Jose \<Rightarrow> jwkPrivateKey list \<Rightarrow> go_error + 'k" where
  "parseEncryptionKey X [] = Inl (NewError ''no private encryption key with use=enc found in client jwks'')"
| "parseEncryptionKey X (key # keys) =
    (if jwk_Use key \<noteq> ''enc'' \<or> jwk_D key = [] then parseEncryptionKey X keys
     else jwk_ParseKey X key)"

subsection \<open>Fetching key sets\<close>

definition fetchJWKSRaw :: "'w HttpClient \<Rightarrow> string \<Rightarrow> ('w, string) act" where
  "fetchJWKSRaw H jwksURI =
    tryA (http_Do H (WithTimeout Background (10 * Second))
            \<lparr>Req_Method = ''GET'', Req_URL = jwksURI, Req_Header = [], Req_Body = []\<rparr>)
      (\<lambda>resp. case Resp_Body resp of
          Inl err \<Rightarrow> throw err
        | Inr body \<Rightarrow> if Resp_StatusCode resp \<noteq> 200 then throw (NewError ''fetch jwks: status'') else ret body)
      (\<lambda>err. throw (Wrapped ''fetch jwks'' err))"

definition fetchJWKS :: "('w, 'k, 's) Jose \<Rightarrow> 'w HttpClient \<Rightarrow> string \<Rightarrow> ('w, 's) act" where
  "fetchJWKS X H jwksURI = bindA (fetchJWKSRaw H jwksURI) (\<lambda>body. case jwk_Parse X body of
      Inl err \<Rightarrow> throw err
    | Inr keySet \<Rightarrow> ret keySet)"

definition loadClientJWKSRaw :: "'w Runtime \<Rightarrow> 'w HttpClient \<Rightarrow> ('w, string) act" where
  "loadClientJWKSRaw R H =
    (let uri = TrimSpace (os_Getenv R ''SINGPASS_CLIENT_JWKS_URI'');
         raw = TrimSpace (os_Getenv R ''SINGPASS_CLIENT_JWKS'') in
     if uri \<noteq> [] then fetchJWKSRaw H uri
     else if raw \<noteq> [] then ret raw
     else throw (NewError ''set SINGPASS_CLIENT_JWKS_URI or SINGPASS_CLIENT_JWKS with the RP private JWKS''))"

definition loadClientKeys ::
    "'w Runtime \<Rightarrow> 'w HttpClient \<Rightarrow> ('w, 'k, 's) Jose \<Rightarrow> SingpassJson
      \<Rightarrow> ('w, singpassSigningKey \<times> 'k) act" where
  "loadClientKeys R H X D = bindA (loadClientJWKSRaw R H) (\<lambda>raw. case json_JwksFile D raw of
      Inl err \<Rightarrow> throw (Wrapped ''parse client jwks'' err)
    | Inr keyset \<Rightarrow> (case parseSigningKey keyset of
        Inl err \<Rightarrow> throw err
      | Inr signingKey \<Rightarrow> (case parseEncryptionKey X keyset of
          Inl err \<Rightarrow> throw err
        | Inr encryptionKey \<Rightarrow> ret (signingKey, encryptionKey))))"

text \<open>\<open>newSingpassProxy\<close>: a key that cannot be loaded is left nil and reported at its first use.\<close>

definition newSingpassProxy ::
    "SingpassConfig \<Rightarrow> 'w Runtime \<Rightarrow> 'w HttpClient \<Rightarrow> ('w, 'k, 's) Jose \<Rightarrow> SingpassJson
      \<Rightarrow> ('w, ('k, 's) singpassProxyImpl) act" where
  "newSingpassProxy cfg R H X D =
    (let clientID = TrimSpace (os_Getenv R ''SINGPASS_CLIENT_ID'');
         jwksURI = resolveJWKSURI R (Cfg_JWKSURI cfg) in
     bindA (if jwksURI \<noteq> [] then tryA (fetchJWKS X H jwksURI) (\<lambda>keySet. ret (Some keySet)) (\<lambda>err. ret None)
            else ret None) (\<lambda>aspKeySet.
     bindA (tryA (loadClientKeys R H X D)
              (\<lambda>(s, e). ret (Some s, Some e)) (\<lambda>err. ret (None, None))) (\<lambda>(signingKey, encryptionKey).
     ret \<lparr>sp_ClientID = clientID, sp_Issuer = resolveAssertionAud (Some cfg), sp_SigningKey = signingKey,
          sp_EncryptionKey = encryptionKey, sp_ASPKeySet = aspKeySet\<rparr>)))"

subsection \<open>The token request\<close>

definition clientAssertionType :: string where
  "clientAssertionType = ''urn:ietf:params:oauth:client-assertion-type:jwt-bearer''"

definition clientAssertion ::
    "'w Runtime \<Rightarrow> ('w, 'k, 's) Jose \<Rightarrow> singpassSigningKey \<Rightarrow> string \<Rightarrow> string \<Rightarrow> ('w, string) act" where
  "clientAssertion R X k clientID issuer =
    bindA (now R) (\<lambda>t. let now = Unix t in
    bindA (randomJTI R) (\<lambda>jti.
      jwt_SignedString X (sk_method k) [(''typ'', ''JWT''), (''kid'', sk_kid k)]
        \<lparr>claim_iss = clientID, claim_sub = clientID, claim_aud = issuer, claim_iat = now,
         claim_exp = now + 120, claim_jti = jti\<rparr>
        (sk_privateKey k)))"

definition token_request :: "SingpassConfig \<Rightarrow> string \<Rightarrow> string \<Rightarrow> string \<Rightarrow> HttpRequest" where
  "token_request cfg clientID assertion code =
    \<lparr>Req_Method = ''POST'', Req_URL = Cfg_TokenURL cfg,
     Req_Header = [(''Content-Type'', ''application/x-www-form-urlencoded'')],
     Req_Body = Values_Encode [(''code'', code), (''grant_type'', ''authorization_code''),
       (''redirect_uri'', Cfg_RedirectURI cfg), (''client_id'', clientID),
       (''client_assertion_type'', clientAssertionType), (''client_assertion'', assertion)]\<rparr>"

definition singpassProxyImpl_GetAccessToken ::
    "SingpassConfig \<Rightarrow> 'w Runtime \<Rightarrow> 'w HttpClient \<Rightarrow> ('w, 'k, 's) Jose \<Rightarrow> SingpassJson
      \<Rightarrow> ('k, 's) singpassProxyImpl \<Rightarrow> ctx \<Rightarrow> string \<Rightarrow> ('w, string) act" where
  "singpassProxyImpl_GetAccessToken cfg R H X D p c code = (case sp_SigningKey p of
      None \<Rightarrow> throw (NewError ''singpass signing key is not configured'')
    | Some signingKey \<Rightarrow>
        if sp_ClientID p = [] then throw (NewError ''singpass client id is not configured'')
        else if sp_Issuer p = [] then throw (NewError ''singpass issuer url is not configured'')
        else bindA (clientAssertion R X signingKey (sp_ClientID p) (sp_Issuer p)) (\<lambda>assertion.
          bindA (http_Do H c (token_request cfg (sp_ClientID p) assertion code)) (\<lambda>resp.
            if Resp_StatusCode resp \<noteq> 200 then throw (NewError ''failed to get access token'')
            else case Resp_Body resp of
                Inl err \<Rightarrow> throw err
              | Inr body \<Rightarrow> (case json_TokenResult D body of
                  Inl err \<Rightarrow> throw err
                | Inr accessToken \<Rightarrow>
                    if accessToken = [] then throw (NewError ''token response missing access_token'')
                    else ret accessToken))))"

subsection \<open>The user info\<close>

definition parseSingpassClaimValue :: "SingpassJson \<Rightarrow> string \<Rightarrow> string" where
  "parseSingpassClaimValue D raw =
    (if length raw = 0 then []
     else case json_WrappedValue D raw of
         Inr v \<Rightarrow> if v \<noteq> [] then v
           else (case json_PlainString D raw of Inr str \<Rightarrow> str | Inl err \<Rightarrow> [])
       | Inl err \<Rightarrow> (case json_PlainString D raw of Inr str \<Rightarrow> str | Inl err \<Rightarrow> []))"

definition extractSingpassClaim :: "SingpassJson \<Rightarrow> (string \<Rightarrow> string option) \<Rightarrow> string \<Rightarrow> string" where
  "extractSingpassClaim D claims key =
    parseSingpassClaimValue D (case claims key of None \<Rightarrow> [] | Some raw \<Rightarrow> raw)"

definition mapSingpassClaimsToUserInfo :: "SingpassJson \<Rightarrow> string \<Rightarrow> UserInfo" where
  "mapSingpassClaimsToUserInfo D verified = (case json_RawObject D verified of
      Inl err \<Rightarrow> zero_UserInfo
    | Inr claims \<Rightarrow> zero_UserInfo\<lparr>
        UserInfo_Name := extractSingpassClaim D claims ''name'',
        UserInfo_Email := extractSingpassClaim D claims ''email'',
        UserInfo_Phone := extractSingpassClaim D claims ''mobileno'',
        UserInfo_Address := extractSingpassClaim D claims ''regadd''\<rparr>)"

definition decryptUserInfo ::
    "('w, 'k, 's) Jose \<Rightarrow> SingpassJson \<Rightarrow> ('k, 's) singpassProxyImpl \<Rightarrow> string \<Rightarrow> go_error + UserInfo" where
  "decryptUserInfo X D p encrypted = (case sp_EncryptionKey p of
      None \<Rightarrow> Inl (NewError ''singpass encryption key is not configured'')
    | Some key \<Rightarrow> (case sp_ASPKeySet p of
        None \<Rightarrow> Inl (NewError ''singpass jwks is not configured'')
      | Some keySet \<Rightarrow> (case jwk_AddKey X key of
          Some err \<Rightarrow> Inl (Wrapped ''build decryption key set'' err)
        | None \<Rightarrow> (case jwe_Decrypt X key encrypted of
            Inl err \<Rightarrow> Inl (Wrapped ''decrypt userinfo jwe'' err)
          | Inr decrypted \<Rightarrow> (case jws_Verify X keySet decrypted of
              Inl err \<Rightarrow> Inl (Wrapped ''verify userinfo jws'' err)
            | Inr verified \<Rightarrow> Inr (mapSingpassClaimsToUserInfo D verified))))))"

definition parseUserInfoResponse ::
    "('w, 'k, 's) Jose \<Rightarrow> SingpassJson \<Rightarrow> ('k, 's) singpassProxyImpl \<Rightarrow> string \<Rightarrow> go_error + UserInfo" where
  "parseUserInfoResponse X D p body =
    (let trimmed = TrimSpace body in
     if trimmed = [] then Inl (NewError ''empty userinfo response'')
     else if HasPrefix trimmed ''{'' then (case json_UserInfo D body of
         Inl err \<Rightarrow> Inl (Wrapped ''parse plain userinfo json'' err)
       | Inr userInfo \<Rightarrow> Inr userInfo)
     else decryptUserInfo X D p trimmed)"

definition singpassProxyImpl_GetUserInfo ::
    "SingpassConfig \<Rightarrow> 'w HttpClient \<Rightarrow> ('w, 'k, 's) Jose \<Rightarrow> SingpassJson \<Rightarrow> ('k, 's) singpassProxyImpl
      \<Rightarrow> ctx \<Rightarrow> string \<Rightarrow> ('w, UserInfo option) act" where
  "singpassProxyImpl_GetUserInfo cfg H X D p c token =
    bindA (http_Do H c \<lparr>Req_Method = ''GET'', Req_URL = Cfg_UserInfoURL cfg,
        Req_Header = [(''Authorization'', ''Bearer '' @ token), (''Accept'', ''application/jwt, application/json'')],
        Req_Body = []\<rparr>) (\<lambda>resp. case Resp_Body resp of
          Inl err \<Rightarrow> throw err
        | Inr body \<Rightarrow>
            if Resp_StatusCode resp \<noteq> 200 then throw (NewError ''failed to get user info'')
            else (case parseUserInfoResponse X D p body of
                Inl err \<Rightarrow> throw err
              | Inr userInfo \<Rightarrow> ret (Some userInfo)))"

definition singpassProxy ::
    "SingpassConfig \<Rightarrow> 'w Runtime \<Rightarrow> 'w HttpClient \<Rightarrow> ('w, 'k, 's) Jose \<Rightarrow> SingpassJson
      \<Rightarrow> ('k, 's) singpassProxyImpl \<Rightarrow> 'w SingpassProxy" where
  "singpassProxy cfg R H X D p =
    \<lparr>proxy_GetAccessToken = singpassProxyImpl_GetAccessToken cfg R H X D p,
     proxy_GetUserInfo = singpassProxyImpl_GetUserInfo cfg H X D p\<rparr>"

subsection \<open>The contract\<close>

text \<open>
  What the KYC service relies on: the calls do not touch the tables, the cache or the
  topics, their errors are not the service's own, and an access token is not empty.
\<close>

locale identity_provider =
  fixes proxy :: "'w SingpassProxy"
    and S :: "'w \<Rightarrow> Stores"
    and ok :: bool
  assumes token_runs: "ok \<Longrightarrow> runs (proxy_GetAccessToken proxy c code) w
      (\<lambda>t w'. t \<noteq> [] \<and> S w' = S w) (\<lambda>e w'. outside e \<and> S w' = S w)"
    and userinfo_runs: "ok \<Longrightarrow> runs (proxy_GetUserInfo proxy c t) w
      (\<lambda>u w'. S w' = S w) (\<lambda>e w'. outside e \<and> S w' = S w)"

definition jose_ok :: "('w \<Rightarrow> Stores) \<Rightarrow> ('w, 'k, 's) Jose \<Rightarrow> bool" where
  "jose_ok S X \<longleftrightarrow>
     (\<forall>m h cl k w. runs (jwt_SignedString X m h cl k) w (\<lambda>a w'. S w' = S w) (\<lambda>e w'. outside e \<and> S w' = S w))
     \<and> (\<forall>k e. jwk_AddKey X k = Some e \<longrightarrow> outside e) \<and> (\<forall>k s e. jwe_Decrypt X k s = Inl e \<longrightarrow> outside e)
     \<and> (\<forall>k s e. jws_Verify X k s = Inl e \<longrightarrow> outside e)"

definition json_ok :: "SingpassJson \<Rightarrow> bool" where
  "json_ok D \<longleftrightarrow> (\<forall>s e. json_TokenResult D s = Inl e \<longrightarrow> outside e) \<and> (\<forall>s e. json_UserInfo D s = Inl e \<longrightarrow> outside e)"

lemma RandomOAuthParam_runs:
  assumes "runtime_ok S R"
  shows "runs (RandomOAuthParam R) w
    (\<lambda>s w'. length s = 40 \<and> list_all unreserved s \<and> S w' = S w) (\<lambda>e w'. outside e \<and> S w' = S w)"
proof -
  have "list_all unreserved (hex_EncodeToString b)" for b
    by (auto simp: list_all_iff unreserved_def Let_def dest!: hex_chars)
  then show ?thesis
    unfolding RandomOAuthParam_def by (auto intro!: runs_bindA [OF rand_read_runs [OF assms]])
qed

lemma clientAssertion_runs:
  assumes "runtime_ok S R" and "jose_ok S X"
  shows "runs (clientAssertion R X k cid iss) w (\<lambda>a w'. S w' = S w) (\<lambda>e w'. outside e \<and> S w' = S w)"
  unfolding clientAssertion_def randomJTI_def Let_def
proof (rule runs_bindA [OF runs_now [OF assms(1), where Q = "\<lambda>_ _. False"]], rule runs_bindA [OF RandomOAuthParam_runs [OF assms(1)]])
  fix t w1 jti w2
  assume "S w1 = S w" "length jti = 40 \<and> list_all unreserved jti \<and> S w2 = S w1"
  moreover have "runs (jwt_SignedString X m h cl p) w2 (\<lambda>a w'. S w' = S w2) (\<lambda>e w'. outside e \<and> S w' = S w2)" for m h cl p
    using assms(2) by (simp add: jose_ok_def)
  ultimately show "runs (jwt_SignedString X (sk_method k) [(''typ'', ''JWT''), (''kid'', sk_kid k)]
      \<lparr>claim_iss = cid, claim_sub = cid, claim_aud = iss, claim_iat = Unix t, claim_exp = Unix t + 120, claim_jti = jti\<rparr>
      (sk_privateKey k)) w2 (\<lambda>a w'. S w' = S w) (\<lambda>e w'. outside e \<and> S w' = S w)"
    by simp
qed auto

lemma parseUserInfoResponse_outside:
  "jose_ok S X \<Longrightarrow> json_ok D \<Longrightarrow> parseUserInfoResponse X D p body = Inl e \<Longrightarrow> outside e"
  by (auto simp: parseUserInfoResponse_def decryptUserInfo_def jose_ok_def json_ok_def Let_def
      split: if_splits sum.splits option.splits)

interpretation singpass: identity_provider "singpassProxy cfg R H X D p" S
    "http_ok S H \<and> runtime_ok S R \<and> jose_ok S X \<and> json_ok D" for cfg R H X D p S
proof unfold_locales
  fix c code w t
  assume ok: "http_ok S H \<and> runtime_ok S R \<and> jose_ok S X \<and> json_ok D"
  then have H: "http_ok S H" by simp
  have answer: "runs (if Resp_StatusCode resp \<noteq> 200 then throw (NewError m1)
      else case Resp_Body resp of Inl err \<Rightarrow> throw err
        | Inr body \<Rightarrow> (case json_TokenResult D body of Inl err \<Rightarrow> throw err
          | Inr a \<Rightarrow> if a = [] then throw (NewError m2) else ret a)) w1
      (\<lambda>t w'. t \<noteq> [] \<and> S w' = S w) (\<lambda>e w'. outside e \<and> S w' = S w)"
    if "S w1 = S w" "\<forall>e. Resp_Body resp = Inl e \<longrightarrow> outside e" for resp w1 m1 m2
    using that ok by (auto simp: json_ok_def split: sum.splits)
  show "runs (proxy_GetAccessToken (singpassProxy cfg R H X D p) c code) w
      (\<lambda>t w'. t \<noteq> [] \<and> S w' = S w) (\<lambda>e w'. outside e \<and> S w' = S w)"
  proof (cases "sp_SigningKey p = None \<or> sp_ClientID p = [] \<or> sp_Issuer p = []")
    case True
    then show ?thesis by (auto simp: singpassProxy_def singpassProxyImpl_GetAccessToken_def split: option.splits)
  next
    case False
    then obtain k where k: "sp_SigningKey p = Some k" by auto
    have send: "runs (bindA (http_Do H c q) (\<lambda>resp.
        if Resp_StatusCode resp \<noteq> 200 then throw (NewError m1)
        else case Resp_Body resp of Inl err \<Rightarrow> throw err
        | Inr body \<Rightarrow> (case json_TokenResult D body of Inl err \<Rightarrow> throw err
          | Inr a \<Rightarrow> if a = [] then throw (NewError m2) else ret a))) w1
        (\<lambda>t w'. t \<noteq> [] \<and> S w' = S w) (\<lambda>e w'. outside e \<and> S w' = S w)" if "S w1 = S w" for q w1 m1 m2
      by (rule runs_bindA [OF http_runs [OF H]], rule answer) (use that in auto)
    from False k show ?thesis
      using ok send by (auto simp: singpassProxy_def singpassProxyImpl_GetAccessToken_def
          intro!: runs_bindA [OF clientAssertion_runs [of S R X]])
  qed
  show "runs (proxy_GetUserInfo (singpassProxy cfg R H X D p) c t) w
      (\<lambda>u w'. S w' = S w) (\<lambda>e w'. outside e \<and> S w' = S w)"
    unfolding singpassProxy_def singpassProxyImpl_GetUserInfo_def
    using ok parseUserInfoResponse_outside [of S X D p]
    by (auto split: sum.splits intro!: runs_bindA [OF http_runs [OF H]])
qed

end
