(* ===== verification/KafkaTrace.thy ===== *)
theory KafkaTrace
  imports Logging
begin

section \<open>Spans and lines of Kafka messages\<close>

text \<open>
  server/kafka/trace: the span of a message, the headers that carry its trace and the lines that
  open and close it. A span is a handle, \<open>None\<close> for nil; its calls are those of the runtime.
\<close>

definition ProducerTracerName :: string where "ProducerTracerName = ''kafka-producer''"

definition trace_IDs :: "ctx \<Rightarrow> string \<times> string" where
  "trace_IDs c = (case ctx_span c of None \<Rightarrow> ([], []) | Some (traceID, spanID) \<Rightarrow> (traceID, spanID))"

definition span_call :: "'w Runtime \<Rightarrow> nat \<Rightarrow> SpanCall \<Rightarrow> ('w, unit) act" where
  "span_call R h k = (\<lambda>w. (Ok (), otel_Span R h k w))"

definition Finish :: "'w Runtime \<Rightarrow> nat option \<Rightarrow> go_error option \<Rightarrow> ('w, unit) act" where
  "Finish R span err = (case span of
      None \<Rightarrow> ret ()
    | Some h \<Rightarrow> seqA
        (case err of
           Some e \<Rightarrow> seqA (span_call R h (RecordError e)) (span_call R h (SetStatus SpanError (error_text e)))
         | None \<Rightarrow> span_call R h (SetStatus SpanOk []))
        (span_call R h EndSpan))"

definition HeadersFromContext :: "'w Runtime \<Rightarrow> ctx \<Rightarrow> (string \<times> string) list" where
  "HeadersFromContext R c = (let carrier = otel_Inject R c in
     if length carrier = 0 then [] else map (\<lambda>(key, val). (key, val)) carrier)"

definition trace_Start ::
    "'w Runtime \<Rightarrow> ctx \<Rightarrow> string \<Rightarrow> string \<Rightarrow> SpanKind \<Rightarrow> (string \<times> string) list \<Rightarrow> ('w, ctx \<times> nat option) act" where
  "trace_Start R c tracerName operation kind attrs =
    (\<lambda>w. case otel_Start R tracerName operation kind attrs c w of (p, w') \<Rightarrow> (Ok p, w'))"

definition StartProduce :: "'w Runtime \<Rightarrow> ctx \<Rightarrow> string \<Rightarrow> (string \<times> string) list \<Rightarrow> ('w, ctx \<times> nat option) act" where
  "StartProduce R c topic attrs = trace_Start R c ProducerTracerName (''kafka.produce '' @ topic) SpanKindProducer
     ([(''messaging.system'', ''kafka''), (''messaging.destination.name'', topic), (''messaging.operation'', ''publish'')] @ attrs)"

definition LogProduceStart :: "'w Runtime \<Rightarrow> ctx \<Rightarrow> LogField list \<Rightarrow> ('w, unit) act" where
  "LogProduceStart R c fs = Infow R (WithContext R (Some c)) ''kafka message produce started'' fs"

definition LogProduceFinish :: "'w Runtime \<Rightarrow> ctx \<Rightarrow> int \<Rightarrow> go_error option \<Rightarrow> LogField list \<Rightarrow> ('w, unit) act" where
  "LogProduceFinish R c duration err fs =
    (let all = fs @ [(''duration_ms'', LogMicros duration)] in
     case err of
       Some e \<Rightarrow> Errorw R (WithContext R (Some c)) ''kafka message produce failed'' (all @ [(''error'', LogError e)])
     | None \<Rightarrow> Infow R (WithContext R (Some c)) ''kafka message produce completed'' all)"

subsection \<open>Deferred calls\<close>

text \<open>
  \<open>deferA m f\<close>: \<open>f\<close> runs when \<open>m\<close> has ended, also by a panic, on the error that \<open>m\<close> has left in
  the variable \<open>f\<close> reads; it does not change the outcome unless it panics.
\<close>

fun err_of :: "'a res \<Rightarrow> go_error option" where
  "err_of (Err e) = Some e" | "err_of (Ok a) = None" | "err_of (Panicked m) = None"

definition deferA :: "('w, 'a) act \<Rightarrow> (go_error option \<Rightarrow> ('w, unit) act) \<Rightarrow> ('w, 'a) act" where
  "deferA m f = (\<lambda>w. case m w of (r, w1) \<Rightarrow> (case f (err_of r) w1 of
      (Panicked p, w2) \<Rightarrow> (Panicked p, w2)
    | (_, w2) \<Rightarrow> (r, w2)))"

lemma quiet_calls:
  assumes "runtime_ok S R"
  shows "quiet S (now R)" "quiet S (Infow R l msg fs)" "quiet S (Errorw R l msg fs)" "quiet S (span_call R h k)"
    "quiet S (trace_Start R c tn operation kind attrs)"
  using assms quiet_lines [OF assms] quiet_now [OF assms]
  by (auto simp: quiet_def span_call_def trace_Start_def runtime_ok_def runs_def split: prod.splits) (metis snd_conv)

lemma quiet_trace:
  assumes "runtime_ok S R"
  shows "quiet S (Finish R span err)" "quiet S (LogProduceStart R c fs)" "quiet S (LogProduceFinish R c d err fs)"
    "quiet S (StartProduce R c topic attrs)"
  using quiet_calls [OF assms]
  by (auto simp: Finish_def LogProduceStart_def LogProduceFinish_def StartProduce_def Let_def split: option.split intro!: quiet_bindA)

lemma runs_deferA:
  assumes "runs m w P Q" and "\<And>err. quiet S (f err)"
    and "\<And>a w1 w2. P a w1 \<Longrightarrow> S w2 = S w1 \<Longrightarrow> P a w2" and "\<And>e w1 w2. Q e w1 \<Longrightarrow> S w2 = S w1 \<Longrightarrow> Q e w2"
  shows "runs (deferA m f) w P Q"
proof -
  have f: "runs (f err) w1 (\<lambda>_ w'. S w' = S w1) (\<lambda>_ _. False)" for err w1 by (rule quietD [OF assms(2)])
  show ?thesis
  proof (cases rule: runsE [OF assms(1)])
    case (1 a w1)
    then show ?thesis using f [of None w1] assms(3) by (auto simp: runs_def deferA_def split: prod.splits res.splits)
  next
    case (2 e w1)
    then show ?thesis using f [of "Some e" w1] assms(4) by (auto simp: runs_def deferA_def split: prod.splits res.splits)
  qed
qed

end
