(* ===== verification/Kafka.thy ===== *)
theory Kafka
  imports KafkaTrace
begin

section \<open>Events\<close>

text \<open>
  server/kafka/topic.go and server/kafka/producer: the prefix of topic names, the producer
  over the Kafka client and its no-op stand-in, and the two producers of domain events.
  \<open>R\<close> is the runtime (environment, clock, lines and spans), \<open>J\<close> the JSON form of an event. A
  publication is a span around two lines around the call of the client. The contract of a producer is the locale
  \<open>kafka_producer\<close>, that of an event source \<open>announcer\<close>.
\<close>

subsection \<open>server/kafka/topic.go\<close>

definition topicPrefixEnv :: string where "topicPrefixEnv = ''KAFKA_TOPIC_PREFIX''"

definition TopicPrefix :: "'w Runtime \<Rightarrow> string" where
  "TopicPrefix R = os_Getenv R topicPrefixEnv"

definition PrefixedTopic :: "'w Runtime \<Rightarrow> string \<Rightarrow> string" where
  "PrefixedTopic R topic =
    (if topic = [] then topic
     else let prefix = TopicPrefix R in if prefix = [] then topic else prefix @ topic)"

definition PrefixedTopics :: "'w Runtime \<Rightarrow> string list \<Rightarrow> string list" where
  "PrefixedTopics R topics = (if length topics = 0 then topics else map (PrefixedTopic R) topics)"

definition LogicalTopic :: "'w Runtime \<Rightarrow> string \<Rightarrow> string" where
  "LogicalTopic R topic =
    (let prefix = TopicPrefix R in
     if prefix = [] \<or> topic = [] then topic else TrimPrefix topic prefix)"

lemma PrefixedTopic_Nil_iff [simp]: "PrefixedTopic R t = [] \<longleftrightarrow> t = []"
  by (simp add: PrefixedTopic_def Let_def)

lemma LogicalTopic_PrefixedTopic [simp]: "LogicalTopic R (PrefixedTopic R t) = t"
  by (simp add: LogicalTopic_def PrefixedTopic_def Let_def)

text \<open>
  Handlers see the topics the service names: stripping the prefix from the names given
  to the broker gives the names back, whatever the environment sets the prefix to, and
  prefixing keeps the number and the order of the topics.
\<close>

theorem topics_roundtrip:
  "map (LogicalTopic R) (PrefixedTopics R ts) = ts"
  by (induction ts) (simp_all add: PrefixedTopics_def split: if_splits)

subsection \<open>server/kafka/producer/producer.go\<close>

type_synonym 'w KafkaProducer = "ctx \<Rightarrow> string \<Rightarrow> string \<Rightarrow> string \<Rightarrow> ('w, unit) act"

definition nopKafkaProducer_Publish :: "'w Runtime \<Rightarrow> 'w KafkaProducer" where
  "nopKafkaProducer_Publish R c topic0 key val =
    (let topic = PrefixedTopic R topic0 in
     seqA (Infow R (WithContext R (Some c)) ''kafka publish skipped''
        [(''topic'', LogString topic), (''reason'', LogString ''producer disabled'')]) (ret ()))"

definition kafkaProducerImpl_Publish :: "'w Runtime \<Rightarrow> 'w KgoClient \<Rightarrow> 'w KafkaProducer" where
  "kafkaProducerImpl_Publish R K c topic0 key val =
    (let topic = PrefixedTopic R topic0 in
     if topic = [] then throw (NewError ''topic is empty'')
     else bindA (now R) (\<lambda>start. bindA (StartProduce R c topic []) (\<lambda>(c, span).
       deferA
         (seqA (LogProduceStart R c [(''topic'', LogString topic)])
           (deferA
             (kgo_ProduceSync K c \<lparr>Record_Topic = topic, Record_Key = key, Record_Value = val,
                Record_Headers = HeadersFromContext R c\<rparr>)
             (\<lambda>produceErr. bindA (now R) (\<lambda>t. LogProduceFinish R c (Microseconds (t - start)) produceErr
                [(''topic'', LogString topic)]))))
         (Finish R span))))"

definition validateConfig :: "KafkaConfig option \<Rightarrow> go_error option" where
  "validateConfig cfg = (case cfg of
      None \<Rightarrow> Some (NewError ''kafka config is nil'')
    | Some cfg \<Rightarrow> if length (Kafka_Brokers cfg) = 0 then Some (NewError ''kafka brokers is empty'') else None)"

text \<open>The options given to \<open>kgo.NewClient\<close>, and the client it returns or its error.\<close>

datatype KgoOpt = SeedBrokers "string list" | KgoClientID string

definition producer_opts :: "KafkaConfig \<Rightarrow> KgoOpt list" where
  "producer_opts cfg = [SeedBrokers (Kafka_Brokers cfg)]
     @ (if Kafka_ClientID cfg \<noteq> [] then [KgoClientID (Kafka_ClientID cfg)] else [])"

definition buildProducer ::
    "'w Runtime \<Rightarrow> (KgoOpt list \<Rightarrow> go_error + 'w KgoClient) \<Rightarrow> KafkaConfig option \<Rightarrow> ('w, 'w KafkaProducer) act" where
  "buildProducer R NewClient cfg = (case cfg of
      None \<Rightarrow> ret (nopKafkaProducer_Publish R)
    | Some cfg' \<Rightarrow>
        if \<not> Kafka_Enabled cfg' then ret (nopKafkaProducer_Publish R)
        else case validateConfig cfg of
            Some err \<Rightarrow> seqA (Errorw R (log_Logger R) ''kafka producer config invalid, using no-op producer''
                [(''error'', LogError err)]) (ret (nopKafkaProducer_Publish R))
          | None \<Rightarrow> (case NewClient (producer_opts cfg') of
                Inl err \<Rightarrow> seqA (Errorw R (log_Logger R) ''failed to create kafka producer, using no-op producer''
                  [(''error'', LogError err)]) (ret (nopKafkaProducer_Publish R))
              | Inr client \<Rightarrow> seqA (Infow R (log_Logger R) ''kafka producer initialized''
                  [(''brokers'', LogStrings (Kafka_Brokers cfg')), (''topic_prefix'', LogString (TopicPrefix R))])
                  (ret (kafkaProducerImpl_Publish R client))))"

subsection \<open>The contract of a producer\<close>

text \<open>
  \<open>published live P st st'\<close>: one record satisfying \<open>P\<close> has been added; nothing, when the
  producer is the stand-in (\<open>live\<close> false).
\<close>

definition published :: "bool \<Rightarrow> (KafkaRecord \<Rightarrow> bool) \<Rightarrow> Stores \<Rightarrow> Stores \<Rightarrow> bool" where
  "published live P st st' \<longleftrightarrow> (if live then \<exists>r. P r \<and> st' = add_event r st else st' = st)"

lemma published_frame:
  assumes "published live P st st'"
  shows "st_users st' = st_users st" "st_mappings st' = st_mappings st" "st_cache st' = st_cache st"
    and "st_events st' = st_events st \<or> (\<exists>r. P r \<and> st_events st' = st_events st @ [r])"
  using assms by (auto simp: published_def add_event_def split: if_splits)

lemma published_mono: "published live P st st' \<Longrightarrow> (\<And>r. P r \<Longrightarrow> Q r) \<Longrightarrow> published live Q st st'"
  by (auto simp: published_def split: if_splits)

text \<open>A record with its topic, key and value; its headers are free.\<close>

definition kafka_message :: "string \<Rightarrow> string \<Rightarrow> string \<Rightarrow> KafkaRecord \<Rightarrow> bool" where
  "kafka_message topic key val r \<longleftrightarrow> Record_Topic r = topic \<and> Record_Key r = key \<and> Record_Value r = val"

locale kafka_producer =
  fixes publish :: "'w KafkaProducer"
    and S :: "'w \<Rightarrow> Stores"
    and live :: bool
    and addr :: "string \<Rightarrow> string"
    and ok :: bool
  assumes publish_runs: "ok \<Longrightarrow> t \<noteq> [] \<Longrightarrow> runs (publish c t k v) w
      (\<lambda>_ w'. published live (kafka_message (addr t) k v) (S w) (S w'))
      (\<lambda>e w'. outside e \<and> (S w' = S w \<or> published live (kafka_message (addr t) k v) (S w) (S w')))"

text \<open>An event source announces values of some type, only the \<open>valid\<close> ones.\<close>

locale announcer =
  fixes announce :: "ctx \<Rightarrow> 'e \<Rightarrow> ('w, unit) act"
    and S :: "'w \<Rightarrow> Stores"
    and live :: bool
    and event :: "'e \<Rightarrow> KafkaRecord \<Rightarrow> bool"
    and valid :: "'e \<Rightarrow> bool"
    and ok :: bool
  assumes announce_runs: "ok \<Longrightarrow> runs (announce c e) w
      (\<lambda>_ w'. valid e \<and> published live (event e) (S w) (S w'))
      (\<lambda>x w'. outside x \<and> (S w' = S w \<or> valid e \<and> published live (event e) (S w) (S w')))"

lemma announcer_mono: "announcer announce S live event valid ok \<Longrightarrow> (ok' \<Longrightarrow> ok) \<Longrightarrow> announcer announce S live event valid ok'"
  unfolding announcer_def by blast

interpretation nop_producer: kafka_producer "nopKafkaProducer_Publish R" S False addr "runtime_ok S R" for R S addr
proof unfold_locales
  fix c w and t k v :: string
  assume "runtime_ok S R"
  note quiet = quiet_calls(2) [OF this]
  show "runs (nopKafkaProducer_Publish R c t k v) w
      (\<lambda>_ w'. published False (kafka_message (addr t) k v) (S w) (S w'))
      (\<lambda>e w'. outside e \<and> (S w' = S w \<or> published False (kafka_message (addr t) k v) (S w) (S w')))"
    unfolding nopKafkaProducer_Publish_def Let_def by (rule runs_quiet [OF quiet]) (simp add: published_def)
qed

interpretation kgo_producer:
  kafka_producer "kafkaProducerImpl_Publish R K" S True "PrefixedTopic R" "kafka_ok S K \<and> runtime_ok S R" for R K S
proof unfold_locales
  fix t k v :: string and c w
  assume ok: "kafka_ok S K \<and> runtime_ok S R" and t: "t \<noteq> []"
  let ?P = "\<lambda>_ w'. published True (kafka_message (PrefixedTopic R t) k v) (S w) (S w')"
  let ?Q = "\<lambda>e w'. outside e \<and> (S w' = S w \<or> published True (kafka_message (PrefixedTopic R t) k v) (S w) (S w'))"
  note quiet = quiet_calls [of S R] quiet_trace [of S R]
  have R: "runtime_ok S R" using ok ..
  have produce: "runs (kgo_ProduceSync K c1 \<lparr>Record_Topic = PrefixedTopic R t, Record_Key = k, Record_Value = v,
      Record_Headers = hs\<rparr>) w1 ?P ?Q" (is "runs (_ _ _ ?r) _ _ _") if "S w1 = S w" for c1 hs w1
  proof -
    have "published True (kafka_message (PrefixedTopic R t) k v) st (add_event ?r st)" for st
      unfolding published_def if_True by (rule exI [of _ ?r]) (simp add: kafka_message_def)
    then show ?thesis using that by (auto intro!: runs_mono [OF kafka_runs [OF ok [THEN conjunct1]]])
  qed
  have logged: "runs (deferA (kgo_ProduceSync K c1 \<lparr>Record_Topic = PrefixedTopic R t, Record_Key = k, Record_Value = v,
      Record_Headers = hs\<rparr>) (\<lambda>err. bindA (now R) (\<lambda>t2. LogProduceFinish R c1 (f t2) err fs))) w1 ?P ?Q"
    if "S w1 = S w" for c1 hs w1 f fs
    by (rule runs_deferA [OF produce [OF that]]) (auto intro!: quiet_bindA quiet R)
  have spanned: "runs (deferA (seqA (LogProduceStart R c1 fs0) (deferA (kgo_ProduceSync K c1 \<lparr>Record_Topic = PrefixedTopic R t,
      Record_Key = k, Record_Value = v, Record_Headers = hs\<rparr>) (\<lambda>err. bindA (now R) (\<lambda>t2. LogProduceFinish R c1 (f t2) err fs))))
      (Finish R span)) w1 ?P ?Q" if "S w1 = S w" for c1 hs w1 f fs fs0 span
    by (rule runs_deferA [OF runs_quiet [OF quiet(7) [OF R] logged]]) (use that in \<open>auto intro!: quiet R\<close>)
  show "runs (kafkaProducerImpl_Publish R K c t k v) w ?P ?Q"
    unfolding kafkaProducerImpl_Publish_def Let_def PrefixedTopic_Nil_iff if_not_P [OF t]
    by (rule runs_quiet [OF quiet(1) [OF R]], rule runs_quiet [OF quiet(9) [OF R]]) (use spanned in \<open>auto split: prod.split\<close>)
qed

subsection \<open>The two event producers\<close>

definition UserRegisteredTopic :: string where "UserRegisteredTopic = ''user.events.registered''"
definition UserKYCCompleteTopic :: string where "UserKYCCompleteTopic = ''user.events.kyc_complete''"

record UserRegisteredEvent =
  Registered_UserID :: int
  Registered_RegisterTime :: int
  Registered_Channel :: string
  Registered_InviterID :: int
  Registered_EventTime :: instant

record UserKYCCompleteEvent =
  KYCComplete_UserID :: int
  KYCComplete_KYCStatus :: string
  KYCComplete_KYCUpdatedAt :: instant
  KYCComplete_EventTime :: instant

text \<open>\<open>int(x)\<close> of an \<open>int64\<close> is the identity on the 64-bit targets of the service.\<close>

definition PublishUserRegistered ::
    "'w Runtime \<Rightarrow> UserRegisteredEvent Codec \<Rightarrow> 'w KafkaProducer \<Rightarrow> ctx \<Rightarrow> int \<Rightarrow> instant \<Rightarrow> ('w, unit) act" where
  "PublishUserRegistered R J publish c userID registerTime =
    (if userID \<le> 0 then throw (NewError ''user_id must be positive'')
     else if IsZero registerTime then throw (NewError ''register_time is required'')
     else bindA (now R) (\<lambda>t.
       case json_Marshal J \<lparr>Registered_UserID = userID, Registered_RegisterTime = Unix registerTime,
              Registered_Channel = [], Registered_InviterID = 0, Registered_EventTime = t\<rparr> of
         Inl err \<Rightarrow> throw (Wrapped ''marshal user registered event'' err)
       | Inr payload \<Rightarrow> publish c UserRegisteredTopic (FormatInt userID) payload))"

definition PublishUserKYCComplete ::
    "'w Runtime \<Rightarrow> UserKYCCompleteEvent Codec \<Rightarrow> 'w KafkaProducer \<Rightarrow> ctx \<Rightarrow> int \<Rightarrow> string \<Rightarrow> instant
      \<Rightarrow> ('w, unit) act" where
  "PublishUserKYCComplete R J publish c userID kycStatus kycUpdatedAt =
    (if userID \<le> 0 then throw (NewError ''user_id must be positive'')
     else if kycStatus = [] then throw (NewError ''kyc_status is required'')
     else if IsZero kycUpdatedAt then throw (NewError ''kyc_updated_at is required'')
     else bindA (now R) (\<lambda>t.
       case json_Marshal J \<lparr>KYCComplete_UserID = userID, KYCComplete_KYCStatus = kycStatus,
              KYCComplete_KYCUpdatedAt = kycUpdatedAt, KYCComplete_EventTime = t\<rparr> of
         Inl err \<Rightarrow> throw (Wrapped ''marshal user kyc complete event'' err)
       | Inr payload \<Rightarrow> publish c UserKYCCompleteTopic (FormatInt userID) payload))"

text \<open>
  The records the two producers may send, as their consumer decodes them.
\<close>

definition registered_record ::
    "(string \<Rightarrow> string) \<Rightarrow> UserRegisteredEvent Codec \<Rightarrow> int \<times> instant \<Rightarrow> KafkaRecord \<Rightarrow> bool" where
  "registered_record addr J = (\<lambda>(userID, registerTime) r.
     Record_Topic r = addr UserRegisteredTopic \<and> Record_Key r = FormatInt userID
     \<and> (\<exists>e. json_Unmarshal J (Record_Value r) = Inr e \<and> Registered_UserID e = userID
          \<and> Registered_RegisterTime e = Unix registerTime))"

definition kyc_record ::
    "(string \<Rightarrow> string) \<Rightarrow> UserKYCCompleteEvent Codec \<Rightarrow> int \<times> string \<times> instant \<Rightarrow> KafkaRecord \<Rightarrow> bool" where
  "kyc_record addr J = (\<lambda>(userID, kycStatus, kycUpdatedAt) r.
     Record_Topic r = addr UserKYCCompleteTopic \<and> Record_Key r = FormatInt userID
     \<and> (\<exists>e. json_Unmarshal J (Record_Value r) = Inr e \<and> KYCComplete_UserID e = userID
          \<and> KYCComplete_KYCStatus e = kycStatus \<and> KYCComplete_KYCUpdatedAt e = kycUpdatedAt))"

definition registered_valid :: "int \<times> instant \<Rightarrow> bool" where
  "registered_valid = (\<lambda>(userID, registerTime). 0 < userID \<and> \<not> IsZero registerTime)"

definition kyc_valid :: "int \<times> string \<times> instant \<Rightarrow> bool" where
  "kyc_valid = (\<lambda>(userID, kycStatus, kycUpdatedAt). 0 < userID \<and> kycStatus \<noteq> [] \<and> \<not> IsZero kycUpdatedAt)"

text \<open>Every producer that meets its contract makes the two event sources meet theirs.\<close>

locale event_sources = kafka_producer publish S live addr ok
  for publish :: "'w KafkaProducer" and S live addr ok +
  fixes R :: "'w Runtime"
    and JR :: "UserRegisteredEvent Codec"
    and JK :: "UserKYCCompleteEvent Codec"

context event_sources begin

lemma registered_runs:
  assumes "ok" and "runtime_ok S R" and "codec_ok JR"
  shows "runs (PublishUserRegistered R JR publish c i t) w
      (\<lambda>_ w'. registered_valid (i, t) \<and> published live (registered_record addr JR (i, t)) (S w) (S w'))
      (\<lambda>x w'. outside x \<and> (S w' = S w \<or>
        registered_valid (i, t) \<and> published live (registered_record addr JR (i, t)) (S w) (S w')))"
    (is "runs _ w ?P ?Q")
proof (cases "registered_valid (i, t)")
  case True
  have "runs (case json_Marshal JR e of Inl err \<Rightarrow> throw (Wrapped m err)
      | Inr payload \<Rightarrow> publish c UserRegisteredTopic (FormatInt i) payload) w1 ?P ?Q"
    if S1: "S w1 = S w" and fields: "Registered_UserID e = i" "Registered_RegisterTime e = Unix t" for e w1 m
  proof (cases "json_Marshal JR e")
    case (Inr payload)
    let ?r = "kafka_message (addr UserRegisteredTopic) (FormatInt i) payload"
    have "registered_record addr JR (i, t) r" if "?r r" for r
      using that Inr assms(3) fields by (auto simp: codec_ok_def registered_record_def kafka_message_def)
    then have "published live (registered_record addr JR (i, t)) (S w) (S w')"
      if "published live ?r (S w) (S w')" for w'
      using published_mono [OF that] by blast
    moreover have "UserRegisteredTopic \<noteq> []" by (simp add: UserRegisteredTopic_def)
    ultimately show ?thesis
      using True S1 Inr assms(1) by (auto intro!: runs_mono [OF publish_runs])
  qed (use S1 assms(3) in \<open>auto simp: codec_ok_def\<close>)
  with True show ?thesis
    unfolding PublishUserRegistered_def
    by (auto simp: registered_valid_def intro!: runs_bindA [OF runs_now [OF assms(2), where Q = "\<lambda>_ _. False"]])
next
  case False
  then show ?thesis by (auto simp: PublishUserRegistered_def registered_valid_def)
qed

lemma kyc_complete_runs:
  assumes "ok" and "runtime_ok S R" and "codec_ok JK"
  shows "runs (PublishUserKYCComplete R JK publish c i s t) w
      (\<lambda>_ w'. kyc_valid (i, s, t) \<and> published live (kyc_record addr JK (i, s, t)) (S w) (S w'))
      (\<lambda>x w'. outside x \<and> (S w' = S w \<or>
        kyc_valid (i, s, t) \<and> published live (kyc_record addr JK (i, s, t)) (S w) (S w')))"
    (is "runs _ w ?P ?Q")
proof (cases "kyc_valid (i, s, t)")
  case True
  have "runs (case json_Marshal JK e of Inl err \<Rightarrow> throw (Wrapped m err)
      | Inr payload \<Rightarrow> publish c UserKYCCompleteTopic (FormatInt i) payload) w1 ?P ?Q"
    if S1: "S w1 = S w" and fields: "KYCComplete_UserID e = i" "KYCComplete_KYCStatus e = s"
      "KYCComplete_KYCUpdatedAt e = t" for e w1 m
  proof (cases "json_Marshal JK e")
    case (Inr payload)
    let ?r = "kafka_message (addr UserKYCCompleteTopic) (FormatInt i) payload"
    have "kyc_record addr JK (i, s, t) r" if "?r r" for r
      using that Inr assms(3) fields by (auto simp: codec_ok_def kyc_record_def kafka_message_def)
    then have "published live (kyc_record addr JK (i, s, t)) (S w) (S w')"
      if "published live ?r (S w) (S w')" for w'
      using published_mono [OF that] by blast
    moreover have "UserKYCCompleteTopic \<noteq> []" by (simp add: UserKYCCompleteTopic_def)
    ultimately show ?thesis
      using True S1 Inr assms(1) by (auto intro!: runs_mono [OF publish_runs])
  qed (use S1 assms(3) in \<open>auto simp: codec_ok_def\<close>)
  with True show ?thesis
    unfolding PublishUserKYCComplete_def
    by (auto simp: kyc_valid_def intro!: runs_bindA [OF runs_now [OF assms(2), where Q = "\<lambda>_ _. False"]])
next
  case False
  then show ?thesis by (auto simp: PublishUserKYCComplete_def kyc_valid_def)
qed

end

sublocale event_sources \<subseteq> registered: announcer "\<lambda>c (i, t). PublishUserRegistered R JR publish c i t" S live
    "registered_record addr JR" registered_valid "ok \<and> runtime_ok S R \<and> codec_ok JR"
  by unfold_locales (use registered_runs in \<open>auto split: prod.splits\<close>)

sublocale event_sources \<subseteq> kyc_complete: announcer "\<lambda>c (i, s, t). PublishUserKYCComplete R JK publish c i s t" S live
    "kyc_record addr JK" kyc_valid "ok \<and> runtime_ok S R \<and> codec_ok JK"
  by unfold_locales (use kyc_complete_runs in \<open>auto split: prod.splits\<close>)

interpretation kgo_events: event_sources "kafkaProducerImpl_Publish R K" S True "PrefixedTopic R"
    "kafka_ok S K \<and> runtime_ok S R" R JR JK for R K S JR JK
  by unfold_locales

interpretation nop_events: event_sources "nopKafkaProducer_Publish R" S False "PrefixedTopic R" "runtime_ok S R" R JR JK
  for R S JR JK
  by unfold_locales

end
