(* ===== verification/ProcessWorld.thy ===== *)
theory ProcessWorld
  imports UserDaos MappingDao Singpass Kafka
begin

section \<open>The process and its surroundings\<close>

text \<open>
  The KYC state store lives in the memory of the process, everything else outside it. The
  world of the KYC service is a pair of both; a call that only concerns the outside is
  lifted to the pair by \<open>onSnd\<close>, and so are the interfaces made of such calls. Contracts
  carry over.
\<close>

definition lift_users :: "'e UserDao \<Rightarrow> ('m \<times> 'e) UserDao" where
  "lift_users dao = \<lparr>
     dao_GetByID = (\<lambda>c i. onSnd (dao_GetByID dao c i)),
     dao_CreateUser = (\<lambda>u. onSnd (dao_CreateUser dao u)),
     dao_UpdateKYCStatus = (\<lambda>c i s. onSnd (dao_UpdateKYCStatus dao c i s)),
     dao_UpdateProfile = (\<lambda>c i u. onSnd (dao_UpdateProfile dao c i u))\<rparr>"

definition lift_proxy :: "'e SingpassProxy \<Rightarrow> ('m \<times> 'e) SingpassProxy" where
  "lift_proxy p = \<lparr>
     proxy_GetAccessToken = (\<lambda>c code. onSnd (proxy_GetAccessToken p c code)),
     proxy_GetUserInfo = (\<lambda>c t. onSnd (proxy_GetUserInfo p c t))\<rparr>"

definition lift_redis :: "'e RedisClient \<Rightarrow> ('m \<times> 'e) RedisClient" where
  "lift_redis R = \<lparr>
     redis_Get = (\<lambda>c k. onSnd (redis_Get R c k)),
     redis_Set = (\<lambda>c k v d. onSnd (redis_Set R c k v d)),
     redis_Del = (\<lambda>c k. onSnd (redis_Del R c k))\<rparr>"

definition lift_runtime :: "'e Runtime \<Rightarrow> ('m \<times> 'e) Runtime" where
  "lift_runtime R = \<lparr>
     time_Now = (\<lambda>(s, w). case time_Now R w of (t, w') \<Rightarrow> (t, (s, w'))),
     rand_Read = (\<lambda>n. onSnd (rand_Read R n)),
     rand_Int = (\<lambda>n. onSnd (rand_Int R n)),
     os_Getenv = os_Getenv R,
     log_Logger = log_Logger R,
     log_Write = (\<lambda>e (s, w). (s, log_Write R e w)),
     otel_Start = (\<lambda>t n k a c (s, w). case otel_Start R t n k a c w of (p, w') \<Rightarrow> (p, (s, w'))),
     otel_Span = (\<lambda>h k (s, w). (s, otel_Span R h k w)),
     otel_Inject = otel_Inject R\<rparr>"

lemma now_lift: "now (lift_runtime R) = onSnd (now R)"
  by (auto simp: now_def lift_runtime_def onSnd_def fun_eq_iff split: prod.splits)

text \<open>A view of the pair that looks at the outside only through \<open>S\<close>.\<close>

lemma runtime_ok_lift_view:
  assumes "runtime_ok S R"
  shows "runtime_ok (\<lambda>sw. V (fst sw) (S (snd sw))) (lift_runtime R)"
proof -
  have span: "S (snd (otel_Start R t n k a c w)) = S w" for t n k a c w using assms by (simp add: runtime_ok_def)
  have start: "V (fst (snd (case otel_Start R t n k a c w of (p, w') \<Rightarrow> (p, s, w')))) (S (snd (snd
      (case otel_Start R t n k a c w of (p, w') \<Rightarrow> (p, s, w'))))) = V s (S w)" for t n k a c s w
    using span [of t n k a c w] by (simp add: split_beta)
  have clock: "keeps (\<lambda>sw. V (fst sw) (S (snd sw))) (onSnd (now R))"
    using assms by (auto simp: runtime_ok_def keeps_def onSnd_def split: prod.splits) (metis snd_conv)
  have pair: "runs m (snd sw) (\<lambda>a w'. P a \<and> S w' = S (snd sw)) (\<lambda>e w'. Q e \<and> S w' = S (snd sw))
      \<Longrightarrow> runs (onSnd m) sw (\<lambda>a sw'. P a \<and> V (fst sw') (S (snd sw')) = V (fst sw) (S (snd sw)))
        (\<lambda>e sw'. Q e \<and> V (fst sw') (S (snd sw')) = V (fst sw) (S (snd sw)))" for m :: "('a, 'z) act" and sw P Q
    by (cases sw) (auto simp: runs_def onSnd_def split: prod.splits res.splits)
  have bytes: "runs (onSnd (rand_Read R n)) sw (\<lambda>b sw'. length b = n \<and> V (fst sw') (S (snd sw')) = V (fst sw) (S (snd sw)))
      (\<lambda>e sw'. outside e \<and> V (fst sw') (S (snd sw')) = V (fst sw) (S (snd sw)))" for n sw
    by (rule pair) (use assms in \<open>simp add: runtime_ok_def\<close>)
  have number: "runs (onSnd (rand_Int R n)) sw
      (\<lambda>i sw'. (0 \<le> i \<and> i < n) \<and> V (fst sw') (S (snd sw')) = V (fst sw) (S (snd sw)))
      (\<lambda>e sw'. outside e \<and> V (fst sw') (S (snd sw')) = V (fst sw) (S (snd sw)))" if "0 < n" for n sw
    by (rule pair) (use assms that in \<open>simp add: runtime_ok_def\<close>)
  show ?thesis
    using assms number unfolding runtime_ok_def now_lift
    by (auto simp: lift_runtime_def clock bytes start)
qed

lemmas runtime_ok_lift = runtime_ok_lift_view [where V = "\<lambda>_ v. v"]
  and runtime_ok_pair = runtime_ok_lift_view [where V = Pair]

lemma redis_ok_lift:
  assumes "redis_ok S R"
  shows "redis_ok (\<lambda>sw. S (snd sw)) (lift_redis R)"
  unfolding redis_ok_def redis_get_ok_def redis_set_ok_def redis_del_ok_def
  by (simp add: lift_redis_def runs_onSnd' [OF redis_get_runs [OF assms]]
      runs_onSnd' [OF redis_set_runs [OF assms]] runs_onSnd' [OF redis_del_runs [OF assms]])

lemma cache_client_ok_lift:
  "cache_client_ok S C \<Longrightarrow> cache_client_ok (\<lambda>sw. S (snd sw)) (map_option lift_redis C)"
  by (cases C) (auto simp: cache_client_ok_def redis_ok_lift)

lemma user_table_lift:
  assumes "user_table dao S ok"
  shows "user_table (lift_users dao) (\<lambda>sw. S (snd sw)) ok"
proof unfold_locales
  note laws = user_table.get_runs [OF assms] user_table.create_runs [OF assms]
    user_table.kyc_runs [OF assms] user_table.profile_runs [OF assms]
  fix c i s sw and u :: User
  assume ok
  show "runs (dao_GetByID (lift_users dao) c i) sw
      (\<lambda>r sw'. S (snd sw') = S (snd sw) \<and> r = st_users (S (snd sw)) i) (\<lambda>e sw'. outside e \<and> S (snd sw') = S (snd sw))"
    by (simp add: lift_users_def runs_onSnd' [OF laws(1) [OF \<open>ok\<close>]])
  show "runs (dao_UpdateKYCStatus (lift_users dao) c i s) sw
      (\<lambda>r sw'. S (snd sw') = set_kyc_status i s (S (snd sw)))
      (\<lambda>e sw'. outside e \<and> (S (snd sw') = S (snd sw) \<or> S (snd sw') = set_kyc_status i s (S (snd sw))))"
    by (simp add: lift_users_def runs_onSnd' [OF laws(3) [OF \<open>ok\<close>]])
  assume u: "User_ID u = 0"
  show "runs (dao_CreateUser (lift_users dao) u) sw
      (\<lambda>u' sw'. \<exists>i r. 0 < i \<and> int64 i \<and> st_users (S (snd sw)) i = None \<and> u' = u\<lparr>User_ID := i\<rparr>
        \<and> r\<lparr>User_CreatedAt := User_CreatedAt u'\<rparr> = u'
        \<and> S (snd sw') = (S (snd sw))\<lparr>st_users := (st_users (S (snd sw)))(i \<mapsto> r)\<rparr>)
      (\<lambda>e sw'. outside e \<and> S (snd sw') = S (snd sw))"
    using runs_onSnd' [OF laws(2) [OF \<open>ok\<close> u]] by (simp add: lift_users_def)
  show "runs (dao_UpdateProfile (lift_users dao) c i (Some u)) sw
      (\<lambda>r sw'. S (snd sw') = update_user i u (S (snd sw)))
      (\<lambda>e sw'. outside e \<and> (S (snd sw') = S (snd sw) \<or> S (snd sw') = update_user i u (S (snd sw))))"
    by (simp add: lift_users_def runs_onSnd' [OF laws(4) [OF \<open>ok\<close> u]])
qed

lemma identity_provider_lift:
  assumes "identity_provider proxy S ok"
  shows "identity_provider (lift_proxy proxy) (\<lambda>sw. S (snd sw)) ok"
proof unfold_locales
  fix c code sw t
  assume ok
  show "runs (proxy_GetAccessToken (lift_proxy proxy) c code) sw
      (\<lambda>t sw'. t \<noteq> [] \<and> S (snd sw') = S (snd sw)) (\<lambda>e sw'. outside e \<and> S (snd sw') = S (snd sw))"
    by (simp add: lift_proxy_def runs_onSnd' [OF identity_provider.token_runs [OF assms \<open>ok\<close>]])
  show "runs (proxy_GetUserInfo (lift_proxy proxy) c t) sw
      (\<lambda>u sw'. S (snd sw') = S (snd sw)) (\<lambda>e sw'. outside e \<and> S (snd sw') = S (snd sw))"
    by (simp add: lift_proxy_def runs_onSnd' [OF identity_provider.userinfo_runs [OF assms \<open>ok\<close>]])
qed

lemma announcer_lift:
  assumes "announcer announce S live event valid ok"
  shows "announcer (\<lambda>c e. onSnd (announce c e)) (\<lambda>sw. S (snd sw)) live event valid ok"
  by unfold_locales (rule runs_onSnd' [OF announcer.announce_runs [OF assms]])

end
