(* ===== verification/SingpassLaws.thy ===== *)
theory SingpassLaws
  imports Singpass RefEnv
begin

section \<open>What the Singpass proxy sends and believes\<close>

text \<open>
  Properties of server/proxy on its own: the authorize URL and the token request as their
  receivers parse them, the choice and decoding of the client keys, the two ways in which a
  user info is believed, and the comparison of e-mail addresses.
\<close>

lemma sort_authorize_params:
  "sort_key fst (authorize_params cfg R state nonce) =
    [(''client_id'', TrimSpace (os_Getenv R ''SINGPASS_CLIENT_ID'')), (''nonce'', nonce),
     (''redirect_uri'', Cfg_RedirectURI cfg), (''response_type'', ''code''), (''scope'', Cfg_Scope cfg), (''state'', state)]"
  by (simp add: authorize_params_def less_eq_char_def less_char_def)

text \<open>
  C28. The browser is sent to the issuer with all six parameters intact: the URL is the
  issuer's without trailing slashes, \<open>/auth\<close> and a query that parses back to exactly the
  client id, nonce, redirect URI, response type, scope and state, whatever characters they
  contain.
\<close>

theorem authorize_url_roundtrip:
  "\<exists>q. BuildAuthorizeURL cfg R state nonce = TrimRight (Cfg_IssuerURL cfg) ''/'' @ ''/auth?'' @ q
    \<and> ParseQuery q =
        [(''client_id'', TrimSpace (os_Getenv R ''SINGPASS_CLIENT_ID'')), (''nonce'', nonce),
         (''redirect_uri'', Cfg_RedirectURI cfg), (''response_type'', ''code''), (''scope'', Cfg_Scope cfg),
         (''state'', state)]"
  unfolding BuildAuthorizeURL_def
  by (rule exI [of _ "Values_Encode (authorize_params cfg R state nonce)"])
    (simp only: ParseQuery_Encode sort_authorize_params)

subsection \<open>Keys\<close>

definition usable_signing_key :: "jwkPrivateKey \<Rightarrow> bool" where
  "usable_signing_key key \<longleftrightarrow> jwk_Use key = ''sig'' \<and> jwk_KTY key = ''EC'' \<and> jwk_D key \<noteq> []"

definition usable_encryption_key :: "jwkPrivateKey \<Rightarrow> bool" where
  "usable_encryption_key key \<longleftrightarrow> jwk_Use key = ''enc'' \<and> jwk_D key \<noteq> []"

lemma parseSigningKey_find:
  "parseSigningKey keys = (case find usable_signing_key keys of
      None \<Rightarrow> Inl (NewError ''no private signing key with use=sig found in client jwks'')
    | Some key \<Rightarrow> (case jwkToECDSA key of
        Inl err \<Rightarrow> Inl err
      | Inr (k, m) \<Rightarrow> Inr \<lparr>sk_privateKey = k, sk_kid = jwk_KID key, sk_method = m\<rparr>))"
  by (induction keys) (auto simp: usable_signing_key_def split: sum.splits)

lemma parseEncryptionKey_find:
  "parseEncryptionKey X keys = (case find usable_encryption_key keys of
      None \<Rightarrow> Inl (NewError ''no private encryption key with use=enc found in client jwks'')
    | Some key \<Rightarrow> jwk_ParseKey X key)"
  by (induction keys) (auto simp: usable_encryption_key_def)

lemma decode_encoded [simp]: "decodeBase64URLBigInt (RawURL_EncodeToString b) = Inr (big_SetBytes b)"
  by (simp add: decodeBase64URLBigInt_def)

text \<open>
  The signing key is the first private EC key of the set marked for signing, and its
  three numbers are decoded exactly: a P-256 key whose fields are the base64url encodings
  of the bytes \<open>d\<close>, \<open>x\<close> and \<open>y\<close> gives the big-endian numbers of these bytes.
\<close>

theorem signing_key_is_decoded:
  assumes "find usable_signing_key keys = Some \<lparr>jwk_KTY = ''EC'', jwk_Use = ''sig'', jwk_Crv = ''P-256'', jwk_KID = kid,
      jwk_Alg = ''ES256'', jwk_D = RawURL_EncodeToString d, jwk_X = RawURL_EncodeToString x, jwk_Y = RawURL_EncodeToString y\<rparr>"
  shows "parseSigningKey keys = Inr \<lparr>sk_privateKey = \<lparr>ecdsa_Curve = P256, ecdsa_X = big_SetBytes x,
      ecdsa_Y = big_SetBytes y, ecdsa_D = big_SetBytes d\<rparr>, sk_kid = kid, sk_method = ES256\<rparr>"
  by (simp add: parseSigningKey_find assms jwkToECDSA_def curveAndMethod_def signingMethodForAlg_def)

subsection \<open>A reference Singpass\<close>

text \<open>
  A reference Singpass that answers every code with one token and every token with the name
  and e-mail of alice, and a clock that stands still.
\<close>

definition still_ref :: "refw Runtime" where
  "still_ref = ref_runtime\<lparr>time_Now := (\<lambda>w. (63000000000 * Second, w))\<rparr>"

definition ref_http :: "refw HttpClient" where
  "ref_http = \<lparr>http_Do = (\<lambda>c q w. (Ok \<lparr>Resp_StatusCode = 200,
     Resp_Body = Inr (if Req_Method q = ''POST'' then ''token'' else ''{info}'')\<rparr>, w))\<rparr>"

definition ref_jose :: "(refw, unit, unit) Jose" where
  "ref_jose = \<lparr>jwt_SignedString = (\<lambda>m h cl k w. (Ok ''assertion'', w)), jwk_Parse = (\<lambda>s. Inr ()),
     jwk_ParseKey = (\<lambda>k. Inr ()), jwk_AddKey = (\<lambda>k. None), jwe_Decrypt = (\<lambda>k s. Inl (External ''jwe'')),
     jws_Verify = (\<lambda>k s. Inl (External ''jws''))\<rparr>"

definition ref_json :: SingpassJson where
  "ref_json = \<lparr>json_TokenResult = (\<lambda>s. Inr ''access''),
     json_UserInfo = (\<lambda>s. Inr (zero_UserInfo\<lparr>UserInfo_Name := ''alice'', UserInfo_Email := ''alice@example.com''\<rparr>)),
     json_RawObject = (\<lambda>s. Inl (External ''json'')), json_WrappedValue = (\<lambda>s. Inl (External ''json'')),
     json_PlainString = (\<lambda>s. Inl (External ''json'')), json_JwksFile = (\<lambda>s. Inl (External ''json''))\<rparr>"

definition ref_cfg :: SingpassConfig where
  "ref_cfg = \<lparr>Cfg_RedirectURI = ''https://id.example/cb'', Cfg_Scope = ''openid'', Cfg_IssuerURL = ''https://sp.example/'',
     Cfg_AssertionAud = [], Cfg_TokenURL = ''https://sp.example/token'', Cfg_UserInfoURL = ''https://sp.example/userinfo'',
     Cfg_JWKSURI = []\<rparr>"

definition ref_proxy :: "(unit, unit) singpassProxyImpl" where
  "ref_proxy = \<lparr>sp_ClientID = ''client'', sp_Issuer = ''https://sp.example'', sp_SigningKey = Some
     \<lparr>sk_privateKey = \<lparr>ecdsa_Curve = P256, ecdsa_X = 1, ecdsa_Y = 2, ecdsa_D = 3\<rparr>, sk_kid = ''k1'', sk_method = ES256\<rparr>,
     sp_EncryptionKey = None, sp_ASPKeySet = None\<rparr>"


text \<open>
  C27. What a token request is: an access token is only returned when the configured Singpass
  endpoint answered 200 with it to a POST whose form carries this code, the redirect URI,
  the client id and an assertion; and the assertion was signed with the configured key over
  claims that name the client as issuer and subject and Singpass as audience and expire
  after 120 seconds.
\<close>

theorem token_request_outcome:
  assumes "singpassProxyImpl_GetAccessToken cfg R H X D p c code w = (Ok t, w')"
  shows "\<exists>k assertion claims w1 w2 resp body. sp_SigningKey p = Some k \<and> sp_ClientID p \<noteq> [] \<and> sp_Issuer p \<noteq> []
    \<and> jwt_SignedString X (sk_method k) [(''typ'', ''JWT''), (''kid'', sk_kid k)] claims (sk_privateKey k) w1 = (Ok assertion, w2)
    \<and> claim_iss claims = sp_ClientID p \<and> claim_sub claims = sp_ClientID p \<and> claim_aud claims = sp_Issuer p
    \<and> claim_exp claims = claim_iat claims + 120
    \<and> http_Do H c (token_request cfg (sp_ClientID p) assertion code) w2 = (Ok resp, w')
    \<and> ParseQuery (Req_Body (token_request cfg (sp_ClientID p) assertion code)) =
        [(''client_assertion'', assertion), (''client_assertion_type'', clientAssertionType), (''client_id'', sp_ClientID p),
         (''code'', code), (''grant_type'', ''authorization_code''), (''redirect_uri'', Cfg_RedirectURI cfg)]
    \<and> Resp_StatusCode resp = 200 \<and> Resp_Body resp = Inr body \<and> json_TokenResult D body = Inr t \<and> t \<noteq> []"
proof -
  obtain k where k: "sp_SigningKey p = Some k" and ids: "sp_ClientID p \<noteq> []" "sp_Issuer p \<noteq> []"
    using assms by (auto simp: singpassProxyImpl_GetAccessToken_def throw_def split: option.splits if_splits)
  from assms obtain assertion w2 resp w3 where
    a: "clientAssertion R X k (sp_ClientID p) (sp_Issuer p) w = (Ok assertion, w2)"
    and h: "http_Do H c (token_request cfg (sp_ClientID p) assertion code) w2 = (Ok resp, w3)"
    and r: "(if Resp_StatusCode resp \<noteq> 200 then throw (NewError ''failed to get access token'')
            else case Resp_Body resp of Inl err \<Rightarrow> throw err
              | Inr body \<Rightarrow> (case json_TokenResult D body of Inl err \<Rightarrow> throw err
                | Inr accessToken \<Rightarrow> if accessToken = [] then throw (NewError ''token response missing access_token'')
                    else ret accessToken)) w3 = (Ok t, w')"
    by (auto simp: singpassProxyImpl_GetAccessToken_def k ids elim!: bindA_OkE)
  from a obtain claims w1 where
    "jwt_SignedString X (sk_method k) [(''typ'', ''JWT''), (''kid'', sk_kid k)] claims (sk_privateKey k) w1 = (Ok assertion, w2)"
    "claim_iss claims = sp_ClientID p" "claim_sub claims = sp_ClientID p" "claim_aud claims = sp_Issuer p"
    "claim_exp claims = claim_iat claims + 120"
    by (auto simp: clientAssertion_def Let_def elim!: bindA_OkE)
  moreover have "ParseQuery (Req_Body (token_request cfg (sp_ClientID p) assertion code)) =
        [(''client_assertion'', assertion), (''client_assertion_type'', clientAssertionType), (''client_id'', sp_ClientID p),
         (''code'', code), (''grant_type'', ''authorization_code''), (''redirect_uri'', Cfg_RedirectURI cfg)]"
    by (simp add: token_request_def ParseQuery_Encode less_eq_char_def less_char_def)
  moreover obtain body where "w3 = w'" "Resp_StatusCode resp = 200" "Resp_Body resp = Inr body"
      "json_TokenResult D body = Inr t" "t \<noteq> []"
    using r by (auto simp: act_simps split: if_splits sum.splits)
  ultimately show ?thesis using k ids h by blast
qed

text \<open>
  C26. When a user info is believed: it came with status 200 from the configured endpoint, and
  either the answer is an encrypted token that the configured key decrypts and whose
  content Singpass's key set verifies, and the user info is what its claims say; or the
  answer is a JSON object in the clear, which is taken as it is.
\<close>

theorem userinfo_is_believed:
  assumes "singpassProxyImpl_GetUserInfo cfg H X D p c token w = (Ok r, w')"
  shows "\<exists>q resp body u. http_Do H c q w = (Ok resp, w') \<and> Req_URL q = Cfg_UserInfoURL cfg
    \<and> (''Authorization'', ''Bearer '' @ token) \<in> set (Req_Header q)
    \<and> Resp_StatusCode resp = 200 \<and> Resp_Body resp = Inr body \<and> r = Some u
    \<and> (if HasPrefix (TrimSpace body) ''{'' then json_UserInfo D body = Inr u
       else \<exists>key keySet decrypted verified. sp_EncryptionKey p = Some key \<and> sp_ASPKeySet p = Some keySet
         \<and> jwe_Decrypt X key (TrimSpace body) = Inr decrypted \<and> jws_Verify X keySet decrypted = Inr verified
         \<and> u = mapSingpassClaimsToUserInfo D verified)"
proof -
  let ?q = "\<lparr>Req_Method = ''GET'', Req_URL = Cfg_UserInfoURL cfg,
    Req_Header = [(''Authorization'', ''Bearer '' @ token), (''Accept'', ''application/jwt, application/json'')], Req_Body = []\<rparr>"
  from assms obtain resp w1 body u where h: "http_Do H c ?q w = (Ok resp, w1)" and "w1 = w'" "Resp_Body resp = Inr body"
    "Resp_StatusCode resp = 200" "parseUserInfoResponse X D p body = Inr u" "r = Some u"
    by (auto simp: singpassProxyImpl_GetUserInfo_def act_simps elim!: bindA_OkE split: sum.splits if_splits)
  moreover from this(5) have "if HasPrefix (TrimSpace body) ''{'' then json_UserInfo D body = Inr u
       else \<exists>key keySet decrypted verified. sp_EncryptionKey p = Some key \<and> sp_ASPKeySet p = Some keySet
         \<and> jwe_Decrypt X key (TrimSpace body) = Inr decrypted \<and> jws_Verify X keySet decrypted = Inr verified
         \<and> u = mapSingpassClaimsToUserInfo D verified"
    by (auto simp: parseUserInfoResponse_def decryptUserInfo_def Let_def split: if_splits sum.splits option.splits)
  ultimately show ?thesis by (intro exI [of _ ?q]) auto
qed

subsection \<open>Witnesses\<close>

theorem signing_key_is_decoded_witness:
  "parseSigningKey [\<lparr>jwk_KTY = ''EC'', jwk_Use = ''enc'', jwk_Crv = ''P-256'', jwk_KID = ''e'', jwk_Alg = [], jwk_D = ''AQ'',
       jwk_X = [], jwk_Y = []\<rparr>,
     \<lparr>jwk_KTY = ''EC'', jwk_Use = ''sig'', jwk_Crv = ''P-256'', jwk_KID = ''k'', jwk_Alg = ''ES256'',
       jwk_D = ''AQI'', jwk_X = ''Aw'', jwk_Y = ''BA''\<rparr>]
   = Inr \<lparr>sk_privateKey = \<lparr>ecdsa_Curve = P256, ecdsa_X = 3, ecdsa_Y = 4, ecdsa_D = 258\<rparr>, sk_kid = ''k'', sk_method = ES256\<rparr>"
proof -
  have enc: "RawURL_EncodeToString [CHR 0x01, CHR 0x02] = ''AQI''" "RawURL_EncodeToString [CHR 0x03] = ''Aw''"
      "RawURL_EncodeToString [CHR 0x04] = ''BA''" "big_SetBytes [CHR 0x01, CHR 0x02] = 258" "big_SetBytes [CHR 0x03] = 3"
      "big_SetBytes [CHR 0x04] = 4"
    by code_simp+
  show ?thesis
    by (subst signing_key_is_decoded [where d = "[CHR 0x01, CHR 0x02]" and x = "[CHR 0x03]" and y = "[CHR 0x04]" and kid = "''k''"])
      (simp_all add: enc usable_signing_key_def)
qed

theorem token_request_outcome_witness:
  "\<exists>claims w1 w2. jwt_SignedString ref_jose ES256 [(''typ'', ''JWT''), (''kid'', ''k1'')] claims
      \<lparr>ecdsa_Curve = P256, ecdsa_X = 1, ecdsa_Y = 2, ecdsa_D = 3\<rparr> w1 = (Ok ''assertion'', w2)
    \<and> claim_aud claims = ''https://sp.example''"
proof -
  let ?run = "singpassProxyImpl_GetAccessToken ref_cfg still_ref ref_http ref_jose ref_json ref_proxy Background ''code'' alice_world"
  have "fst ?run = Ok ''access''" by code_simp
  then have "?run = (Ok ''access'', snd ?run)" by (simp add: prod_eq_iff)
  from token_request_outcome [OF this] show ?thesis
    by (auto simp: ref_proxy_def ref_jose_def)
qed

theorem userinfo_is_believed_witness:
  "\<exists>body u. HasPrefix (TrimSpace body) ''{'' \<and> json_UserInfo ref_json body = Inr u \<and> UserInfo_Name u = ''alice''"
proof -
  let ?run = "singpassProxyImpl_GetUserInfo ref_cfg ref_http ref_jose ref_json ref_proxy Background ''access'' alice_world"
  have "is_Ok (fst ?run)" by code_simp
  then obtain r where "?run = (Ok r, snd ?run)" by (auto elim!: is_OkE simp: prod_eq_iff)
  from userinfo_is_believed [OF this] show ?thesis
    by (auto simp: ref_json_def ref_proxy_def split: if_splits)
qed

end
