(* ===== verification/KYCService.thy ===== *)
theory KYCService
  imports KYCStore ProfileLaws ProcessWorld SingpassLaws
begin

section \<open>Know your customer\<close>

text \<open>
  server/service/kyc_service.go: starting a Singpass attempt and completing it. The fields
  of \<open>kycServiceImpl\<close> are the arguments \<open>proxy\<close>, \<open>users\<close>, \<open>store\<close> and \<open>kycComplete\<close> (the
  method of \<open>kycCompleteProd\<close>); \<open>cfg\<close> and \<open>R\<close> are what the package \<open>proxy\<close> reads, \<open>C\<close> the
  cache client, \<open>orbit\<close> the simple Unicode case folding of \<open>strings.EqualFold\<close>. Readings of
  the clock that only feed log lines are left out.
\<close>

definition emailsMatchForKYC :: "(nat \<Rightarrow> nat \<Rightarrow> bool) \<Rightarrow> string \<Rightarrow> string \<Rightarrow> bool" where
  "emailsMatchForKYC orbit pendingEmail singpassEmail =
    (let pending = TrimSpace pendingEmail; singpass = TrimSpace singpassEmail in
     if EqualFold orbit pending singpass then True
     else EqualFold orbit (ReplaceAll pending ''+clerk_test'' []) singpass)"

definition trimStatePrefix :: "string \<Rightarrow> string" where
  "trimStatePrefix state =
    (if state = [] then [] else if length state \<le> 8 then state else take 8 state)"

definition saveA :: "'w KYCStateStore \<Rightarrow> string \<Rightarrow> KYCPending \<Rightarrow> ('w, unit) act" where
  "saveA store state p = (\<lambda>w. (Ok (), store_Save store state p w))"

definition consumeA :: "'w KYCStateStore \<Rightarrow> string \<Rightarrow> ('w, KYCPending option) act" where
  "consumeA store state = (\<lambda>w. case store_Consume store state w of (r, w') \<Rightarrow> (Ok r, w'))"

definition svc_StartSingpassLogin ::
    "'w KYCStateStore \<Rightarrow> SingpassConfig \<Rightarrow> 'w Runtime \<Rightarrow> ctx \<Rightarrow> int \<Rightarrow> string \<Rightarrow> ('w, string) act" where
  "svc_StartSingpassLogin store cfg R c userID email =
    tryA (RandomOAuthParam R)
      (\<lambda>state. tryA (RandomOAuthParam R)
        (\<lambda>nonce. seqA
           (saveA store state \<lparr>Pending_InternalUserID = userID, Pending_Email = email, Pending_ExpiresAt = 0\<rparr>)
           (ret (BuildAuthorizeURL cfg R state nonce)))
        (\<lambda>err. throw (Wrapped ''generate oauth nonce'' err)))
      (\<lambda>err. throw (Wrapped ''generate oauth state'' err))"

text \<open>The e-mail, and the status, that a \<open>*UserInfo\<close> stands for.\<close>

definition singpassEmail :: "UserInfo option \<Rightarrow> string" where
  "singpassEmail userInfo = (case userInfo of None \<Rightarrow> [] | Some u \<Rightarrow> UserInfo_Email u)"

definition kycStatusFor :: "UserInfo option \<Rightarrow> string" where
  "kycStatusFor userInfo = (case userInfo of None \<Rightarrow> KYCStatusFailed
     | Some u \<Rightarrow> if UserInfo_Name u \<noteq> [] then KYCStatusPassed else KYCStatusFailed)"

definition workCtx :: "ctx \<Rightarrow> ctx" where
  "workCtx c = WithTimeout (WithoutCancel c) (30 * Second)"

definition complete_kyc ::
    "'w UserDao \<Rightarrow> 'w RedisClient option \<Rightarrow> 'w Runtime \<Rightarrow> (ctx \<Rightarrow> int \<Rightarrow> string \<Rightarrow> instant \<Rightarrow> ('w, unit) act)
      \<Rightarrow> ctx \<Rightarrow> int \<Rightarrow> string \<Rightarrow> ('w, unit) act" where
  "complete_kyc users C R kycComplete work userID kycStatus =
    bindA (now R) (\<lambda>kycUpdatedAt.
      seqA (dao_UpdateKYCStatus users work userID kycStatus)
        (seqA (InvalidateUserProfileCache C work userID)
          (kycComplete work userID kycStatus kycUpdatedAt)))"

text \<open>The part of the callback that runs once its state has been redeemed.\<close>

definition verify_attempt ::
    "'w SingpassProxy \<Rightarrow> 'w UserDao \<Rightarrow> (ctx \<Rightarrow> int \<Rightarrow> string \<Rightarrow> instant \<Rightarrow> ('w, unit) act)
      \<Rightarrow> 'w RedisClient option \<Rightarrow> 'w Runtime \<Rightarrow> (nat \<Rightarrow> nat \<Rightarrow> bool) \<Rightarrow> ctx \<Rightarrow> string \<Rightarrow> KYCPending \<Rightarrow> ('w, unit) act" where
  "verify_attempt proxy users kycComplete C R orbit c code pending =
    bindA (proxy_GetAccessToken proxy (workCtx c) code) (\<lambda>accessToken.
    bindA (proxy_GetUserInfo proxy (workCtx c) accessToken) (\<lambda>userInfo.
      if Pending_Email pending \<noteq> []
         \<and> \<not> emailsMatchForKYC orbit (Pending_Email pending) (singpassEmail userInfo)
      then throw ErrKYCEmailMismatch
      else complete_kyc users C R kycComplete (workCtx c)
             (Pending_InternalUserID pending) (kycStatusFor userInfo)))"

definition svc_SingpassCallback ::
    "'w SingpassProxy \<Rightarrow> 'w UserDao \<Rightarrow> 'w KYCStateStore \<Rightarrow> (ctx \<Rightarrow> int \<Rightarrow> string \<Rightarrow> instant \<Rightarrow> ('w, unit) act)
      \<Rightarrow> 'w RedisClient option \<Rightarrow> 'w Runtime \<Rightarrow> (nat \<Rightarrow> nat \<Rightarrow> bool) \<Rightarrow> ctx \<Rightarrow> string \<Rightarrow> string \<Rightarrow> ('w, unit) act" where
  "svc_SingpassCallback proxy users store kycComplete C R orbit c code state =
    bindA (consumeA store state) (\<lambda>pending. case pending of
      None \<Rightarrow> throw ErrInvalidOAuthState
    | Some pending \<Rightarrow> verify_attempt proxy users kycComplete C R orbit c code pending)"

subsection \<open>The service over its interfaces\<close>

text \<open>
  \<open>settled\<close>: what a completed attempt leaves: the status of the bound user, his cached
  profile gone if Redis answers, and the event.
\<close>

definition kyc_told ::
    "bool \<Rightarrow> (int \<times> string \<times> instant \<Rightarrow> KafkaRecord \<Rightarrow> bool) \<Rightarrow> Stores \<Rightarrow> int \<Rightarrow> string \<Rightarrow> Stores \<Rightarrow> bool" where
  "kyc_told live event st0 i s st' \<longleftrightarrow>
     (\<exists>t st. st_events st = st_events st0 \<and> published live (event (i, s, t)) st st')"

definition kyc_set :: "int \<Rightarrow> string \<Rightarrow> Stores \<Rightarrow> Stores \<Rightarrow> bool" where
  "kyc_set i s st st' \<longleftrightarrow> st_users st' = st_users (set_kyc_status i s st) \<and> st_mappings st' = st_mappings st
     \<and> (\<forall>k v. st_cache st' k = Some v \<longrightarrow> st_cache st k = Some v)"

locale kyc_service =
  store: one_time_store store pend + users: user_table users S uok + idp: identity_provider proxy S iok +
  complete: announcer "\<lambda>c (i, s, t). kycComplete c i s t" S live event kyc_valid pok
  for store :: "'w KYCStateStore" and pend :: "'w \<Rightarrow> string \<Rightarrow> KYCPending option"
    and users :: "'w UserDao" and S :: "'w \<Rightarrow> Stores" and uok :: bool
    and proxy :: "'w SingpassProxy" and iok :: bool
    and kycComplete :: "ctx \<Rightarrow> int \<Rightarrow> string \<Rightarrow> instant \<Rightarrow> ('w, unit) act" and live :: bool
    and event :: "int \<times> string \<times> instant \<Rightarrow> KafkaRecord \<Rightarrow> bool" and pok :: bool +
  fixes C :: "'w RedisClient option"
    and R :: "'w Runtime"
    and cfg :: SingpassConfig
    and orbit :: "nat \<Rightarrow> nat \<Rightarrow> bool"
    and sok :: bool
  assumes save_S: "sok \<Longrightarrow> S (store_Save store s p w) = S w"
    and consume_S: "sok \<Longrightarrow> store_Consume store s w = (r, w') \<Longrightarrow> S w' = S w"
    and token_pend: "keeps pend (proxy_GetAccessToken proxy c code)"
    and info_pend: "keeps pend (proxy_GetUserInfo proxy c t)"
    and status_pend: "keeps pend (dao_UpdateKYCStatus users c i s)"
    and complete_pend: "keeps pend (kycComplete c i s at)"
    and cache_pend: "keeps pend (InvalidateUserProfileCache C c i)"
    and now_pend: "keeps pend (now R)"
    and random_pend: "keeps pend (rand_Read R n)"

context kyc_service begin

lemma complete_kyc_pend: "keeps pend (complete_kyc users C R kycComplete work i s)"
  unfolding complete_kyc_def
  by (intro keeps_bindA now_pend status_pend cache_pend complete_pend)

text \<open>After the writes: the event.\<close>

lemma tell_runs:
  assumes "pok" and "cache_client_ok S C" and "kyc_set i s st0 (S w1)" and "st_events (S w1) = st_events st0"
  shows "runs (seqA (InvalidateUserProfileCache C work i) (kycComplete work i s t)) w1
      (\<lambda>_ w'. kyc_set i s st0 (S w') \<and> kyc_told live event st0 i s (S w'))
      (\<lambda>e w'. outside e \<and> kyc_set i s st0 (S w') \<and>
         (st_events (S w') = st_events st0 \<or> kyc_told live event st0 i s (S w')))"
    (is "runs _ w1 ?P ?Q")
proof (rule runs_bindA [OF InvalidateUserProfileCache_runs [OF assms(2), where Q = "\<lambda>_ _. False"]])
  fix x w2
  assume "shrinks (S w1) (S w2) \<and> (answering C \<longrightarrow> C \<noteq> None \<longrightarrow> 0 < i
    \<longrightarrow> st_cache (S w2) (userProfileCacheKey i) = None)"
  then have sh: "shrinks (S w1) (S w2)" by blast
  have set2: "kyc_set i s st0 (S w2)"
    using assms(3) shrinksD(1,2,4) [OF sh] by (simp add: kyc_set_def)
  have ev2: "st_events (S w2) = st_events st0" using shrinksD(3) [OF sh] assms(4) by simp
  have told: "kyc_set i s st0 (S w3) \<and> kyc_told live event st0 i s (S w3)"
    if "published live (event (i, s, t)) (S w2) (S w3)" for w3
    using set2 ev2 published_frame(1-3) [OF that] that by (auto simp: kyc_set_def kyc_told_def)
  show "runs (kycComplete work i s t) w2 ?P ?Q"
    by (rule runs_mono [OF complete.announce_runs [OF assms(1), of work "(i, s, t)" w2, simplified]])
      (use told set2 ev2 in auto)
qed simp

lemma complete_kyc_runs:
  assumes "uok" and "pok" and "runtime_ok S R" and "cache_client_ok S C"
  shows "runs (complete_kyc users C R kycComplete work i s) w
      (\<lambda>_ w'. kyc_set i s (S w) (S w') \<and> kyc_told live event (S w) i s (S w'))
      (\<lambda>e w'. outside e \<and> (S w' = S w \<or> kyc_set i s (S w) (S w') \<and>
         (st_events (S w') = st_events (S w) \<or> kyc_told live event (S w) i s (S w'))))"
    (is "runs _ w ?P ?Q")
  unfolding complete_kyc_def
proof (rule runs_bindA [OF runs_now [OF assms(3), where Q = "\<lambda>_ _. False"]], rule runs_bindA [OF users.kyc_runs [OF assms(1)]])
  fix t w1 x w2
  assume "S w1 = S w" "S w2 = set_kyc_status i s (S w1)"
  then have "kyc_set i s (S w) (S w2)" "st_events (S w2) = st_events (S w)"
    by (simp_all add: kyc_set_def)
  from tell_runs [OF assms(2,4) this]
  show "runs (seqA (InvalidateUserProfileCache C work i) (kycComplete work i s t)) w2 ?P ?Q"
    by (rule runs_mono) auto
qed (auto simp: kyc_set_def)

text \<open>After the state has been redeemed: at most the bound user's row changes.\<close>

lemma verify_attempt_runs:
  assumes ok: "uok" "iok" "pok" "runtime_ok S R" "cache_client_ok S C"
  shows "runs (verify_attempt proxy users kycComplete C R orbit c code p) w
      (\<lambda>_ w'. \<exists>ui. (Pending_Email p \<noteq> [] \<longrightarrow> emailsMatchForKYC orbit (Pending_Email p) (singpassEmail ui))
          \<and> (\<exists>tok v v'. proxy_GetUserInfo proxy (workCtx c) tok v = (Ok ui, v'))
          \<and> kyc_set (Pending_InternalUserID p) (kycStatusFor ui) (S w) (S w')
          \<and> kyc_told live event (S w) (Pending_InternalUserID p) (kycStatusFor ui) (S w'))
      (\<lambda>e w'. S w' = S w \<and> e = ErrKYCEmailMismatch \<and> Pending_Email p \<noteq> []
        \<or> outside e \<and> (S w' = S w
            \<or> (\<exists>ui. kyc_set (Pending_InternalUserID p) (kycStatusFor ui) (S w) (S w')
                \<and> (st_events (S w') = st_events (S w)
                   \<or> kyc_told live event (S w) (Pending_InternalUserID p) (kycStatusFor ui) (S w')))))"
    (is "runs _ w ?P ?Q")
  unfolding verify_attempt_def
proof (rule runs_bindA [OF idp.token_runs [OF ok(2)]])
  fix tok :: string and w2
  assume "tok \<noteq> [] \<and> S w2 = S w"
  then have S2: "S w2 = S w" by simp
  have info: "runs (proxy_GetUserInfo proxy (workCtx c) tok) w2
      (\<lambda>u w'. S w' = S w \<and> (\<exists>v v'. proxy_GetUserInfo proxy (workCtx c) tok v = (Ok u, v')))
      (\<lambda>e w'. outside e \<and> S w' = S w)"
    using idp.userinfo_runs [OF ok(2), of "workCtx c" tok w2] S2
    by (auto simp: runs_def split: prod.splits res.splits)
  show "runs (bindA (proxy_GetUserInfo proxy (workCtx c) tok) (\<lambda>userInfo.
        if Pending_Email p \<noteq> [] \<and> \<not> emailsMatchForKYC orbit (Pending_Email p) (singpassEmail userInfo)
        then throw ErrKYCEmailMismatch
        else complete_kyc users C R kycComplete (workCtx c) (Pending_InternalUserID p) (kycStatusFor userInfo))) w2 ?P ?Q"
  proof (rule runs_bindA [OF info])
    fix ui w3
    assume ui: "S w3 = S w \<and> (\<exists>v v'. proxy_GetUserInfo proxy (workCtx c) tok v = (Ok ui, v'))"
    show "runs (if Pending_Email p \<noteq> [] \<and> \<not> emailsMatchForKYC orbit (Pending_Email p) (singpassEmail ui)
        then throw ErrKYCEmailMismatch
        else complete_kyc users C R kycComplete (workCtx c) (Pending_InternalUserID p) (kycStatusFor ui)) w3 ?P ?Q"
    proof (cases "Pending_Email p \<noteq> [] \<and> \<not> emailsMatchForKYC orbit (Pending_Email p) (singpassEmail ui)")
      case True
      then show ?thesis using ui by simp
    next
      case False
      then show ?thesis
        unfolding if_not_P [OF False]
        by (intro runs_mono [OF complete_kyc_runs [OF ok(1,3,4,5)]]) (use ui in auto)
    qed
  qed auto
qed auto

lemma verify_attempt_pend: "keeps pend (verify_attempt proxy users kycComplete C R orbit c code p)"
  unfolding verify_attempt_def
  by (intro keeps_bindA token_pend info_pend) (auto intro: complete_kyc_pend)

lemma SingpassCallback_runs:
  assumes ok: "sok" "uok" "iok" "pok" "runtime_ok S R" "cache_client_ok S C"
  shows "runs (svc_SingpassCallback proxy users store kycComplete C R orbit c code state) w
      (\<lambda>_ w'. \<exists>p ui. pend w state = Some p
          \<and> (Pending_Email p \<noteq> [] \<longrightarrow> emailsMatchForKYC orbit (Pending_Email p) (singpassEmail ui))
          \<and> (\<exists>tok v v'. proxy_GetUserInfo proxy (workCtx c) tok v = (Ok ui, v'))
          \<and> kyc_set (Pending_InternalUserID p) (kycStatusFor ui) (S w) (S w')
          \<and> kyc_told live event (S w) (Pending_InternalUserID p) (kycStatusFor ui) (S w'))
      (\<lambda>e w'. S w' = S w \<and> (e = ErrInvalidOAuthState
            \<or> e = ErrKYCEmailMismatch \<and> (\<exists>p. pend w state = Some p \<and> Pending_Email p \<noteq> []))
        \<or> outside e \<and> (\<exists>p. pend w state = Some p \<and> (S w' = S w
            \<or> (\<exists>ui. kyc_set (Pending_InternalUserID p) (kycStatusFor ui) (S w) (S w')
                \<and> (st_events (S w') = st_events (S w)
                   \<or> kyc_told live event (S w) (Pending_InternalUserID p) (kycStatusFor ui) (S w'))))))"
    (is "runs _ w ?P ?Q")
proof -
  obtain r w1 where r: "store_Consume store state w = (r, w1)" by fastforce
  have S1: "S w1 = S w" by (rule consume_S [OF ok(1) r])
  show ?thesis
  proof (cases r)
    case None
    then show ?thesis using r S1 by (auto simp: svc_SingpassCallback_def consumeA_def bindA_def runs_def throw_def)
  next
    case (Some p)
    then have p: "pend w state = Some p" using store.consume_hit r by blast
    have "runs (verify_attempt proxy users kycComplete C R orbit c code p) w1 ?P ?Q"
      by (rule runs_mono [OF verify_attempt_runs [OF ok(2-6)]]) (use p S1 in auto)
    then show ?thesis
      using r Some by (simp add: svc_SingpassCallback_def consumeA_def bindA_def runs_def)
  qed
qed

text \<open>Whatever the outcome, the attempt is gone and nothing new is pending.\<close>

lemma SingpassCallback_pend:
  assumes "svc_SingpassCallback proxy users store kycComplete C R orbit c code state w = (r, w')"
  shows "pend w' state = None" and "pend w' \<subseteq>\<^sub>m pend w"
proof -
  obtain q w1 where q: "store_Consume store state w = (q, w1)" by fastforce
  have "pend w' = pend w1"
    using assms q keepsD [OF verify_attempt_pend]
    by (cases q) (auto simp: svc_SingpassCallback_def consumeA_def bindA_def throw_def)
  with store.consume_gone [OF q] store.consume_le [OF q]
  show "pend w' state = None" and "pend w' \<subseteq>\<^sub>m pend w" by simp_all
qed

text \<open>Starting: the URL carries a state under which this user, and nobody else, is now pending.\<close>

lemma StartSingpassLogin_runs:
  assumes "sok" and "runtime_ok S R"
  shows "runs (svc_StartSingpassLogin store cfg R c i email) w
      (\<lambda>url w'. S w' = S w \<and> (\<exists>state nonce p. url = BuildAuthorizeURL cfg R state nonce \<and> length state = 40
          \<and> Pending_InternalUserID p = i \<and> Pending_Email p = email \<and> pend w' \<subseteq>\<^sub>m (pend w)(state \<mapsto> p)))
      (\<lambda>e w'. outside e \<and> S w' = S w \<and> pend w' = pend w)"
    (is "runs _ w ?P ?Q")
proof -
  have rnd: "runs (RandomOAuthParam R) w1 (\<lambda>s w'. length s = 40 \<and> S w' = S w \<and> pend w' = pend w)
      (\<lambda>e w'. outside e \<and> S w' = S w \<and> pend w' = pend w)" if "S w1 = S w" "pend w1 = pend w" for w1
  proof -
    have "keeps pend (RandomOAuthParam R)"
      unfolding RandomOAuthParam_def by (intro keeps_bindA random_pend) auto
    then have "pend (snd (RandomOAuthParam R w1)) = pend w" using that by (simp add: keeps_def)
    with RandomOAuthParam_runs [OF assms(2), of w1] that show ?thesis
      by (auto simp: runs_def split: prod.splits res.splits)
  qed
  have "runs (seqA (saveA store state \<lparr>Pending_InternalUserID = i, Pending_Email = email, Pending_ExpiresAt = 0\<rparr>)
      (ret (BuildAuthorizeURL cfg R state nonce))) w1 ?P ?Q"
    if w1: "S w1 = S w" "pend w1 = pend w" and s: "length state = 40" for state nonce w1
  proof -
    let ?p = "\<lparr>Pending_InternalUserID = i, Pending_Email = email, Pending_ExpiresAt = 0\<rparr>"
    have "state \<noteq> []" using s by auto
    from store.save_bound [OF this, of ?p w1] obtain p' where "Pending_InternalUserID p' = i" "Pending_Email p' = email"
      "pend (store_Save store state ?p w1) \<subseteq>\<^sub>m (pend w)(state \<mapsto> p')" using w1 by auto
    then show ?thesis
      using save_S [OF assms(1)] w1 s by (auto simp: saveA_def bindA_def runs_def ret_def)
  qed
  then show ?thesis
    unfolding svc_StartSingpassLogin_def
    by (intro runs_tryA [OF rnd [OF refl refl]] runs_tryA [OF rnd]) auto
qed

end

subsection \<open>Histories\<close>

text \<open>Requests to start and to complete an attempt, in any order and by anyone.\<close>

datatype kyc_call = StartLogin ctx int string | CallBack ctx string string

fun run_kyc ::
    "(ctx \<Rightarrow> int \<Rightarrow> string \<Rightarrow> ('w, string) act) \<Rightarrow> (ctx \<Rightarrow> string \<Rightarrow> string \<Rightarrow> ('w, unit) act)
      \<Rightarrow> kyc_call list \<Rightarrow> 'w \<Rightarrow> 'w" where
  "run_kyc start callback [] w = w"
| "run_kyc start callback (StartLogin c i email # cs) w = run_kyc start callback cs (snd (start c i email w))"
| "run_kyc start callback (CallBack c code state # cs) w = run_kyc start callback cs (snd (callback c code state w))"

definition starters :: "kyc_call list \<Rightarrow> int set" where
  "starters cs = {i. \<exists>c email. StartLogin c i email \<in> set cs}"

lemma starters_Cons [simp]:
  "starters (StartLogin c i email # cs) = insert i (starters cs)" "starters (CallBack c code state # cs) = starters cs"
  "starters [] = {}"
  by (auto simp: starters_def)

text \<open>
  \<open>only_status I st st'\<close>: the rows of users outside \<open>I\<close> are the same, the others may differ
  in their KYC status only, and the mappings are the same.
\<close>

definition only_status :: "int set \<Rightarrow> Stores \<Rightarrow> Stores \<Rightarrow> bool" where
  "only_status I st st' \<longleftrightarrow> st_mappings st' = st_mappings st
     \<and> (\<forall>i. i \<notin> I \<longrightarrow> st_users st' i = st_users st i)
     \<and> (\<forall>i. map_option (\<lambda>u. u\<lparr>User_KYCStatus := []\<rparr>) (st_users st' i)
          = map_option (\<lambda>u. u\<lparr>User_KYCStatus := []\<rparr>) (st_users st i))"

lemma only_status_refl [simp]: "only_status I st st"
  by (simp add: only_status_def)

lemma only_status_trans: "only_status I a b \<Longrightarrow> only_status I b c \<Longrightarrow> only_status I a c"
  by (simp add: only_status_def)

lemma only_status_set: "kyc_set i s st st' \<Longrightarrow> i \<in> I \<Longrightarrow> only_status I st st'"
  by (cases "st_users st i") (auto simp: only_status_def kyc_set_def)

definition pending_for :: "int set \<Rightarrow> (string \<Rightarrow> KYCPending option) \<Rightarrow> bool" where
  "pending_for I m \<longleftrightarrow> (\<forall>s p. m s = Some p \<longrightarrow> Pending_InternalUserID p \<in> I)"

lemma pending_for_le: "pending_for I n \<Longrightarrow> m \<subseteq>\<^sub>m n \<Longrightarrow> pending_for I m"
  by (auto simp: pending_for_def dest: map_leD)

context kyc_service begin

lemma callback_only_status:
  assumes ok: "sok" "uok" "iok" "pok" "runtime_ok S R" "cache_client_ok S C" and "pending_for I (pend w)"
    and w': "w' = snd (svc_SingpassCallback proxy users store kycComplete C R orbit c code state w)"
  shows "only_status I (S w) (S w') \<and> pending_for I (pend w')"
proof
  obtain r where r: "svc_SingpassCallback proxy users store kycComplete C R orbit c code state w = (r, w')"
    using w' by (cases "svc_SingpassCallback proxy users store kycComplete C R orbit c code state w") auto
  have bound: "Pending_InternalUserID p \<in> I" if "pend w state = Some p" for p
    using that assms(7) by (auto simp: pending_for_def)
  show "only_status I (S w) (S w')"
    using SingpassCallback_runs [OF ok, of c code state w] r
    by (cases r) (auto simp: runs_def intro: only_status_set bound)
  show "pending_for I (pend w')"
    by (rule pending_for_le [OF assms(7) SingpassCallback_pend(2) [OF r]])
qed

lemma start_pending_for:
  assumes "sok" and "runtime_ok S R" and "pending_for I (pend w)" and "i \<in> I"
    and w': "w' = snd (svc_StartSingpassLogin store cfg R c i email w)"
  shows "S w' = S w \<and> pending_for I (pend w')"
proof -
  have step: "pending_for I ((pend w)(s \<mapsto> p))" if "Pending_InternalUserID p = i" for s p
    using that assms(3,4) by (auto simp: pending_for_def)
  show ?thesis
    using StartSingpassLogin_runs [OF assms(1,2), of c i email w] w' assms(3) pending_for_le [OF step]
    by (auto simp: runs_def split: prod.splits res.splits)
qed

lemma history_only_status:
  assumes ok: "sok" "uok" "iok" "pok" "runtime_ok S R" "cache_client_ok S C"
  shows "pending_for I (pend w) \<Longrightarrow> starters cs \<subseteq> I \<Longrightarrow>
    only_status I (S w) (S (run_kyc (svc_StartSingpassLogin store cfg R)
      (svc_SingpassCallback proxy users store kycComplete C R orbit) cs w))"
proof (induction cs arbitrary: w)
  case (Cons call cs)
  show ?case
  proof (cases call)
    case (StartLogin c i email)
    let ?w1 = "snd (svc_StartSingpassLogin store cfg R c i email w)"
    have "S ?w1 = S w \<and> pending_for I (pend ?w1)"
      by (rule start_pending_for [OF ok(1,5) Cons.prems(1) _ refl]) (use Cons.prems(2) StartLogin in auto)
    with Cons.IH [of ?w1] Cons.prems(2) StartLogin show ?thesis by simp
  next
    case (CallBack c code state)
    let ?w1 = "snd (svc_SingpassCallback proxy users store kycComplete C R orbit c code state w)"
    have "only_status I (S w) (S ?w1) \<and> pending_for I (pend ?w1)"
      by (rule callback_only_status [OF ok Cons.prems(1) refl])
    with Cons.IH [of ?w1] Cons.prems(2) CallBack show ?thesis by (auto intro: only_status_trans)
  qed
qed simp

end

subsection \<open>The service as it is wired\<close>

text \<open>
  \<open>GetKYCService\<close>: the Singpass proxy, the table of users, the in-memory store and the
  producer of KYC events over \<open>publish\<close>.
\<close>

definition GetKYCService_Start ::
    "SingpassConfig \<Rightarrow> 'e Runtime \<Rightarrow> ctx \<Rightarrow> int \<Rightarrow> string \<Rightarrow> (memoryKYCStateStore \<times> 'e, string) act" where
  "GetKYCService_Start cfg R = svc_StartSingpassLogin (memory_store R) cfg (lift_runtime R)"

definition GetKYCService_Callback ::
    "'e SingpassProxy \<Rightarrow> 'e GormDB option \<Rightarrow> 'e RedisClient option \<Rightarrow> 'e Runtime \<Rightarrow> UserKYCCompleteEvent Codec
      \<Rightarrow> 'e KafkaProducer \<Rightarrow> (nat \<Rightarrow> nat \<Rightarrow> bool) \<Rightarrow> ctx \<Rightarrow> string \<Rightarrow> string \<Rightarrow> (memoryKYCStateStore \<times> 'e, unit) act" where
  "GetKYCService_Callback proxy db C R JK publish orbit =
    svc_SingpassCallback (lift_proxy proxy) (lift_users (UserDaoImpl db)) (memory_store R)
      (\<lambda>c i s t. onSnd (PublishUserKYCComplete R JK publish c i s t)) (map_option lift_redis C) (lift_runtime R) orbit"

lemma time_keeps: "runtime_ok S R \<Longrightarrow> time_Now R w = (t, w') \<Longrightarrow> S w' = (S w :: Stores)"
  unfolding runtime_ok_def keeps_def now_def by (metis (no_types, lifting) case_prod_conv snd_conv)

lemma purge_outside: "runtime_ok S R \<Longrightarrow> S (snd (purgeExpiredLocked R sw)) = (S (snd sw) :: Stores)"
  by (auto simp: purgeExpiredLocked_def time_keeps split: prod.splits)

lemma memory_Save_outside: "runtime_ok S R \<Longrightarrow> S (snd (memory_Save R s p sw)) = (S (snd sw) :: Stores)"
  by (cases sw) (auto simp: memory_Save_def purge_outside time_keeps split: prod.splits)

lemma memory_Consume_outside:
  assumes "runtime_ok S R" and "memory_Consume R s sw = (r, sw')"
  shows "S (snd sw') = (S (snd sw) :: Stores)"
proof -
  obtain st w where pu: "purgeExpiredLocked R sw = (st, w)" by fastforce
  have "S w = S (snd sw)" using purge_outside [OF assms(1), of sw] pu by simp
  then show ?thesis
    using assms(2) pu time_keeps [OF assms(1)]
    by (auto simp: purge_outside [OF assms(1)] memory_Consume_def Let_def split: option.splits prod.splits if_splits)
qed

lemma Invalidate_lift_pend:
  "keeps (\<lambda>sw. items (fst sw)) (InvalidateUserProfileCache (map_option lift_redis C) c i)"
  by (cases C) (auto simp: InvalidateUserProfileCache_def lift_redis_def intro!: keeps_best_effort)

interpretation kyc_impl: kyc_service "memory_store R" "\<lambda>sw. items (fst sw)" "lift_users (UserDaoImpl db)"
    "\<lambda>sw. S (snd sw)" "db_ok S coll db" "lift_proxy (singpassProxy cfg R H X D p)"
    "http_ok S H \<and> runtime_ok S R \<and> jose_ok S X \<and> json_ok D"
    "\<lambda>c i s t. onSnd (PublishUserKYCComplete R JK (kafkaProducerImpl_Publish R K) c i s t)" True
    "kyc_record (PrefixedTopic R) JK" "kafka_ok S K \<and> runtime_ok S R \<and> codec_ok JK"
    "map_option lift_redis C" "lift_runtime R" cfg orbit "runtime_ok S R"
  for R db S coll cfg H X D p JK K C orbit
proof -
  have users: "user_table (lift_users (UserDaoImpl db)) (\<lambda>sw. S (snd sw)) (db_ok S coll db)"
    by (rule user_table_lift) (rule users_impl.user_table_axioms)
  have idp: "identity_provider (lift_proxy (singpassProxy cfg R H X D p)) (\<lambda>sw. S (snd sw))
      (http_ok S H \<and> runtime_ok S R \<and> jose_ok S X \<and> json_ok D)"
    by (rule identity_provider_lift) (rule singpass.identity_provider_axioms)
  have ev: "announcer (\<lambda>c (i, s, t). onSnd (PublishUserKYCComplete R JK (kafkaProducerImpl_Publish R K) c i s t))
      (\<lambda>sw. S (snd sw)) True (kyc_record (PrefixedTopic R) JK) kyc_valid (kafka_ok S K \<and> runtime_ok S R \<and> codec_ok JK)"
    using announcer_mono [OF announcer_lift [OF kgo_events.kyc_complete.announcer_axioms [where S = S and R = R and K = K and JK = JK]]]
    by (simp add: case_prod_unfold)
  show "kyc_service (memory_store R) (\<lambda>sw. items (fst sw)) (lift_users (UserDaoImpl db))
      (\<lambda>sw. S (snd sw)) (db_ok S coll db) (lift_proxy (singpassProxy cfg R H X D p))
      (http_ok S H \<and> runtime_ok S R \<and> jose_ok S X \<and> json_ok D)
      (\<lambda>c i s t. onSnd (PublishUserKYCComplete R JK (kafkaProducerImpl_Publish R K) c i s t)) True
      (kyc_record (PrefixedTopic R) JK) (kafka_ok S K \<and> runtime_ok S R \<and> codec_ok JK)
      (map_option lift_redis C) (lift_runtime R) (runtime_ok S R)"
    unfolding kyc_service_def kyc_service_axioms_def
    using users idp ev kyc_store.one_time_store_axioms
    by (auto simp: memory_store_def memory_Save_outside memory_Consume_outside lift_proxy_def lift_users_def
        now_lift Invalidate_lift_pend) (simp_all add: lift_runtime_def)
qed

subsection \<open>Properties\<close>

definition kyc_world ::
    "('e \<Rightarrow> Stores) \<Rightarrow> (string \<Rightarrow> string \<Rightarrow> bool) \<Rightarrow> 'e GormDB option \<Rightarrow> 'e RedisClient option \<Rightarrow> 'e Runtime
      \<Rightarrow> 'e KgoClient \<Rightarrow> UserKYCCompleteEvent Codec \<Rightarrow> 'e HttpClient \<Rightarrow> ('e, 'k, 's) Jose \<Rightarrow> SingpassJson \<Rightarrow> bool" where
  "kyc_world S coll db C R K JK H X D \<longleftrightarrow> db_ok S coll db \<and> cache_client_ok S C \<and> runtime_ok S R \<and> kafka_ok S K
     \<and> codec_ok JK \<and> http_ok S H \<and> jose_ok S X \<and> json_ok D"

lemma kyc_worldD:
  assumes "kyc_world S coll db C R K JK H X D"
  shows "runtime_ok S R" "db_ok S coll db" "http_ok S H \<and> runtime_ok S R \<and> jose_ok S X \<and> json_ok D"
    "kafka_ok S K \<and> runtime_ok S R \<and> codec_ok JK" "runtime_ok (\<lambda>sw. S (snd sw)) (lift_runtime R)"
    "cache_client_ok (\<lambda>sw. S (snd sw)) (map_option lift_redis C)"
  using assms by (simp_all add: kyc_world_def runtime_ok_lift cache_client_ok_lift)

definition sent_kyc :: "'e Runtime \<Rightarrow> UserKYCCompleteEvent Codec \<Rightarrow> int \<Rightarrow> string \<Rightarrow> Stores \<Rightarrow> Stores \<Rightarrow> bool" where
  "sent_kyc R JK i s st st' \<longleftrightarrow>
     (\<exists>t r. kyc_record (PrefixedTopic R) JK (i, s, t) r \<and> st_events st' = st_events st @ [r])"

lemma kyc_told_sent: "kyc_told True (kyc_record (PrefixedTopic R) JK) st i s st' \<Longrightarrow> sent_kyc R JK i s st st'"
  by (auto simp: kyc_told_def sent_kyc_def published_def add_event_def)

lemma lifted_userinfo:
  "proxy_GetUserInfo (lift_proxy (singpassProxy cfg R H X D p)) c tok v = (Ok ui, v')
    \<Longrightarrow> \<exists>u u'. singpassProxyImpl_GetUserInfo cfg H X D p c tok u = (Ok ui, u')"
  by (cases v) (auto simp: lift_proxy_def singpassProxy_def onSnd_def split: prod.splits)


text \<open>
  Only users who started an attempt are touched: in any history of login starts and
  callbacks, with whatever codes and states, from an empty store, the row of a user who
  never started is unchanged, and of the others nothing but the KYC status changes.
\<close>

theorem only_starters_are_touched:
  assumes "kyc_world S coll db C R K JK H X D"
  shows "only_status (starters cs) (S w) (S (snd (run_kyc (GetKYCService_Start cfg R)
    (GetKYCService_Callback (singpassProxy cfg R H X D p) db C R JK (kafkaProducerImpl_Publish R K) orbit)
    cs (newMemoryKYCStateStore ttl, w))))"
proof -
  have "pending_for (starters cs) (items (fst (newMemoryKYCStateStore ttl, w)))"
    by (simp add: pending_for_def newMemoryKYCStateStore_def)
  from kyc_impl.history_only_status [OF kyc_worldD [OF assms] this order_refl, of cfg p orbit]
  show ?thesis by (simp add: GetKYCService_Start_def GetKYCService_Callback_def [abs_def])
qed

text \<open>
  C8. A callback cannot be replayed: after one with a state, however it ended, a second one
  with the same state is refused as invalid and changes nothing.
\<close>

theorem callback_cannot_be_replayed:
  assumes "kyc_world S coll db C R K JK H X D"
    and "GetKYCService_Callback (singpassProxy cfg R H X D p) db C R JK (kafkaProducerImpl_Publish R K) orbit c code state sw
      = (r, sw')"
    and "GetKYCService_Callback (singpassProxy cfg R H X D p) db C R JK (kafkaProducerImpl_Publish R K) orbit c' code' state sw'
      = (r', sw'')"
  shows "r' = Err ErrInvalidOAuthState \<and> S (snd sw'') = S (snd sw')"
proof -
  have none: "items (fst sw') state = None"
    using kyc_impl.SingpassCallback_pend(1) [OF assms(2) [unfolded GetKYCService_Callback_def]] .
  obtain q sw1 where q: "memory_Consume R state sw' = (q, sw1)" by (cases "memory_Consume R state sw'")
  have "q = None" using none memory_Consume_hit(1) [of R state "fst sw'" "snd sw'"] q by (cases q) (cases sw1; auto)+
  then show ?thesis
    using assms(3) q memory_Consume_outside [OF kyc_worldD(1) [OF assms(1)] q]
    by (auto simp: GetKYCService_Callback_def svc_SingpassCallback_def consumeA_def memory_store_def bindA_def throw_def)
qed

text \<open>
  C25. Completing an attempt does not depend on the browser: the callback behaves the same
  whether or not the request is cancelled meanwhile and whatever deadline it carries, since
  the work runs under a context of its own with a limit of thirty seconds.
\<close>

theorem callback_ignores_cancellation:
  "svc_SingpassCallback proxy users store kycComplete C R orbit (c\<lparr>ctx_cancelled := b, ctx_timeout := d\<rparr>) code state
     = svc_SingpassCallback proxy users store kycComplete C R orbit c code state
   \<and> workCtx c = c\<lparr>ctx_cancelled := False, ctx_timeout := Some (30 * Second)\<rparr>"
proof -
  have "workCtx (c\<lparr>ctx_cancelled := b, ctx_timeout := d\<rparr>) = workCtx c"
    unfolding workCtx_def by (rule detached_ctx_eq) simp_all
  moreover have "workCtx c = c\<lparr>ctx_cancelled := False, ctx_timeout := Some (30 * Second)\<rparr>"
    by (cases c) (simp add: workCtx_def WithTimeout_def WithoutCancel_def)
  ultimately show ?thesis
    by (simp only: svc_SingpassCallback_def verify_attempt_def [abs_def] simp_thms)
qed

text \<open>Starting on the in-memory store.\<close>

definition clock_within :: "'e Runtime \<Rightarrow> duration \<Rightarrow> bool" where
  "clock_within R d \<longleftrightarrow> (\<forall>v v'. fst (time_Now R v) \<le> fst (time_Now R v') + d)"

lemma RandomOAuthParam_lift: "RandomOAuthParam (lift_runtime R) = onSnd (RandomOAuthParam R)"
  by (auto simp: RandomOAuthParam_def lift_runtime_def onSnd_def bindA_def ret_def fun_eq_iff split: prod.splits res.splits)

lemma memory_Save_fresh:
  assumes "s \<noteq> []" and "Pending_ExpiresAt p = 0"
  obtains q where "Pending_InternalUserID q = Pending_InternalUserID p" and "Pending_Email q = Pending_Email p"
    and "items (fst (memory_Save R s p (st, w))) \<subseteq>\<^sub>m (items st)(s \<mapsto> q)"
    and "clock_within R (store_ttl st) \<Longrightarrow> items (fst (memory_Save R s p (st, w))) s = Some q"
proof -
  from assms(1) obtain q w1 where q: "Pending_InternalUserID q = Pending_InternalUserID p"
      "Pending_Email q = Pending_Email p" "\<exists>t. time_Now R w = (t, w1) \<and> Pending_ExpiresAt q = t + store_ttl st"
    and eq: "memory_Save R s p (st, w) = purgeExpiredLocked R (st\<lparr>items := (items st)(s \<mapsto> q)\<rparr>, w1)"
    by (rule memory_Save_eq [where p = p and R = R and st = st and w = w]) (use assms(2) in \<open>simp add: IsZero_def\<close>)
  show thesis
  proof (rule that [OF q(1,2)])
    show "items (fst (memory_Save R s p (st, w))) \<subseteq>\<^sub>m (items st)(s \<mapsto> q)"
      using purge_le [of R "(st\<lparr>items := (items st)(s \<mapsto> q)\<rparr>, w1)"] by (simp add: eq)
    assume "clock_within R (store_ttl st)"
    then have "fst (time_Now R v) \<le> Pending_ExpiresAt q" for v
      using q(3) by (auto simp: clock_within_def) (metis fst_conv)
    then show "items (fst (memory_Save R s p (st, w))) s = Some q"
      unfolding eq by (intro purge_keeps [where T = "Pending_ExpiresAt q"]) auto
  qed
qed

definition bound_to ::
    "SingpassConfig \<Rightarrow> 'e Runtime \<Rightarrow> int \<Rightarrow> string \<Rightarrow> memoryKYCStateStore \<Rightarrow> string \<Rightarrow> memoryKYCStateStore \<Rightarrow> bool" where
  "bound_to cfg R i email st url st' \<longleftrightarrow> (\<exists>state nonce q. url = BuildAuthorizeURL cfg R state nonce \<and> length state = 40
     \<and> Pending_InternalUserID q = i \<and> Pending_Email q = email \<and> items st' \<subseteq>\<^sub>m (items st)(state \<mapsto> q)
     \<and> (clock_within R (store_ttl st) \<longrightarrow> items st' state = Some q))"

lemma GetKYCService_Start_runs:
  fixes S :: "'w \<Rightarrow> Stores"
  assumes "runtime_ok S R"
  shows "runs (GetKYCService_Start cfg R c i email) (st, w)
      (\<lambda>url sw'. bound_to cfg R i email st url (fst sw') \<and> S (snd sw') = S w)
      (\<lambda>e sw'. outside e \<and> fst sw' = st \<and> S (snd sw') = S w)"
    (is "runs _ _ ?P ?Q")
proof -
  have "runs (seqA (saveA (memory_store R) state \<lparr>Pending_InternalUserID = i, Pending_Email = email, Pending_ExpiresAt = 0\<rparr>)
      (ret (BuildAuthorizeURL cfg (lift_runtime R) state nonce))) (st, w1) ?P ?Q"
    if "length state = 40" "S w1 = S w" for state nonce w1
  proof -
    let ?p = "\<lparr>Pending_InternalUserID = i, Pending_Email = email, Pending_ExpiresAt = 0\<rparr>"
    have "state \<noteq> []" using that by auto
    then obtain q where "Pending_InternalUserID q = i" "Pending_Email q = email"
      "items (fst (memory_Save R state ?p (st, w1))) \<subseteq>\<^sub>m (items st)(state \<mapsto> q)"
      "clock_within R (store_ttl st) \<Longrightarrow> items (fst (memory_Save R state ?p (st, w1))) state = Some q"
      by (rule memory_Save_fresh [where p = ?p and R = R and st = st and w = w1]) auto
    moreover have "BuildAuthorizeURL cfg (lift_runtime R) state nonce = BuildAuthorizeURL cfg R state nonce"
      by (simp add: BuildAuthorizeURL_def authorize_params_def lift_runtime_def)
    ultimately show ?thesis
      using that memory_Save_outside [OF assms, of state ?p "(st, w1)"]
      by (auto simp: saveA_def bindA_def runs_def ret_def memory_store_def bound_to_def)
  qed
  note save = this
  have rnd: "runs (RandomOAuthParam (lift_runtime R)) (st, w1)
      (\<lambda>s sw'. fst sw' = st \<and> length s = 40 \<and> S (snd sw') = S w) (\<lambda>e sw'. outside e \<and> fst sw' = st \<and> S (snd sw') = S w)"
    if "S w1 = S w" for w1
    unfolding RandomOAuthParam_lift
    by (rule runs_mono [OF runs_onSnd [OF RandomOAuthParam_runs [OF assms]]]) (use that in auto)
  show ?thesis
    unfolding GetKYCService_Start_def svc_StartSingpassLogin_def
  proof (rule runs_tryA [OF rnd [OF refl]])
    fix state :: string and sw1
    assume s: "fst sw1 = st \<and> length state = 40 \<and> S (snd sw1) = S w"
    then obtain w1 where sw1: "sw1 = (st, w1)" "S w1 = S w" by (cases sw1) auto
    show "runs (tryA (RandomOAuthParam (lift_runtime R)) (\<lambda>nonce. seqA
           (saveA (memory_store R) state \<lparr>Pending_InternalUserID = i, Pending_Email = email, Pending_ExpiresAt = 0\<rparr>)
           (ret (BuildAuthorizeURL cfg (lift_runtime R) state nonce)))
        (\<lambda>err. throw (Wrapped ''generate oauth nonce'' err))) sw1 ?P ?Q"
      unfolding sw1(1) by (rule runs_tryA [OF rnd [OF sw1(2)]]) (use save s in \<open>auto split: prod.splits\<close>)
  qed auto
qed


text \<open>
  E-mails are compared without regard to case and surrounding white space, and a
  test tag in the recorded one does not count: for ASCII addresses the two match exactly if
  the trimmed texts, in lower case, are the same, with or without the occurrences of
  \<open>+clerk_test\<close> in the recorded one.
\<close>

theorem emails_match_ascii:
  assumes "ascii pending" and "ascii singpass"
  shows "emailsMatchForKYC orbit pending singpass \<longleftrightarrow>
    map (lower \<circ> byte) (TrimSpace singpass) \<in>
      {map (lower \<circ> byte) (TrimSpace pending), map (lower \<circ> byte) (ReplaceAll (TrimSpace pending) ''+clerk_test'' [])}"
proof -
  have "ascii (TrimSpace pending)" "ascii (TrimSpace singpass)"
    using assms set_TrimSpace ascii_subset by blast+
  moreover from this(1) have "ascii (ReplaceAll (TrimSpace pending) ''+clerk_test'' [])"
    by (rule ascii_subset [OF _ set_ReplaceAll_empty])
  ultimately show ?thesis
    by (auto simp: emailsMatchForKYC_def Let_def EqualFold_ascii)
qed

subsection \<open>Witnesses\<close>

theorem emails_match_ascii_witness:
  "emailsMatchForKYC (\<lambda>_ _. False) '' A+clerk_test@b.sg'' ''a@B.sg '' \<and> \<not> emailsMatchForKYC (\<lambda>_ _. False) ''a@b.sg'' ''c@b.sg''"
proof -
  have "ascii '' A+clerk_test@b.sg''" "ascii ''a@B.sg ''" "ascii ''a@b.sg''" "ascii ''c@b.sg''"
    by code_simp+
  then have "emailsMatchForKYC (\<lambda>_ _. False) '' A+clerk_test@b.sg'' ''a@B.sg '' \<longleftrightarrow>
      map (lower \<circ> byte) (TrimSpace ''a@B.sg '') \<in> {map (lower \<circ> byte) (TrimSpace '' A+clerk_test@b.sg''),
        map (lower \<circ> byte) (ReplaceAll (TrimSpace '' A+clerk_test@b.sg'') ''+clerk_test'' [])}"
    "emailsMatchForKYC (\<lambda>_ _. False) ''a@b.sg'' ''c@b.sg'' \<longleftrightarrow>
      map (lower \<circ> byte) (TrimSpace ''c@b.sg'') \<in> {map (lower \<circ> byte) (TrimSpace ''a@b.sg''),
        map (lower \<circ> byte) (ReplaceAll (TrimSpace ''a@b.sg'') ''+clerk_test'' [])}"
    by (simp_all only: emails_match_ascii)
  moreover have "map (lower \<circ> byte) (TrimSpace ''a@B.sg '') = map (lower \<circ> byte) (ReplaceAll (TrimSpace '' A+clerk_test@b.sg'') ''+clerk_test'' [])"
    "map (lower \<circ> byte) (TrimSpace ''c@b.sg'') \<noteq> map (lower \<circ> byte) (TrimSpace ''a@b.sg'')"
    "map (lower \<circ> byte) (TrimSpace ''c@b.sg'') \<noteq> map (lower \<circ> byte) (ReplaceAll (TrimSpace ''a@b.sg'') ''+clerk_test'' [])"
    by code_simp+
  ultimately show ?thesis by simp
qed

text \<open>The callback over the reference environment, and a codec for the event it makes.\<close>

definition ref_kyc_codec :: "UserKYCCompleteEvent Codec" where
  "ref_kyc_codec = table_codec [(''alice passed'', \<lparr>KYCComplete_UserID = 1, KYCComplete_KYCStatus = KYCStatusPassed,
     KYCComplete_KYCUpdatedAt = 63000000000 * Second, KYCComplete_EventTime = 63000000000 * Second\<rparr>)]"

lemma kyc_ref_world: "kyc_world rw_stores (=) (Some ref_gorm) (Some ref_redis) still_ref ref_kafka ref_kyc_codec ref_http ref_jose ref_json"
proof -
  have "runtime_ok rw_stores still_ref"
    using ref_runtime_ok by (simp add: runtime_ok_def keeps_def now_def still_ref_def)
  moreover have "codec_ok ref_kyc_codec" unfolding ref_kyc_codec_def by (rule table_codec_ok) simp
  moreover have "http_ok rw_stores ref_http" by (simp add: http_ok_def runs_def ref_http_def)
  moreover have "jose_ok rw_stores ref_jose" by (simp add: jose_ok_def runs_def ref_jose_def)
  moreover have "json_ok ref_json" by (simp add: json_ok_def ref_json_def)
  ultimately show ?thesis
    by (simp add: kyc_world_def db_ok_def cache_client_ok_def ref_gorm_ok ref_redis_ok ref_kafka_ok)
qed

definition ref_callback :: "string \<Rightarrow> memoryKYCStateStore \<times> refw \<Rightarrow> unit res \<times> memoryKYCStateStore \<times> refw" where
  "ref_callback = GetKYCService_Callback (singpassProxy ref_cfg still_ref ref_http ref_jose ref_json ref_proxy)
     (Some ref_gorm) (Some ref_redis) still_ref ref_kyc_codec (kafkaProducerImpl_Publish still_ref ref_kafka) (=) Background ''code''"

definition alice_pending :: memoryKYCStateStore where
  "alice_pending = (newMemoryKYCStateStore 0)\<lparr>items := [''s'' \<mapsto> \<lparr>Pending_InternalUserID = 1,
     Pending_Email = ''alice+clerk_test@example.com'', Pending_ExpiresAt = 64000000000 * Second\<rparr>]\<rparr>"

lemma ref_callback_passes:
  "case ref_callback ''s'' (alice_pending, alice_world) of (r, st', w') \<Rightarrow>
     r = Ok () \<and> map_option User_KYCStatus (st_users (rw_stores w') 1) = Some KYCStatusPassed"
  by code_simp


theorem only_starters_are_touched_witness:
  "only_status {1} (rw_stores alice_world) (rw_stores (snd (run_kyc (GetKYCService_Start ref_cfg still_ref)
     (GetKYCService_Callback (singpassProxy ref_cfg still_ref ref_http ref_jose ref_json ref_proxy)
        (Some ref_gorm) (Some ref_redis) still_ref ref_kyc_codec (kafkaProducerImpl_Publish still_ref ref_kafka) (=))
     [StartLogin Background 1 [], CallBack Background ''code'' ''forged''] (newMemoryKYCStateStore 0, alice_world))))"
  using only_starters_are_touched [OF kyc_ref_world, of "[StartLogin Background 1 [], CallBack Background ''code'' ''forged'']"
      alice_world ref_cfg ref_proxy "(=)" 0]
  by simp

theorem callback_cannot_be_replayed_witness:
  "fst (ref_callback ''s'' (snd (ref_callback ''s'' (alice_pending, alice_world)))) = Err ErrInvalidOAuthState"
  using callback_cannot_be_replayed [OF kyc_ref_world prod.collapse [symmetric] prod.collapse [symmetric],
      where cfg = ref_cfg and p = ref_proxy and orbit = "(=)" and c = Background and c' = Background
      and code = "''code''" and code' = "''code''" and state = "''s''" and sw = "(alice_pending, alice_world)"]
  by (simp add: ref_callback_def)


end
