(* ===== verification/UserMapping.thy ===== *)
theory UserMapping
  imports ClerkData Kafka ProfileLaws
begin

section \<open>Registration\<close>

text \<open>
  server/service/user_mapping_service.go: the user and the mapping made for a Clerk
  \<open>user.created\<close> event. \<open>tx\<close> is \<open>Transaction\<close> of the field \<open>tx\<close> (with the request's context),
  \<open>registered\<close> the field \<open>registeredProducer\<close>, \<open>C\<close> the cache client. The closure given to
  the transaction fills in the id of \<open>user\<close>; its model returns the user instead.
\<close>

text \<open>Go's \<open>%\<close> truncates.\<close>

definition go_rem :: "int \<Rightarrow> int \<Rightarrow> int" where
  "go_rem a b = sgn a * (\<bar>a\<bar> mod \<bar>b\<bar>)"

definition randomGenName :: "'w Runtime \<Rightarrow> ('w, string) act" where
  "randomGenName R = tryA (rand_Int R 1000000)
     (\<lambda>n. ret (''User'' @ pad 6 (FormatInt n)))
     (\<lambda>err. bindA (now R) (\<lambda>t. ret (''User'' @ FormatInt (go_rem (UnixNano t) 1000000))))"

type_synonym 'w TxBeginner = "ctx \<Rightarrow> ('w, User) act \<Rightarrow> ('w, User) act"

definition create_both ::
    "'w UserAuthMappingDao \<Rightarrow> 'w UserDao \<Rightarrow> ctx \<Rightarrow> string \<Rightarrow> string \<Rightarrow> User \<Rightarrow> ('w, User) act" where
  "create_both mappings users c clerkUserID email user =
    bindA (dao_CreateUser users user) (\<lambda>user.
      seqA (dao_CreateMapping mappings c \<lparr>Mapping_ID = 0, Mapping_ClerkUserID = clerkUserID,
              Mapping_Email = email, Mapping_InternalUserID = User_ID user, Mapping_Role = RoleUser,
              Mapping_CreatedAt = 0, Mapping_UpdatedAt = 0\<rparr>)
           (ret user))"

text \<open>The second half of \<open>CreateUser\<close>, once neither lookup has found a mapping.\<close>

definition register_new ::
    "'w UserAuthMappingDao \<Rightarrow> 'w UserDao \<Rightarrow> 'w TxBeginner \<Rightarrow> (ctx \<Rightarrow> int \<Rightarrow> instant \<Rightarrow> ('w, unit) act)
      \<Rightarrow> 'w Runtime \<Rightarrow> 'w RedisClient option \<Rightarrow> ctx \<Rightarrow> string \<Rightarrow> string \<Rightarrow> ('w, unit) act" where
  "register_new mappings users tx registered R C c clerkUserID email =
    bindA (randomGenName R) (\<lambda>name. bindA (now R) (\<lambda>t.
      bindA (tx c (create_both mappings users c clerkUserID email
              (zero_User\<lparr>User_Name := name, User_KYCStatus := KYCStatusPending, User_CreatedAt := t\<rparr>)))
        (\<lambda>user. seqA (InvalidateUserProfileCache C c (User_ID user))
                      (registered c (User_ID user) (User_CreatedAt user)))))"

definition svc_CreateUser ::
    "'w UserAuthMappingDao \<Rightarrow> 'w UserDao \<Rightarrow> 'w TxBeginner \<Rightarrow> (ctx \<Rightarrow> int \<Rightarrow> instant \<Rightarrow> ('w, unit) act)
      \<Rightarrow> 'w Runtime \<Rightarrow> 'w RedisClient option \<Rightarrow> ctx \<Rightarrow> ClerkCallbackData option \<Rightarrow> ('w, unit) act" where
  "svc_CreateUser mappings users tx registered R C c clerkCallbackData =
    (let clerkUserID = ClerkUserID clerkCallbackData; email = EmailAddress clerkCallbackData in
     if email = [] then ret ()
     else bindA (dao_GetByClerkUserID mappings c clerkUserID) (\<lambda>existing.
       if existing \<noteq> None then ret ()
       else bindA (dao_GetByEmail mappings c email) (\<lambda>userMapping.
         if userMapping \<noteq> None then ret ()
         else register_new mappings users tx registered R C c clerkUserID email)))"

subsection \<open>The contract of a transaction\<close>

text \<open>
  The body runs on the data as they are; its value means commit, its error means roll back,
  and a commit may report an error whether or not it happened.
\<close>

locale tx_beginner =
  fixes begin_tx :: "'w TxBeginner"
    and S :: "'w \<Rightarrow> Stores"
    and ok :: bool
  assumes tx_runs: "ok \<Longrightarrow> (\<And>w0. S w0 = S w \<Longrightarrow> runs f w0 P Q) \<Longrightarrow> runs (begin_tx c f) w
      (\<lambda>u w'. \<exists>w1. P u w1 \<and> S w' = S w1)
      (\<lambda>e w'. outside e \<and> S w' = S w
        \<or> (\<exists>u w1. P u w1 \<and> outside e \<and> (S w' = S w1 \<or> S w' = roll_back (S w) (S w1)))
        \<or> (\<exists>w1. Q e w1 \<and> S w' = roll_back (S w) (S w1)))"

lemma transaction_runs:
  assumes "transaction_ok S G" and body: "\<And>w0. S w0 = S w \<Longrightarrow> runs f w0 P Q"
  shows "runs (gorm_Transaction G c f) w
      (\<lambda>u w'. \<exists>w1. P u w1 \<and> S w' = S w1)
      (\<lambda>e w'. outside e \<and> S w' = S w
        \<or> (\<exists>u w1. P u w1 \<and> outside e \<and> (S w' = S w1 \<or> S w' = roll_back (S w) (S w1)))
        \<or> (\<exists>w1. Q e w1 \<and> S w' = roll_back (S w) (S w1)))"
proof -
  obtain r w' where run: "gorm_Transaction G c f w = (r, w')" by fastforce
  have law: "(\<exists>e. r = Err e \<and> outside e \<and> S w' = S w)
      \<or> (\<exists>w0 rf w1. S w0 = S w \<and> f w0 = (rf, w1) \<and>
          (case rf of
             Ok u \<Rightarrow> r = Ok u \<and> S w' = S w1
                 \<or> (\<exists>e. r = Err e \<and> outside e \<and> (S w' = S w1 \<or> S w' = roll_back (S w) (S w1)))
           | Err e \<Rightarrow> r = Err e \<and> S w' = roll_back (S w) (S w1)
           | Panicked p \<Rightarrow> r = Panicked p \<and> S w' = roll_back (S w) (S w1)))"
    using assms(1) [unfolded transaction_ok_def, rule_format, where c = c and f = f and w = w]
    unfolding run by simp
  then show ?thesis
  proof (elim disjE exE conjE)
    fix e assume "r = Err e" "outside e" "S w' = S w"
    then show ?thesis by (simp add: runs_def run)
  next
    fix w0 rf w1
    assume w0: "S w0 = S w" "f w0 = (rf, w1)"
      and rf: "case rf of
             Ok u \<Rightarrow> r = Ok u \<and> S w' = S w1
                 \<or> (\<exists>e. r = Err e \<and> outside e \<and> (S w' = S w1 \<or> S w' = roll_back (S w) (S w1)))
           | Err e \<Rightarrow> r = Err e \<and> S w' = roll_back (S w) (S w1)
           | Panicked p \<Rightarrow> r = Panicked p \<and> S w' = roll_back (S w) (S w1)"
    from body [OF w0(1)] w0(2) rf show ?thesis
      by (cases rf) (fastforce simp: runs_def run)+
  qed
qed

interpretation gorm_tx: tx_beginner "gorm_Transaction G" S "transaction_ok S G" for G S
  by unfold_locales (rule transaction_runs)

subsection \<open>What a registration does\<close>

definition added :: "string \<Rightarrow> string \<Rightarrow> int \<Rightarrow> Stores \<Rightarrow> Stores \<Rightarrow> bool" where
  "added clerkUserID email i st st' \<longleftrightarrow> 0 < i \<and> int64 i \<and> st_users st i = None \<and>
     (\<exists>r row. User_ID r = i \<and> User_KYCStatus r = KYCStatusPending \<and> User_Market r = [] \<and> User_Language r = []
        \<and> Mapping_ClerkUserID row = clerkUserID \<and> Mapping_Email row = email
        \<and> Mapping_InternalUserID row = i \<and> Mapping_Role row = RoleUser
        \<and> st_users st' = (st_users st)(i \<mapsto> r) \<and> st_mappings st' = st_mappings st @ [row])"

definition known :: "(string \<Rightarrow> string \<Rightarrow> bool) \<Rightarrow> string \<Rightarrow> string \<Rightarrow> Stores \<Rightarrow> bool" where
  "known coll clerkUserID email st \<longleftrightarrow> mapping_of coll (clerk_user_id_eq clerkUserID) st \<noteq> None
     \<or> mapping_of coll (email_eq email) st \<noteq> None"

definition cache_le :: "Stores \<Rightarrow> Stores \<Rightarrow> bool" where
  "cache_le st st' \<longleftrightarrow> st_cache st' \<subseteq>\<^sub>m st_cache st"

definition same_tables :: "Stores \<Rightarrow> Stores \<Rightarrow> bool" where
  "same_tables st st' \<longleftrightarrow> st_users st' = st_users st \<and> st_mappings st' = st_mappings st"

lemma cache_le_refl [simp]: "cache_le st st"
  by (simp add: cache_le_def)

lemma cache_le_trans: "cache_le a b \<Longrightarrow> cache_le b c \<Longrightarrow> cache_le a c"
  unfolding cache_le_def by (rule map_le_trans)

lemma cache_le_shrinks: "shrinks st st' \<Longrightarrow> cache_le st st'"
  by (auto simp: cache_le_def shrinks_def)

lemma roll_back_simps [simp]:
  "st_users (roll_back st0 st) = st_users st0" "st_mappings (roll_back st0 st) = st_mappings st0"
  "st_cache (roll_back st0 st) = st_cache st" "st_events (roll_back st0 st) = st_events st"
  by (simp_all add: roll_back_def)

lemma mappings_kept_cache_le: "st_mappings st' = st_mappings st \<Longrightarrow> cache_le st st' \<Longrightarrow> mappings_kept st st'"
  by (auto simp: cache_le_def dest: map_leD)

lemma runs_randomGenName:
  assumes "runtime_ok S R"
  shows "runs (randomGenName R) w (\<lambda>_ w'. S w' = S w) (\<lambda>_ _. False)"
proof -
  have "runs (rand_Int R 1000000) w (\<lambda>i w'. 0 \<le> i \<and> i < 1000000 \<and> S w' = S w) (\<lambda>e w'. outside e \<and> S w' = S w)"
    using assms by (simp add: runtime_ok_def)
  then show ?thesis
    unfolding randomGenName_def
    by (rule runs_tryA)
      (auto intro!: runs_bindA [OF runs_now [OF assms, where Q = "\<lambda>_ _. False"]])
qed

text \<open>
  \<open>told\<close>: the event for a user \<open>i\<close> created at \<open>t\<close> went out. \<open>unregistered\<close>: what a new
  registration may leave behind when it fails.
\<close>

definition told ::
    "bool \<Rightarrow> (int \<times> instant \<Rightarrow> KafkaRecord \<Rightarrow> bool) \<Rightarrow> Stores \<Rightarrow> int \<Rightarrow> instant \<Rightarrow> Stores \<Rightarrow> bool" where
  "told live event st0 i t st' \<longleftrightarrow>
     (\<exists>st. st_events st = st_events st0 \<and> published live (event (i, t)) st st')"

definition unregistered ::
    "bool \<Rightarrow> (int \<times> instant \<Rightarrow> KafkaRecord \<Rightarrow> bool) \<Rightarrow> string \<Rightarrow> string \<Rightarrow> Stores \<Rightarrow> Stores \<Rightarrow> bool" where
  "unregistered live event clerk email st st' \<longleftrightarrow>
     same_tables st st' \<and> st_events st' = st_events st
     \<or> (\<exists>i t. added clerk email i st st' \<and> (st_events st' = st_events st \<or> told live event st i t st'))"

locale registration =
  users: user_table users S uok + mappings: mapping_table mappings S coll mok +
  tx: tx_beginner tx S tok + registered: announcer "\<lambda>c (i, t). registered c i t" S live event registered_valid pok
  for users :: "'w UserDao" and mappings :: "'w UserAuthMappingDao" and S :: "'w \<Rightarrow> Stores"
    and coll :: "string \<Rightarrow> string \<Rightarrow> bool" and uok :: bool and mok :: "'w \<Rightarrow> bool"
    and tx :: "'w TxBeginner" and tok :: bool and registered :: "ctx \<Rightarrow> int \<Rightarrow> instant \<Rightarrow> ('w, unit) act"
    and live :: bool and event :: "int \<times> instant \<Rightarrow> KafkaRecord \<Rightarrow> bool" and pok :: bool +
  fixes R :: "'w Runtime"
    and C :: "'w RedisClient option"

context registration begin

lemma mok_same: "mok w \<Longrightarrow> S w' = S w \<Longrightarrow> mok w'"
  by (rule mappings.ok_frame) auto

lemma create_both_runs:
  assumes "uok" and "mok w" and "User_ID u = 0" and "User_KYCStatus u = KYCStatusPending"
    and "User_Market u = []" and "User_Language u = []"
  shows "runs (create_both mappings users c clerk email u) w
      (\<lambda>u' w'. mok w' \<and> added clerk email (User_ID u') (S w) (S w') \<and> User_CreatedAt u' = User_CreatedAt u
        \<and> mapping_of coll (clerk_user_id_eq clerk) (S w) = None
        \<and> cache_le (S w) (S w') \<and> st_events (S w') = st_events (S w))
      (\<lambda>e w'. outside e \<and> cache_le (S w) (S w') \<and> st_events (S w') = st_events (S w))"
    (is "runs _ w ?P ?Q")
  unfolding create_both_def
proof (rule runs_bindA [OF users.create_runs [OF assms(1,3)]])
  fix u' w1
  assume "\<exists>i r. 0 < i \<and> int64 i \<and> st_users (S w) i = None \<and> u' = u\<lparr>User_ID := i\<rparr>
        \<and> r\<lparr>User_CreatedAt := User_CreatedAt u'\<rparr> = u'
        \<and> S w1 = (S w)\<lparr>st_users := (st_users (S w))(i \<mapsto> r)\<rparr>"
  then obtain i r where i: "0 < i" "int64 i" "st_users (S w) i = None" "u' = u\<lparr>User_ID := i\<rparr>"
    and r: "r\<lparr>User_CreatedAt := User_CreatedAt u'\<rparr> = u'"
    and w1: "S w1 = (S w)\<lparr>st_users := (st_users (S w))(i \<mapsto> r)\<rparr>" by blast
  have fields: "User_ID r = i" "User_KYCStatus r = KYCStatusPending" "User_Market r = []" "User_Language r = []"
    using arg_cong [OF r, of User_ID] arg_cong [OF r, of User_KYCStatus] arg_cong [OF r, of User_Market]
      arg_cong [OF r, of User_Language] i(4) assms(4-6) by simp_all
  have mok1: "mok w1" by (rule mappings.ok_frame [OF assms(2)]) (auto simp: w1)
  let ?m = "\<lparr>Mapping_ID = 0, Mapping_ClerkUserID = clerk, Mapping_Email = email,
      Mapping_InternalUserID = User_ID u', Mapping_Role = RoleUser, Mapping_CreatedAt = 0, Mapping_UpdatedAt = 0\<rparr>"
  show "runs (seqA (dao_CreateMapping mappings c ?m) (ret u')) w1 ?P ?Q"
  proof (rule runs_bindA [OF mappings.create_runs [OF mok1]])
    fix m' w2
    assume "mok w2 \<and> (\<exists>row. same_mapping row ?m \<and> same_mapping m' ?m
        \<and> mapping_of coll (clerk_user_id_eq (Mapping_ClerkUserID ?m)) (S w1) = None
        \<and> shrinks ((S w1)\<lparr>st_mappings := st_mappings (S w1) @ [row]\<rparr>) (S w2))"
    then obtain row where mok2: "mok w2" and row: "same_mapping row ?m"
      and none: "mapping_of coll (clerk_user_id_eq clerk) (S w1) = None"
      and sh: "shrinks ((S w1)\<lparr>st_mappings := st_mappings (S w1) @ [row]\<rparr>) (S w2)" by auto
    have "added clerk email i (S w) (S w2)"
      unfolding added_def using i fields row shrinksD(1,2) [OF sh] w1
      by (auto simp: same_mapping_def intro!: exI [of _ r] exI [of _ row])
    moreover have "cache_le (S w) (S w2)" using cache_le_shrinks [OF sh] w1 by (simp add: cache_le_def)
    ultimately show "runs (ret u') w2 ?P ?Q"
      using mok2 none i(4) w1 shrinksD(3) [OF sh] by (simp add: mapping_of_def)
  next
    fix e w2
    assume "outside e \<and> shrinks (S w1) (S w2) \<and> mok w2"
    then show "?Q e w2" using w1 by (auto simp: cache_le_def shrinks_def)
  qed
qed simp

lemma added_cong:
  "added clerk email i st0 st1 \<Longrightarrow> st_users st = st_users st1 \<Longrightarrow> st_mappings st = st_mappings st1
    \<Longrightarrow> added clerk email i st0 st"
  by (simp add: added_def)

text \<open>After the commit: the profile cache and the event.\<close>

lemma announce_new_runs:
  assumes ok: "pok" "cache_client_ok S C" and w1: "mok w1" "added clerk email i st0 (S w1)" "st_events (S w1) = st_events st0"
  shows "runs (seqA (InvalidateUserProfileCache C c i) (registered c i t)) w1
      (\<lambda>_ w'. mok w' \<and> added clerk email i st0 (S w') \<and> told live event st0 i t (S w'))
      (\<lambda>e w'. outside e \<and> mok w' \<and> added clerk email i st0 (S w')
        \<and> (st_events (S w') = st_events st0 \<or> told live event st0 i t (S w')))"
    (is "runs _ w1 ?P ?Q")
proof (rule runs_bindA [OF InvalidateUserProfileCache_runs [OF ok(2), where Q = "\<lambda>_ _. False"]])
  fix x w2
  assume "shrinks (S w1) (S w2) \<and> (answering C \<longrightarrow> C \<noteq> None \<longrightarrow> 0 < i \<longrightarrow> st_cache (S w2) (userProfileCacheKey i) = None)"
  then have sh: "shrinks (S w1) (S w2)" by blast
  have mok2: "mok w2" by (rule mappings.ok_frame [OF w1(1) mappings_kept_shrinks [OF sh]])
  have add2: "added clerk email i st0 (S w2)" by (rule added_cong [OF w1(2) shrinksD(1,2) [OF sh]])
  have ev: "st_events (S w2) = st_events st0" using shrinksD(3) [OF sh] w1(3) by simp
  have pub: "mok w3 \<and> added clerk email i st0 (S w3) \<and> told live event st0 i t (S w3)"
    if "published live (event (i, t)) (S w2) (S w3)" for w3
  proof -
    have "mok w3" by (rule mappings.ok_frame [OF mok2]) (auto simp: published_frame [OF that])
    moreover have "added clerk email i st0 (S w3)" by (rule added_cong [OF add2 published_frame(1,2) [OF that]])
    ultimately show ?thesis using that ev by (auto simp: told_def)
  qed
  have same: "mok w3 \<and> added clerk email i st0 (S w3) \<and> st_events (S w3) = st_events st0" if "S w3 = S w2" for w3
    using that mok_same [OF mok2 that] add2 ev by simp
  show "runs (registered c i t) w2 ?P ?Q"
    by (rule runs_mono [OF registered.announce_runs [OF ok(1), of c "(i, t)" w2, simplified]])
      (use pub same in blast)+
qed simp

lemma unregistered_rolled_back:
  assumes "mok w1" and "S w3 = roll_back (S w1) st" and "cache_le (S w1) st" and "st_events st = st_events (S w1)"
  shows "mok w3 \<and> unregistered live event clerk email (S w1) (S w3)"
proof -
  have "mappings_kept (S w1) (S w3)"
    using assms(2,3) by (intro mappings_kept_cache_le) (simp_all add: cache_le_def)
  then show ?thesis
    using mappings.ok_frame [OF assms(1)] assms(2,4) by (simp add: unregistered_def same_tables_def)
qed

lemma unregistered_same: "mok w1 \<Longrightarrow> S w3 = S w1 \<Longrightarrow> mok w3 \<and> unregistered live event clerk email (S w1) (S w3)"
  using mok_same by (auto simp: unregistered_def same_tables_def)

lemma commit_new_runs:
  assumes ok: "uok" "tok" "pok" "cache_client_ok S C" and mok: "mok w1"
    and u: "User_ID u = 0" "User_KYCStatus u = KYCStatusPending" "User_Market u = []" "User_Language u = []"
  shows "runs (bindA (tx c (create_both mappings users c clerk email u))
        (\<lambda>user. seqA (InvalidateUserProfileCache C c (User_ID user)) (registered c (User_ID user) (User_CreatedAt user)))) w1
      (\<lambda>_ w'. mok w' \<and> (\<exists>i t. added clerk email i (S w1) (S w') \<and> told live event (S w1) i t (S w')))
      (\<lambda>e w'. outside e \<and> mok w' \<and> unregistered live event clerk email (S w1) (S w'))"
    (is "runs _ w1 ?P ?Q")
proof (rule runs_bindA [OF tx.tx_runs [OF ok(2)]])
  fix w0 assume w0: "S w0 = S w1"
  show "runs (create_both mappings users c clerk email u) w0
        (\<lambda>u' w'. mok w' \<and> added clerk email (User_ID u') (S w1) (S w')
          \<and> cache_le (S w1) (S w') \<and> st_events (S w') = st_events (S w1))
        (\<lambda>e w'. outside e \<and> cache_le (S w1) (S w') \<and> st_events (S w') = st_events (S w1))"
    by (rule runs_mono [OF create_both_runs [OF ok(1) mok_same [OF mok w0] u]]) (auto simp: w0)
next
  fix user w3
  assume "\<exists>w4. (mok w4 \<and> added clerk email (User_ID user) (S w1) (S w4)
          \<and> cache_le (S w1) (S w4) \<and> st_events (S w4) = st_events (S w1)) \<and> S w3 = S w4"
  then have "mok w3" "added clerk email (User_ID user) (S w1) (S w3)" "st_events (S w3) = st_events (S w1)"
    using mok_same by auto
  from announce_new_runs [OF ok(3,4) this]
  show "runs (seqA (InvalidateUserProfileCache C c (User_ID user)) (registered c (User_ID user) (User_CreatedAt user))) w3 ?P ?Q"
    by (rule runs_mono) (auto simp: unregistered_def)
next
  fix e w3
  assume "outside e \<and> S w3 = S w1
        \<or> (\<exists>user w4. (mok w4 \<and> added clerk email (User_ID user) (S w1) (S w4)
             \<and> cache_le (S w1) (S w4) \<and> st_events (S w4) = st_events (S w1)) \<and> outside e
             \<and> (S w3 = S w4 \<or> S w3 = roll_back (S w1) (S w4)))
        \<or> (\<exists>w4. (outside e \<and> cache_le (S w1) (S w4) \<and> st_events (S w4) = st_events (S w1))
             \<and> S w3 = roll_back (S w1) (S w4))"
  then show "?Q e w3"
  proof (elim disjE exE conjE)
    fix user w4
    assume "mok w4" "added clerk email (User_ID user) (S w1) (S w4)" "st_events (S w4) = st_events (S w1)"
      "outside e" "S w3 = S w4"
    then show ?thesis using mok_same by (auto simp: unregistered_def)
  qed (use unregistered_rolled_back [OF mok] unregistered_same [OF mok] in auto)
qed

lemma register_new_runs:
  assumes ok: "uok" "tok" "pok" "runtime_ok S R" "cache_client_ok S C" and mok: "mok w1"
  shows "runs (register_new mappings users tx registered R C c clerk email) w1
      (\<lambda>_ w'. mok w' \<and> (\<exists>i t. added clerk email i (S w1) (S w') \<and> told live event (S w1) i t (S w')))
      (\<lambda>e w'. outside e \<and> mok w' \<and> unregistered live event clerk email (S w1) (S w'))"
  unfolding register_new_def
proof (rule runs_bindA [OF runs_randomGenName [OF ok(4)]], rule runs_bindA [OF runs_now [OF ok(4), where Q = "\<lambda>_ _. False"]])
  fix name w2 t w3
  assume "S w2 = S w1" "S w3 = S w2"
  then have "mok w3" "S w3 = S w1" using mok_same [OF mok] by simp_all
  from commit_new_runs [OF ok(1-3,5) this(1), of "zero_User\<lparr>User_Name := name, User_KYCStatus := KYCStatusPending, User_CreatedAt := t\<rparr>"] this(2)
  show "runs (bindA (tx c (create_both mappings users c clerk email
          (zero_User\<lparr>User_Name := name, User_KYCStatus := KYCStatusPending, User_CreatedAt := t\<rparr>)))
        (\<lambda>user. seqA (InvalidateUserProfileCache C c (User_ID user)) (registered c (User_ID user) (User_CreatedAt user)))) w3
      (\<lambda>_ w'. mok w' \<and> (\<exists>i t. added clerk email i (S w1) (S w') \<and> told live event (S w1) i t (S w')))
      (\<lambda>e w'. outside e \<and> mok w' \<and> unregistered live event clerk email (S w1) (S w'))"
    by simp
qed auto

text \<open>The whole call.\<close>

lemma CreateUser_runs:
  assumes ok: "uok" "tok" "pok" "runtime_ok S R" "cache_client_ok S C" and mok: "mok w"
    and ids: "clerk = ClerkUserID d" "email = EmailAddress d"
  shows "runs (svc_CreateUser mappings users tx registered R C c d) w
      (\<lambda>_ w'. mok w' \<and>
        (if email = [] then S w' = S w
         else if known coll clerk email (S w) then only_cache mapping_key (S w) (S w')
         else \<exists>i t. added clerk email i (S w) (S w') \<and> told live event (S w) i t (S w')))
      (\<lambda>e w'. outside e \<and> mok w' \<and> email \<noteq> []
        \<and> (if known coll clerk email (S w) then only_cache mapping_key (S w) (S w')
           else unregistered live event clerk email (S w) (S w')))"
    (is "runs _ w ?P ?Q")
proof (cases "email = []")
  case True
  then show ?thesis using mok ids by (simp add: svc_CreateUser_def)
next
  case False
  have quiet: "?Q e w1" if "outside e" "only_cache mapping_key (S w) (S w1)" "mok w1" for e w1
    using that False by (auto simp: unregistered_def same_tables_def only_cacheD)
  have register: "runs (register_new mappings users tx registered R C c clerk email) w2 ?P ?Q"
    if "mok w2" "only_cache mapping_key (S w) (S w2)" "\<not> known coll clerk email (S w)" for w2
  proof -
    have "added clerk email i (S w2) = added clerk email i (S w)" "told live event (S w2) i t = told live event (S w) i t"
      "same_tables (S w2) = same_tables (S w)" for i t
      using only_cacheD(1-3) [OF that(2)] by (simp_all add: fun_eq_iff added_def told_def same_tables_def)
    then show ?thesis
      using that(3) False only_cacheD(3) [OF that(2)]
      by (intro runs_mono [OF register_new_runs [OF ok that(1)]]) (simp_all add: unregistered_def)
  qed
  have second: "runs (bindA (dao_GetByEmail mappings c email) (\<lambda>um. if um \<noteq> None then ret ()
      else register_new mappings users tx registered R C c clerk email)) w1 ?P ?Q"
    if w1: "mok w1" "only_cache mapping_key (S w) (S w1)"
      and none: "mapping_of coll (clerk_user_id_eq clerk) (S w) = None" for w1
  proof (rule runs_bindA [OF mappings.email_runs [OF w1(1)]])
    fix r w2
    assume r: "r = mapping_of coll (email_eq email) (S w1) \<and> only_cache mapping_key (S w1) (S w2) \<and> mok w2"
    have "only_cache mapping_key (S w) (S w2)" using only_cache_trans [OF w1(2)] r by blast
    moreover have "r = mapping_of coll (email_eq email) (S w)"
      using r only_cacheD(2) [OF w1(2)] by (simp add: mapping_of_def)
    ultimately show "runs (if r \<noteq> None then ret () else register_new mappings users tx registered R C c clerk email) w2 ?P ?Q"
      using r none False register [of w2] by (auto simp: known_def)
  qed (use quiet only_cache_trans [OF w1(2)] in blast)
  show ?thesis
    unfolding svc_CreateUser_def Let_def ids [symmetric] if_not_P [OF False]
    by (rule runs_bindA [OF mappings.clerk_runs [OF mok]])
      (use False second quiet in \<open>auto simp: known_def\<close>)
qed

end

subsection \<open>The service as it is wired\<close>

text \<open>
  \<open>GetUserMappingService\<close>: the data access objects over the one database handle, its
  transactions, the producer of registration events over \<open>publish\<close>.
\<close>

definition GetUserMappingService_CreateUser ::
    "'w GormDB \<Rightarrow> 'w RedisClient option \<Rightarrow> UserAuthMapping Codec \<Rightarrow> 'w Runtime \<Rightarrow> UserRegisteredEvent Codec
      \<Rightarrow> 'w KafkaProducer \<Rightarrow> ctx \<Rightarrow> ClerkCallbackData option \<Rightarrow> ('w, unit) act" where
  "GetUserMappingService_CreateUser G C JM R JR publish =
    svc_CreateUser (UserAuthMappingDaoImpl (Some G) C JM) (UserDaoImpl (Some G)) (gorm_Transaction G)
      (PublishUserRegistered R JR publish) R C"

interpretation registration_kgo: registration "UserDaoImpl db" "UserAuthMappingDaoImpl db C JM" S coll
    "db_ok S coll db" "mapping_world_ok S coll db C JM" "gorm_Transaction G" "transaction_ok S G"
    "PublishUserRegistered R JR (kafkaProducerImpl_Publish R K)" True "registered_record (PrefixedTopic R) JR"
    "kafka_ok S K \<and> runtime_ok S R \<and> codec_ok JR" R C
  for db C JM S coll G R JR K
  by unfold_locales (rule kgo_events.registered.announce_runs, simp)

interpretation registration_nop: registration "UserDaoImpl db" "UserAuthMappingDaoImpl db C JM" S coll
    "db_ok S coll db" "mapping_world_ok S coll db C JM" "gorm_Transaction G" "transaction_ok S G"
    "PublishUserRegistered R JR (nopKafkaProducer_Publish R)" False "registered_record (PrefixedTopic R) JR"
    "runtime_ok S R \<and> codec_ok JR" R C
  for db C JM S coll G R JR
  by unfold_locales (rule nop_events.registered.announce_runs, simp)

definition registration_world ::
    "('w \<Rightarrow> Stores) \<Rightarrow> (string \<Rightarrow> string \<Rightarrow> bool) \<Rightarrow> 'w GormDB \<Rightarrow> 'w RedisClient option \<Rightarrow> UserAuthMapping Codec
      \<Rightarrow> 'w Runtime \<Rightarrow> UserRegisteredEvent Codec \<Rightarrow> 'w KgoClient \<Rightarrow> 'w \<Rightarrow> bool" where
  "registration_world S coll G C JM R JR K w \<longleftrightarrow>
     mapping_world_ok S coll (Some G) C JM w \<and> runtime_ok S R \<and> codec_ok JR \<and> kafka_ok S K"

lemma registration_worldD:
  assumes "registration_world S coll G C JM R JR K w"
  shows "db_ok S coll (Some G)" "transaction_ok S G" "kafka_ok S K \<and> runtime_ok S R \<and> codec_ok JR"
    "runtime_ok S R" "cache_client_ok S C" "mapping_world_ok S coll (Some G) C JM w" "collation coll"
  using assms by (simp_all add: registration_world_def mapping_world_ok_def db_ok_def gorm_ok_def)

definition sent_registered ::
    "'w Runtime \<Rightarrow> UserRegisteredEvent Codec \<Rightarrow> int \<Rightarrow> instant \<Rightarrow> Stores \<Rightarrow> Stores \<Rightarrow> bool" where
  "sent_registered R JR i t st st' \<longleftrightarrow>
     (\<exists>r. registered_record (PrefixedTopic R) JR (i, t) r \<and> st_events st' = st_events st @ [r])"

lemma told_sent [simp]:
  "told True (registered_record (PrefixedTopic R) JR) st i t st' \<longleftrightarrow> sent_registered R JR i t st st'"
proof
  assume "sent_registered R JR i t st st'"
  then obtain r where "registered_record (PrefixedTopic R) JR (i, t) r" "st_events st' = st_events st @ [r]"
    by (auto simp: sent_registered_def)
  then show "told True (registered_record (PrefixedTopic R) JR) st i t st'"
    unfolding told_def published_def add_event_def
    by (intro exI [of _ "st'\<lparr>st_events := st_events st\<rparr>"]) auto
qed (auto simp: told_def sent_registered_def published_def add_event_def)

lemma create_user_effect:
  assumes "registration_world S coll G C JM R JR K w"
    and "GetUserMappingService_CreateUser G C JM R JR (kafkaProducerImpl_Publish R K) c d w = (r, w')"
    and "clerk = ClerkUserID d" and "email = EmailAddress d"
  shows "case r of
      Ok x \<Rightarrow> if email = [] then S w' = S w
        else if known coll clerk email (S w) then same_tables (S w) (S w') \<and> st_events (S w') = st_events (S w)
        else \<exists>i t. added clerk email i (S w) (S w') \<and> sent_registered R JR i t (S w) (S w')
    | Err e \<Rightarrow> outside e \<and> email \<noteq> [] \<and>
        (same_tables (S w) (S w') \<and> st_events (S w') = st_events (S w)
         \<or> \<not> known coll clerk email (S w) \<and> (\<exists>i t. added clerk email i (S w) (S w')
              \<and> (st_events (S w') = st_events (S w) \<or> sent_registered R JR i t (S w) (S w'))))
    | Panicked m \<Rightarrow> False"
proof -
  note ok = registration_worldD [OF assms(1)]
  show ?thesis
    using registration_kgo.CreateUser_runs [OF ok(1-6) assms(3,4), of c] assms(2)
    by (cases r) (auto simp: runs_def GetUserMappingService_CreateUser_def unregistered_def
        same_tables_def dest: only_cacheD split: if_splits)
qed

text \<open>
  C4. What a registration does, on every path. Without an e-mail address nothing; for a
  known Clerk id or address no table and no topic changes; otherwise exactly one user with
  a fresh id, status PENDING and no market or language, one mapping with role user that
  points to it, and one event keyed by the new id. A failure is never one of the service's
  own errors and leaves the tables as they were or with both rows, never with one of them.
\<close>

theorem create_user_outcome:
  assumes "registration_world S coll G C JM R JR K w"
    and "GetUserMappingService_CreateUser G C JM R JR (kafkaProducerImpl_Publish R K) c d w = (r, w')"
    and "clerk = ClerkUserID d" and "email = EmailAddress d"
  shows "case r of
      Ok x \<Rightarrow> if email = [] then S w' = S w
        else if known coll clerk email (S w) then same_tables (S w) (S w') \<and> st_events (S w') = st_events (S w)
        else \<exists>i t. added clerk email i (S w) (S w') \<and> sent_registered R JR i t (S w) (S w')
    | Err e \<Rightarrow> outside e \<and> email \<noteq> [] \<and>
        (same_tables (S w) (S w') \<and> st_events (S w') = st_events (S w)
         \<or> \<not> known coll clerk email (S w) \<and> (\<exists>i t. added clerk email i (S w) (S w')
              \<and> (st_events (S w') = st_events (S w) \<or> sent_registered R JR i t (S w) (S w'))))
    | Panicked m \<Rightarrow> False"
  by (rule create_user_effect [OF assms])

text \<open>
  The registry: mappings and users correspond one to one, and no two mappings have Clerk
  ids the database takes for equal.
\<close>

definition registry :: "(string \<Rightarrow> string \<Rightarrow> bool) \<Rightarrow> Stores \<Rightarrow> bool" where
  "registry coll st \<longleftrightarrow> distinct (map Mapping_InternalUserID (st_mappings st))
     \<and> (\<forall>i. st_users st i \<noteq> None \<longleftrightarrow> i \<in> Mapping_InternalUserID ` set (st_mappings st))
     \<and> sorted_wrt (\<lambda>m n. \<not> coll (Mapping_ClerkUserID m) (Mapping_ClerkUserID n)) (st_mappings st)"

lemma registry_cong: "registry coll st \<Longrightarrow> same_tables st st' \<Longrightarrow> registry coll st'"
  by (simp add: registry_def same_tables_def)

lemma registry_added:
  assumes "registry coll st" and "added clerk email i st st'"
    and none: "mapping_of coll (clerk_user_id_eq clerk) st = None"
  shows "registry coll st'"
proof -
  from assms(2) obtain r row where i: "st_users st i = None"
    and row: "Mapping_ClerkUserID row = clerk" "Mapping_InternalUserID row = i"
    and st': "st_users st' = (st_users st)(i \<mapsto> r)" "st_mappings st' = st_mappings st @ [row]"
    unfolding added_def by blast
  have "\<not> coll (Mapping_ClerkUserID m) clerk" if "m \<in> set (st_mappings st)" for m
    using none that by (auto simp: mapping_of_def find_None_iff)
  moreover have "i \<notin> Mapping_InternalUserID ` set (st_mappings st)"
    using assms(1) i unfolding registry_def by metis
  ultimately show ?thesis
    using assms(1) row st' by (auto simp: registry_def sorted_wrt_append)
qed

text \<open>A history of webhook deliveries; the service does not stop at a failed one.\<close>

fun run_registrations ::
    "(ctx \<Rightarrow> ClerkCallbackData option \<Rightarrow> ('w, unit) act) \<Rightarrow> (ctx \<times> ClerkCallbackData option) list \<Rightarrow> 'w \<Rightarrow> 'w" where
  "run_registrations create [] w = w"
| "run_registrations create ((c, d) # ds) w = run_registrations create ds (snd (create c d w))"

lemma create_user_world:
  assumes "registration_world S coll G C JM R JR K w"
  shows "registration_world S coll G C JM R JR K
    (snd (GetUserMappingService_CreateUser G C JM R JR (kafkaProducerImpl_Publish R K) c d w))"
proof -
  note ok = registration_worldD [OF assms]
  show ?thesis
    using registration_kgo.CreateUser_runs [OF ok(1-6) refl refl, of c d] assms
    by (auto simp: runs_def GetUserMappingService_CreateUser_def registration_world_def split: prod.splits res.splits)
qed

text \<open>A delivery as seen by the tables, in the two ways that matter to the registry.\<close>

lemma create_user_tables:
  assumes "registration_world S coll G C JM R JR K w"
    and "w' = snd (GetUserMappingService_CreateUser G C JM R JR (kafkaProducerImpl_Publish R K) c d w)"
  shows "same_tables (S w) (S w') \<or> EmailAddress d \<noteq> [] \<and> \<not> known coll (ClerkUserID d) (EmailAddress d) (S w)
    \<and> (\<exists>i. added (ClerkUserID d) (EmailAddress d) i (S w) (S w'))"
proof -
  note ok = registration_worldD [OF assms(1)]
  show ?thesis
    using registration_kgo.CreateUser_runs [OF ok(1-6) refl refl, of c d] assms(2)
    by (auto simp: runs_def GetUserMappingService_CreateUser_def unregistered_def same_tables_def
        dest: only_cacheD split: prod.splits res.splits if_splits)
qed

text \<open>
  C10. Users and mappings stay in one-to-one correspondence and no Clerk identity ever gets
  a second user: the registry invariant holds after any history of deliveries, repeated
  ones and failing ones included.
\<close>

theorem registry_is_kept:
  assumes "registration_world S coll G C JM R JR K w" and "registry coll (S w)"
  shows "registry coll (S (run_registrations
    (GetUserMappingService_CreateUser G C JM R JR (kafkaProducerImpl_Publish R K)) ds w))"
  using assms
proof (induction ds arbitrary: w)
  case (Cons cd ds)
  obtain c d where cd: "cd = (c, d)" by (cases cd)
  let ?w1 = "snd (GetUserMappingService_CreateUser G C JM R JR (kafkaProducerImpl_Publish R K) c d w)"
  have "registry coll (S ?w1)"
    using create_user_tables [OF Cons.prems(1) refl, of c d] registry_cong [OF Cons.prems(2)]
      registry_added [OF Cons.prems(2)]
    by (auto simp: known_def)
  with Cons.IH [OF create_user_world [OF Cons.prems(1)]] show ?case by (simp add: cd)
qed simp

text \<open>
  Deliveries may be repeated: once a delivery with an e-mail address has succeeded,
  delivering the same data again changes no table and sends no event, whatever the outcome.
\<close>

theorem delivery_is_idempotent:
  assumes "registration_world S coll G C JM R JR K w" and "EmailAddress d \<noteq> []"
    and "GetUserMappingService_CreateUser G C JM R JR (kafkaProducerImpl_Publish R K) c d w = (Ok x, w1)"
    and "GetUserMappingService_CreateUser G C JM R JR (kafkaProducerImpl_Publish R K) c' d w1 = (r, w2)"
  shows "same_tables (S w1) (S w2) \<and> st_events (S w2) = st_events (S w1)"
proof -
  let ?k = "\<lambda>w. known coll (ClerkUserID d) (EmailAddress d) (S w)"
  have refl: "coll (ClerkUserID d) (ClerkUserID d)"
    using registration_worldD(7) [OF assms(1)] by (simp add: collation_def)
  have known: "?k w1"
  proof (cases "?k w")
    case True
    then have "same_tables (S w) (S w1)"
      using create_user_effect [OF assms(1,3) HOL.refl HOL.refl] assms(2) by simp
    with True show ?thesis by (simp add: known_def mapping_of_def same_tables_def)
  next
    case False
    then obtain i where "added (ClerkUserID d) (EmailAddress d) i (S w) (S w1)"
      using create_user_effect [OF assms(1,3) HOL.refl HOL.refl] assms(2) by auto
    then obtain row where "Mapping_ClerkUserID row = ClerkUserID d" "st_mappings (S w1) = st_mappings (S w) @ [row]"
      by (auto simp: added_def)
    then show ?thesis using refl by (auto simp: known_def mapping_of_def find_append_None split: option.splits)
  qed
  have "registration_world S coll G C JM R JR K w1"
    using create_user_world [OF assms(1), of c d] assms(3) by simp
  from create_user_effect [OF this assms(4) HOL.refl HOL.refl] known assms(2)
  show ?thesis by (cases r) auto
qed

subsection \<open>Witnesses and a lost event\<close>

definition bob_data :: "ClerkCallbackData option" where
  "bob_data = Some \<lparr>Clerk_ID = ''user_2'', Clerk_PrimaryEmailAddressID = ''e1'',
     Clerk_EmailAddresses = [\<lparr>ClerkEmail_ID = ''e1'', ClerkEmail_EmailAddress = ''bob@example.com''\<rparr>]\<rparr>"

definition ref_registered_codec :: "UserRegisteredEvent Codec" where
  "ref_registered_codec = table_codec [(''registered'', \<lparr>Registered_UserID = 2,
     Registered_RegisterTime = Unix (63000000001 * Second), Registered_Channel = [], Registered_InviterID = 0,
     Registered_EventTime = 63000000002 * Second\<rparr>)]"

abbreviation ref_create :: "refw KgoClient \<Rightarrow> ctx \<Rightarrow> ClerkCallbackData option \<Rightarrow> (refw, unit) act" where
  "ref_create K \<equiv> GetUserMappingService_CreateUser ref_gorm (Some ref_redis) ref_mapping_codec ref_runtime
     ref_registered_codec (kafkaProducerImpl_Publish ref_runtime K)"

lemma ref_registration_world:
  "registration_world rw_stores (=) ref_gorm (Some ref_redis) ref_mapping_codec ref_runtime ref_registered_codec ref_kafka
     (ref_world us ms)"
proof -
  have "codec_ok ref_registered_codec" by (simp add: ref_registered_codec_def table_codec_ok)
  then show ?thesis by (simp add: registration_world_def ref_mapping_world ref_runtime_ok ref_kafka_ok)
qed

lemma alice_registration_world:
  "registration_world rw_stores (=) ref_gorm (Some ref_redis) ref_mapping_codec ref_runtime ref_registered_codec ref_kafka alice_world"
  unfolding alice_world_def by (rule ref_registration_world)

theorem create_user_outcome_witness:
  "let w' = snd (ref_create ref_kafka Background bob_data alice_world) in
    \<exists>i t. added ''user_2'' ''bob@example.com'' i (rw_stores alice_world) (rw_stores w')
      \<and> sent_registered ref_runtime ref_registered_codec i t (rw_stores alice_world) (rw_stores w')"
proof -
  let ?run = "ref_create ref_kafka Background bob_data alice_world"
  have "fst ?run = Ok ()" and ids: "ClerkUserID bob_data = ''user_2''" "EmailAddress bob_data = ''bob@example.com''"
    by code_simp+
  moreover have "\<not> known (=) ''user_2'' ''bob@example.com'' (rw_stores alice_world)"
    by (simp add: known_def mapping_of_def alice_world_def alice_mapping_def)
  ultimately show ?thesis
    using create_user_outcome [OF alice_registration_world prod.collapse [symmetric] refl refl, where c = Background and d = bob_data]
    by simp
qed

theorem registry_is_kept_witness:
  "registry (=) (rw_stores (run_registrations (ref_create ref_kafka)
     [(Background, bob_data), (Background, bob_data), (Background, None)] alice_world))"
proof (rule registry_is_kept [OF alice_registration_world])
  show "registry (=) (rw_stores alice_world)"
    by (auto simp: registry_def alice_world_def alice_def alice_mapping_def)
qed

theorem delivery_is_idempotent_witness:
  "let w1 = snd (ref_create ref_kafka Background bob_data alice_world);
       w2 = snd (ref_create ref_kafka Background bob_data w1)
   in same_tables (rw_stores w1) (rw_stores w2) \<and> length (st_events (rw_stores w2)) = 1"
proof -
  let ?run = "ref_create ref_kafka Background bob_data alice_world"
  have ok: "fst ?run = Ok ()" "EmailAddress bob_data \<noteq> []" "length (st_events (rw_stores (snd ?run))) = 1"
    by code_simp+
  then have "?run = (Ok (), snd ?run)" by (simp add: prod_eq_iff)
  from delivery_is_idempotent [OF alice_registration_world ok(2) this prod.collapse [symmetric]] ok(3)
  show ?thesis by (simp add: Let_def)
qed


end
