(* ===== verification/Router.thy ===== *)
theory Router
  imports HttpLaws KYCService ProfileLaws UserMapping
begin

section \<open>The router\<close>

text \<open>
  server/http/router: which middlewares and which handler serve a request. \<open>App\<close> gathers what
  the handlers call: the services, and the third-party parts (CORS, tracing, Swagger, gin's
  binding of JSON, its \<open>FullPath\<close>, its \<open>ClientIP\<close> and its answer when no route matches, Svix).
\<close>

record 'w App =
  app_Runtime :: "'w Runtime"
  app_GetUser :: "ctx \<Rightarrow> int \<Rightarrow> ('w, User option) act"
  app_GetProfile :: "ctx \<Rightarrow> int \<Rightarrow> string \<Rightarrow> ('w, UserProfileVO option) act"
  app_UpdateProfile :: "ctx \<Rightarrow> int \<Rightarrow> UpdateUserProfileRequest option \<Rightarrow> ('w, unit) act"
  app_StartSingpassLogin :: "ctx \<Rightarrow> int \<Rightarrow> string \<Rightarrow> ('w, string) act"
  app_SingpassCallback :: "ctx \<Rightarrow> string \<Rightarrow> string \<Rightarrow> ('w, unit) act"
  app_CreateUser :: "ctx \<Rightarrow> ClerkCallbackData option \<Rightarrow> ('w, unit) act"
  app_Authenticate :: "ctx \<Rightarrow> string \<Rightarrow> ('w, AuthUser) act"
  app_redirect :: "string option"
  app_orbit :: "nat \<Rightarrow> nat \<Rightarrow> bool"
  app_bind :: "Request \<Rightarrow> go_error + UpdateUserProfileRequest"
  app_unmarshal :: "string \<Rightarrow> go_error + ClerkCallbackRequest"
  app_svix :: "'w Svix"
  app_clientIP :: "Payload Gin \<Rightarrow> string"
  app_fullPath :: "Payload Gin \<Rightarrow> string"
  app_stack :: "string \<Rightarrow> string"
  app_otel :: "('w, Payload) handler \<Rightarrow> ('w, Payload) handler"
  app_cors :: "('w, Payload) handler \<Rightarrow> ('w, Payload) handler"
  app_swagger :: "('w, Payload) handler"
  app_noRoute :: "('w, Payload) handler"
  app_struck :: "Payload Gin \<Rightarrow> string \<Rightarrow> 'w \<Rightarrow> Payload Gin"

definition serviceURIPrefix :: string where "serviceURIPrefix = ''/identity-ms/v1''"

definition ping :: "('w, 'p) handler" where
  "ping c = ret (c_JSON 200 (MessageJSON ''pong'') c)"

text \<open>The routes of the groups \<open>web\<close>, \<open>admin\<close> and of the API, each with its middlewares.\<close>

definition web :: "'w App \<Rightarrow> ('w, Payload) handler \<Rightarrow> ('w, Payload) handler" where
  "web A h = HTTPObservabilityMiddleware (app_Runtime A) (app_fullPath A) (RequireUser h)"

text \<open>The function the router gives to the audit middleware.\<close>

definition audit_logger :: "'w Runtime \<Rightarrow> ctx \<Rightarrow> 'w AuditLogger option" where
  "audit_logger R ctx = Some (Infow R (WithContext R (Some ctx)))"

definition admin :: "'w App \<Rightarrow> ('w, Payload) handler \<Rightarrow> ('w, Payload) handler" where
  "admin A h = HTTPObservabilityMiddleware (app_Runtime A) (app_fullPath A)
     (AuditMiddleware (app_Runtime A) (app_clientIP A) (Some (audit_logger (app_Runtime A))) (RequireRole [] h))"

definition public :: "'w App \<Rightarrow> ('w, Payload) handler \<Rightarrow> ('w, Payload) handler" where
  "public A h = HTTPObservabilityMiddleware (app_Runtime A) (app_fullPath A) h"

definition routes :: "'w App \<Rightarrow> ((string \<times> string) \<times> ('w, Payload) handler) list" where
  "routes A = map (\<lambda>(m, p, h). ((m, serviceURIPrefix @ p), h))
    [(''GET'', ''/ping'', ping),
     (''POST'', ''/clerk/callback'', public A (ClerkCallback (app_Runtime A) (app_svix A) (app_unmarshal A) (app_CreateUser A))),
     (''GET'', ''/kyc/singpass/callback'', public A (api_SingpassCallback (app_redirect A) (app_SingpassCallback A))),
     (''GET'', ''/web/user-profile'', web A (UserGetProfile (app_GetProfile A))),
     (''PUT'', ''/web/user-profile'', web A (UserUpdateProfile (app_bind A) (app_UpdateProfile A))),
     (''GET'', ''/web/kyc/singpass/login'', web A (SingpassLogin (app_StartSingpassLogin A))),
     (''GET'', ''/admin/current-user'', admin A (AdminGetCurrentUser (app_GetUser A)))]"

text \<open>The methods of \<open>r.Any\<close>.\<close>

definition anyMethods :: "string list" where
  "anyMethods = [''GET'', ''POST'', ''PUT'', ''PATCH'', ''HEAD'', ''OPTIONS'', ''DELETE'', ''CONNECT'', ''TRACE'']"

definition dispatch :: "'w App \<Rightarrow> ('w, Payload) handler" where
  "dispatch A c =
    (let m = In_Method (g_Request c); p = In_Path (g_Request c) in
     case map_of (routes A) (m, p) of
       Some h \<Rightarrow> h c
     | None \<Rightarrow>
         if m = ''GET'' \<and> HasPrefix p (serviceURIPrefix @ ''/swagger/'') then app_swagger A c
         else if m \<in> set anyMethods \<and> p = ''/auth/forward''
         then HTTPObservabilityMiddleware (app_Runtime A) (app_fullPath A)
           (RequireInternalNetwork (app_orbit A) (app_Runtime A) (AuthForward (app_Authenticate A))) c
         else app_noRoute A c)"

definition NewRouter :: "'w App \<Rightarrow> ('w, Payload) handler" where
  "NewRouter A = RecoveryMiddleware (app_Runtime A) (app_fullPath A) (app_stack A) (app_struck A)
     (app_otel A (HTTPResponseIDMiddleware (app_Runtime A) (app_cors A (dispatch A))))"

subsection \<open>Requests without an identity\<close>

lemma requestID_runs:
  assumes "runtime_ok S R"
  shows "runs (requestIDFromHeader R h) w (\<lambda>_ w'. S w' = S w) Q"
proof -
  have clock: "runs (bindA (now R) (\<lambda>t. ret (f t))) w1 (\<lambda>_ w'. S w' = S w) Q" if "S w1 = S w" for f w1
    by (rule runs_bindA [OF runs_now [OF assms, where Q = "\<lambda>_ _. False"]]) (use that in auto)
  show ?thesis
    by (auto simp: requestIDFromHeader_def Let_def intro!: runs_tryA [OF rand_read_runs [OF assms]] clock)
qed

lemma quiet_access_line: "runtime_ok S R \<Longrightarrow> quiet S (access_line R fp c d)"
  by (simp add: access_line_def Let_def quiet_def line_runs)

lemma quiet_requestID: "runtime_ok S R \<Longrightarrow> quiet S (requestIDFromHeader R h)"
  by (simp add: quiet_def requestID_runs)

text \<open>
  The access log does not change what a handler below it does: it hands the request on with a
  context that differs in the logger, and then only reads the clock and writes a line.
\<close>

lemma observed_tail:
  assumes "runtime_ok S R" and "P c' w1" and "\<And>w1 w2. P c' w1 \<Longrightarrow> S w2 = S w1 \<Longrightarrow> P c' w2"
  shows "runs (bindA (now R) (\<lambda>t. seqA (access_line R fp c' (f t)) (ret c'))) w1 P Q"
  by (rule runs_quiet [OF quiet_now [OF assms(1)]], rule runs_quiet [OF quiet_access_line [OF assms(1)]])
    (simp, metis assms(2,3))

lemma observed_runs:
  assumes R: "runtime_ok S R"
    and handler: "\<And>l w1. S w1 = S w \<Longrightarrow> runs (next (set_ctx (WithLogger (req_ctx c) l) c)) w1 P Q"
    and closed: "\<And>c' w1 w2. P c' w1 \<Longrightarrow> S w2 = S w1 \<Longrightarrow> P c' w2"
  shows "runs (HTTPObservabilityMiddleware R fp next c) w P Q"
  unfolding HTTPObservabilityMiddleware_def Let_def
  by (rule runs_quiet [OF quiet_now [OF R]], rule runs_quiet [OF quiet_requestID [OF R]],
    rule runs_bindA [OF handler observed_tail [where P = P, OF R _ closed]]) auto

text \<open>So does the audit log, which hands the request on as it is.\<close>

lemma audited_runs:
  assumes R: "runtime_ok S R" and handler: "\<And>w1. S w1 = S w \<Longrightarrow> runs (next c) w1 P Q"
    and closed: "\<And>c' w1 w2. P c' w1 \<Longrightarrow> S w2 = S w1 \<Longrightarrow> P c' w2"
  shows "runs (AuditMiddleware R ip (Some (audit_logger R)) next c) w P Q"
proof -
  have tail: "runs (bindA (now R) (\<lambda>t. seqA (Infow R l msg (f t)) (ret c'))) w1 P Q" if "P c' w1" for c' w1 l msg f
    by (rule runs_quiet [OF quiet_now [OF R]], rule runs_quiet [OF quiet_lines(2) [OF R]]) (simp, metis that closed)
  show ?thesis
    unfolding AuditMiddleware_def audit_logger_def option.case
    by (rule runs_quiet [OF quiet_now [OF R]], rule runs_bindA [OF handler]) (auto intro: tail)
qed

lemma RequireRole_anonymous: "userFromHeaders c = None \<Longrightarrow> RequireRole roles next c = ret (unauthorized c)"
  by (simp add: RequireRole_def Let_def)

definition public_routes :: "(string \<times> string) list" where
  "public_routes = [(''POST'', serviceURIPrefix @ ''/clerk/callback''), (''GET'', serviceURIPrefix @ ''/kyc/singpass/callback'')]"

definition protected_routes :: "(string \<times> string) list" where
  "protected_routes = [(''GET'', serviceURIPrefix @ ''/web/user-profile''), (''PUT'', serviceURIPrefix @ ''/web/user-profile''),
     (''GET'', serviceURIPrefix @ ''/web/kyc/singpass/login''), (''GET'', serviceURIPrefix @ ''/admin/current-user'')]"

text \<open>The third-party handlers leave the stores alone.\<close>

definition externals_keep :: "('w \<Rightarrow> Stores) \<Rightarrow> 'w App \<Rightarrow> bool" where
  "externals_keep S A \<longleftrightarrow> runtime_ok S (app_Runtime A) \<and> (\<forall>c. keeps S (app_swagger A c)) \<and> (\<forall>c. keeps S (app_noRoute A c))"

lemma protected_anonymous_runs:
  assumes "externals_keep S A" and "userFromHeaders c = None"
  shows "runs (web A h c) w (\<lambda>c' w'. g_Status c' = 401 \<and> S w' = S w) (\<lambda>_ _. False)"
    and "runs (admin A h c) w (\<lambda>c' w'. g_Status c' = 401 \<and> S w' = S w) (\<lambda>_ _. False)"
proof -
  have R: "runtime_ok S (app_Runtime A)" using assms(1) by (simp add: externals_keep_def)
  show "runs (web A h c) w (\<lambda>c' w'. g_Status c' = 401 \<and> S w' = S w) (\<lambda>_ _. False)"
    unfolding web_def
    by (rule observed_runs [OF R]) (simp_all add: RequireUser_def RequireRole_anonymous assms(2) unauthorized_def)
  show "runs (admin A h c) w (\<lambda>c' w'. g_Status c' = 401 \<and> S w' = S w) (\<lambda>_ _. False)"
    unfolding admin_def
    by (rule observed_runs [OF R audited_runs [OF R]]) (simp_all add: RequireRole_anonymous assms(2) unauthorized_def)
qed

lemma routes_cases:
  assumes "map_of (routes A) k = Some h"
  shows "k \<in> set public_routes \<or> k \<in> set protected_routes \<or> h = ping"
proof -
  have "(k, h) \<in> set (routes A)" using assms by (rule map_of_SomeD)
  then show ?thesis unfolding routes_def
   apply (simp only: list.map set_simps insert_iff empty_iff prod.case prod.inject simp_thms)
   apply (elim disjE conjE)
  apply (simp_all only: public_routes_def protected_routes_def set_simps insert_iff simp_thms)
  done
qed
lemma route_names: "map fst (routes A) = map (\<lambda>(m, p). (m, serviceURIPrefix @ p))
    [(''GET'', ''/ping''), (''POST'', ''/clerk/callback''), (''GET'', ''/kyc/singpass/callback''), (''GET'', ''/web/user-profile''),
     (''PUT'', ''/web/user-profile''), (''GET'', ''/web/kyc/singpass/login''), (''GET'', ''/admin/current-user'')]"
  by (simp only: routes_def list.map prod.case fst_conv)

lemma routes_distinct: "distinct (map fst (routes A))"
  unfolding route_names by code_simp

lemma route_lookup:
  "map_of (routes A) (''POST'', serviceURIPrefix @ ''/clerk/callback'')
    = Some (public A (ClerkCallback (app_Runtime A) (app_svix A) (app_unmarshal A) (app_CreateUser A)))"
  "map_of (routes A) (''GET'', serviceURIPrefix @ ''/kyc/singpass/callback'')
    = Some (public A (api_SingpassCallback (app_redirect A) (app_SingpassCallback A)))"
  "map_of (routes A) (''GET'', serviceURIPrefix @ ''/web/user-profile'') = Some (web A (UserGetProfile (app_GetProfile A)))"
  "map_of (routes A) (''PUT'', serviceURIPrefix @ ''/web/user-profile'')
    = Some (web A (UserUpdateProfile (app_bind A) (app_UpdateProfile A)))"
  "map_of (routes A) (''GET'', serviceURIPrefix @ ''/web/kyc/singpass/login'')
    = Some (web A (SingpassLogin (app_StartSingpassLogin A)))"
  "map_of (routes A) (''GET'', serviceURIPrefix @ ''/admin/current-user'')
    = Some (admin A (AdminGetCurrentUser (app_GetUser A)))"
  by (rule map_of_is_SomeI [OF routes_distinct], simp only: routes_def list.map prod.case set_simps insert_iff simp_thms)+

lemma protected_handler:
  "k \<in> set protected_routes \<Longrightarrow> \<exists>h. map_of (routes A) k = Some (web A h) \<or> map_of (routes A) k = Some (admin A h)"
  using route_lookup [of A] unfolding protected_routes_def set_simps insert_iff empty_iff by blast

lemma other_handler: "map_of (routes A) k = Some h \<Longrightarrow> k \<notin> set public_routes \<Longrightarrow> k \<notin> set protected_routes \<Longrightarrow> h = ping"
  using routes_cases by blast

lemma dispatch_route: "map_of (routes A) (In_Method (g_Request c), In_Path (g_Request c)) = Some h \<Longrightarrow> dispatch A c = h c"
  by (simp add: dispatch_def)

lemma if_or: "(if b then x else y) = x \<or> (if b then x else y) = y"
  by simp

lemma dispatch_none:
  assumes "externals_keep S A" and "map_of (routes A) (In_Method (g_Request c), In_Path (g_Request c)) = None"
    and "In_Path (g_Request c) \<noteq> ''/auth/forward''"
  shows "keeps S (dispatch A c)"
proof -
  have forward: "(m \<in> M \<and> In_Path (g_Request c) = ''/auth/forward'') = False" for m and M :: "string set"
    using assms(3) by blast
  have "dispatch A c = app_swagger A c \<or> dispatch A c = app_noRoute A c"
    unfolding dispatch_def Let_def assms(2) option.case forward if_False by (rule if_or)
  with assms(1) show ?thesis unfolding externals_keep_def by metis
qed

lemma status_runs: "runs m w (\<lambda>c' w'. g_Status c' = n \<and> S w' = s) (\<lambda>_ _. False) \<Longrightarrow> m w = (r, w')
    \<Longrightarrow> S w' = s \<and> (\<exists>c'. r = Ok c' \<and> g_Status c' = n)"
  by (auto simp: runs_def split: res.splits)

end
