(* ===== verification/Server.thy ===== *)
theory Server
  imports Router
begin

section \<open>The server as it is wired\<close>

text \<open>
  server/http/init.go and the singletons of the services: the application whose handlers call
  the services over one database, one Redis, one Kafka client and the in-memory store of
  pending Singpass attempts. A \<open>Deployment\<close> is what lies outside: the clients, the codecs and
  the third-party handlers.
\<close>

record ('e, 'k, 's) Deployment =
  dep_DB :: "'e GormDB"
  dep_Redis :: "'e RedisClient option"
  dep_Kafka :: "'e KgoClient"
  dep_Http :: "'e HttpClient"
  dep_Runtime :: "'e Runtime"
  dep_Singpass :: SingpassConfig
  dep_Jose :: "('e, 'k, 's) Jose"
  dep_Keys :: "('k, 's) singpassProxyImpl"
  dep_SingpassJson :: SingpassJson
  dep_ClerkJson :: ClerkJson
  dep_Verifier :: Verifier
  dep_MappingJson :: "UserAuthMapping Codec"
  dep_RegisteredJson :: "UserRegisteredEvent Codec"
  dep_KYCJson :: "UserKYCCompleteEvent Codec"
  dep_oor :: "rat \<Rightarrow> int"
  dep_orbit :: "nat \<Rightarrow> nat \<Rightarrow> bool"
  dep_redirect :: "string option"
  dep_bind :: "Request \<Rightarrow> go_error + UpdateUserProfileRequest"
  dep_unmarshal :: "string \<Rightarrow> go_error + ClerkCallbackRequest"
  dep_Svix :: "'e Svix"
  dep_clientIP :: "Payload Gin \<Rightarrow> string"
  dep_fullPath :: "Payload Gin \<Rightarrow> string"
  dep_stack :: "string \<Rightarrow> string"
  dep_otel :: "(memoryKYCStateStore \<times> 'e, Payload) handler \<Rightarrow> (memoryKYCStateStore \<times> 'e, Payload) handler"
  dep_cors :: "(memoryKYCStateStore \<times> 'e, Payload) handler \<Rightarrow> (memoryKYCStateStore \<times> 'e, Payload) handler"
  dep_swagger :: "Payload Gin \<Rightarrow> ('e, Payload Gin) act"
  dep_noRoute :: "Payload Gin \<Rightarrow> ('e, Payload Gin) act"
  dep_struck :: "Payload Gin \<Rightarrow> string \<Rightarrow> memoryKYCStateStore \<times> 'e \<Rightarrow> Payload Gin"

definition lift_svix :: "'e Svix \<Rightarrow> ('m \<times> 'e) Svix" where
  "lift_svix X = \<lparr>svix_NewWebhook = svix_NewWebhook X, svix_Verify = (\<lambda>s p h. onSnd (svix_Verify X s p h))\<rparr>"

definition wired :: "('e, 'k, 's) Deployment \<Rightarrow> (memoryKYCStateStore \<times> 'e) App" where
  "wired d = (let R = dep_Runtime d; users = UserDaoImpl (Some (dep_DB d));
       mappings = UserAuthMappingDaoImpl (Some (dep_DB d)) (dep_Redis d) (dep_MappingJson d);
       publish = kafkaProducerImpl_Publish R (dep_Kafka d);
       proxy = singpassProxy (dep_Singpass d) R (dep_Http d) (dep_Jose d) (dep_SingpassJson d) (dep_Keys d) in
     \<lparr>app_Runtime = lift_runtime R,
      app_GetUser = (\<lambda>c i. onSnd (svc_GetUser users c i)),
      app_GetProfile = (\<lambda>c i email. onSnd (svc_GetProfile users c i email)),
      app_UpdateProfile = (\<lambda>c i req. onSnd (svc_UpdateProfile users (dep_Redis d) c i req)),
      app_StartSingpassLogin = GetKYCService_Start (dep_Singpass d) R,
      app_SingpassCallback =
        GetKYCService_Callback proxy (Some (dep_DB d)) (dep_Redis d) R (dep_KYCJson d) publish (dep_orbit d),
      app_CreateUser = (\<lambda>c data. onSnd (GetUserMappingService_CreateUser (dep_DB d) (dep_Redis d) (dep_MappingJson d) R
        (dep_RegisteredJson d) publish c data)),
      app_Authenticate = (\<lambda>c token. onSnd (NewAuthenticator_Authenticate (dep_oor d) (dep_Verifier d) (dep_Http d) R
        (dep_ClerkJson d) mappings c token)),
      app_redirect = dep_redirect d, app_orbit = dep_orbit d, app_bind = dep_bind d, app_unmarshal = dep_unmarshal d,
      app_svix = lift_svix (dep_Svix d), app_clientIP = dep_clientIP d, app_fullPath = dep_fullPath d, app_stack = dep_stack d,
      app_otel = dep_otel d, app_cors = dep_cors d, app_swagger = (\<lambda>c. onSnd (dep_swagger d c)),
      app_noRoute = (\<lambda>c. onSnd (dep_noRoute d c)), app_struck = dep_struck d\<rparr>)"

lemma wired_simps [simp]:
  "app_Runtime (wired d) = lift_runtime (dep_Runtime d)"
  "app_GetUser (wired d) = (\<lambda>c i. onSnd (svc_GetUser (UserDaoImpl (Some (dep_DB d))) c i))"
  "app_GetProfile (wired d) = (\<lambda>c i email. onSnd (svc_GetProfile (UserDaoImpl (Some (dep_DB d))) c i email))"
  "app_UpdateProfile (wired d) = (\<lambda>c i req. onSnd (svc_UpdateProfile (UserDaoImpl (Some (dep_DB d))) (dep_Redis d) c i req))"
  "app_StartSingpassLogin (wired d) = GetKYCService_Start (dep_Singpass d) (dep_Runtime d)"
  "app_SingpassCallback (wired d) = GetKYCService_Callback (singpassProxy (dep_Singpass d) (dep_Runtime d) (dep_Http d) (dep_Jose d) (dep_SingpassJson d) (dep_Keys d)) (Some (dep_DB d)) (dep_Redis d) (dep_Runtime d) (dep_KYCJson d) (kafkaProducerImpl_Publish (dep_Runtime d) (dep_Kafka d)) (dep_orbit d)"
  "app_CreateUser (wired d) = (\<lambda>c data. onSnd (GetUserMappingService_CreateUser (dep_DB d) (dep_Redis d) (dep_MappingJson d) (dep_Runtime d) (dep_RegisteredJson d) (kafkaProducerImpl_Publish (dep_Runtime d) (dep_Kafka d)) c data))"
  "app_Authenticate (wired d) = (\<lambda>c token. onSnd (NewAuthenticator_Authenticate (dep_oor d) (dep_Verifier d) (dep_Http d) (dep_Runtime d) (dep_ClerkJson d) (UserAuthMappingDaoImpl (Some (dep_DB d)) (dep_Redis d) (dep_MappingJson d)) c token))"
  "app_redirect (wired d) = dep_redirect d"
  "app_orbit (wired d) = dep_orbit d"
  "app_bind (wired d) = dep_bind d"
  "app_unmarshal (wired d) = dep_unmarshal d"
  "app_svix (wired d) = lift_svix (dep_Svix d)"
  "app_clientIP (wired d) = dep_clientIP d"
  "app_fullPath (wired d) = dep_fullPath d"
  "app_stack (wired d) = dep_stack d"
  "app_otel (wired d) = dep_otel d"
  "app_cors (wired d) = dep_cors d"
  "app_swagger (wired d) = (\<lambda>c. onSnd (dep_swagger d c))"
  "app_noRoute (wired d) = (\<lambda>c. onSnd (dep_noRoute d c))"
  "app_struck (wired d) = dep_struck d"
  by (simp_all add: wired_def Let_def)

text \<open>\<open>deployed\<close>: what is outside behaves as documented.\<close>

definition deployed ::
    "('e \<Rightarrow> Stores) \<Rightarrow> (string \<Rightarrow> string \<Rightarrow> bool) \<Rightarrow> ('e, 'k, 's) Deployment \<Rightarrow> 'e \<Rightarrow> bool" where
  "deployed S coll d w \<longleftrightarrow>
     kyc_world S coll (Some (dep_DB d)) (dep_Redis d) (dep_Runtime d) (dep_Kafka d) (dep_KYCJson d) (dep_Http d)
       (dep_Jose d) (dep_SingpassJson d)
     \<and> registration_world S coll (dep_DB d) (dep_Redis d) (dep_MappingJson d) (dep_Runtime d) (dep_RegisteredJson d)
       (dep_Kafka d) w
     \<and> (\<forall>s p h. keeps S (svix_Verify (dep_Svix d) s p h))
     \<and> (\<forall>c. keeps S (dep_swagger d c)) \<and> (\<forall>c. keeps S (dep_noRoute d c))"

lemma deployedD:
  assumes "deployed S coll d w"
  shows "kyc_world S coll (Some (dep_DB d)) (dep_Redis d) (dep_Runtime d) (dep_Kafka d) (dep_KYCJson d) (dep_Http d)
       (dep_Jose d) (dep_SingpassJson d)"
    and "registration_world S coll (dep_DB d) (dep_Redis d) (dep_MappingJson d) (dep_Runtime d) (dep_RegisteredJson d)
       (dep_Kafka d) w"
    and "keeps S (svix_Verify (dep_Svix d) s p h)"
    and "keeps S (dep_swagger d c)" and "keeps S (dep_noRoute d c)"
    and "runtime_ok S (dep_Runtime d)" and "db_ok S coll (Some (dep_DB d))" and "cache_client_ok S (dep_Redis d)"
    and "mapping_world_ok S coll (Some (dep_DB d)) (dep_Redis d) (dep_MappingJson d) w" and "http_ok S (dep_Http d)"
  using assms by (auto simp: deployed_def kyc_world_def registration_world_def)

lemma deployed_mappings:
  "deployed S coll d w \<Longrightarrow> mapping_world_ok S coll (Some (dep_DB d)) (dep_Redis d) (dep_MappingJson d) w1 \<Longrightarrow> deployed S coll d w1"
  by (simp add: deployed_def registration_world_def)

lemma deployed_kept:
  assumes "deployed S coll d w" and "mappings_kept (S w) (S w1)"
  shows "deployed S coll d w1"
  by (rule deployed_mappings [OF assms(1)], rule mappings_impl.ok_frame [OF deployedD(9) [OF assms(1)] assms(2)])

lemma deployed_frame: "deployed S coll d w \<Longrightarrow> S w1 = S w \<Longrightarrow> deployed S coll d w1"
  by (rule deployed_kept) auto

subsection \<open>What each handler may do to the table of users\<close>

lemma onSnd_tryA: "onSnd (tryA m f g) = tryA (onSnd m) (\<lambda>a. onSnd (f a)) (\<lambda>e. onSnd (g e))"
  by (auto simp: fun_eq_iff onSnd_def tryA_def split: prod.splits res.splits)

lemma onSnd_bindA: "onSnd (bindA m f) = bindA (onSnd m) (\<lambda>a. onSnd (f a))"
  by (auto simp: fun_eq_iff onSnd_def bindA_def split: prod.splits res.splits)

lemma onSnd_ret: "onSnd (ret a) = ret a"
  by (auto simp: fun_eq_iff onSnd_def ret_def)

lemma requestID_lift: "requestIDFromHeader (lift_runtime R) h = onSnd (requestIDFromHeader R h)"
  by (simp add: requestIDFromHeader_def Let_def onSnd_tryA onSnd_bindA onSnd_ret now_lift)
    (simp add: lift_runtime_def)

text \<open>\<open>ends m w P\<close>: whatever the outcome, the call leaves a world with \<open>P\<close>.\<close>

definition ends :: "('w, 'a) act \<Rightarrow> 'w \<Rightarrow> ('w \<Rightarrow> bool) \<Rightarrow> bool" where
  "ends m w P \<longleftrightarrow> P (snd (m w))"

lemma ends_mono: "runs m w P Q \<Longrightarrow> (\<And>a w'. P a w' \<Longrightarrow> T w') \<Longrightarrow> (\<And>e w'. Q e w' \<Longrightarrow> T w') \<Longrightarrow> ends m w T"
  by (auto simp: ends_def runs_def split: prod.splits res.splits)

lemma ends_ret [simp]: "ends (ret a) w P = P w"
  by (simp add: ends_def ret_def)

lemma ends_bindA:
  assumes "runs m w P Q" and "\<And>a w'. P a w' \<Longrightarrow> ends (f a) w' T" and "\<And>e w'. Q e w' \<Longrightarrow> T w'"
  shows "ends (bindA m f) w T"
  by (cases rule: runsE [OF assms(1)]) (use assms(2,3) in \<open>auto simp: ends_def bindA_def\<close>)

lemma ends_tryA:
  assumes "ends m w P" and "\<And>a w'. P w' \<Longrightarrow> ends (f a) w' P" and "\<And>e w'. P w' \<Longrightarrow> ends (g e) w' P"
  shows "ends (tryA m f g) w P"
  using assms by (auto simp: ends_def tryA_def split: prod.splits res.splits)

lemma ends_onSnd: "ends m w P \<Longrightarrow> ends (onSnd m) (st, w) (\<lambda>sw. P (snd sw))"
  by (auto simp: ends_def onSnd_def split: prod.splits)

lemma ends_weaken: "ends m w P \<Longrightarrow> (\<And>w'. P w' \<Longrightarrow> T w') \<Longrightarrow> ends m w T"
  by (simp add: ends_def)

lemma ends_keeps: "keeps S m \<Longrightarrow> ends m w (\<lambda>w'. S w' = S w)"
  by (simp add: ends_def keeps_def)

lemma ends_then: "ends m w P \<Longrightarrow> (\<And>a w'. P w' \<Longrightarrow> ends (f a) w' P) \<Longrightarrow> ends (bindA m f) w P"
  by (auto simp: ends_def bindA_def split: prod.splits res.splits)

lemma ends_quiet: "quiet V m \<Longrightarrow> (\<And>a w'. V w' = V w \<Longrightarrow> ends (f a) w' P) \<Longrightarrow> ends (bindA m f) w P"
  by (rule ends_bindA [OF quietD]) auto

text \<open>
  The access log over the pair of process and surroundings: beside the logger in the context
  it only reads the clock, draws a request id and writes a line, all of it outside the process.
\<close>

lemma ends_logged:
  assumes R: "runtime_ok S R" and line: "\<And>t. quiet (\<lambda>sw. (fst sw, S (snd sw))) (line t)"
    and closed: "\<And>ks1 w1 w2. P (ks1, w1) \<Longrightarrow> S w2 = S w1 \<Longrightarrow> P (ks1, w2)" and "P sw1"
  shows "ends (bindA (now (lift_runtime R)) (\<lambda>t. seqA (line t) (ret a))) sw1 P"
proof (rule ends_quiet [OF quiet_now [OF runtime_ok_pair [OF R]]], rule ends_quiet [OF line])
  fix t u sw2 sw3
  assume "(fst sw2, S (snd sw2)) = (fst sw1, S (snd sw1))" "(fst sw3, S (snd sw3)) = (fst sw2, S (snd sw2))"
  then show "ends (ret a) sw3 P"
    using closed [of "fst sw1" "snd sw1" "snd sw3"] assms(4) by (cases sw1; cases sw3) auto
qed

lemma observed_ends:
  assumes R: "runtime_ok S R"
    and handler: "\<And>l w1. S w1 = S w \<Longrightarrow> ends (next (set_ctx (WithLogger (req_ctx c) l) c)) (ks, w1) P"
    and closed: "\<And>ks1 w1 w2. P (ks1, w1) \<Longrightarrow> S w2 = S w1 \<Longrightarrow> P (ks1, w2)"
  shows "ends (HTTPObservabilityMiddleware (lift_runtime R) fp next c) (ks, w) P"
  unfolding HTTPObservabilityMiddleware_def Let_def
  by (rule ends_quiet [OF quiet_now [OF runtime_ok_pair [OF R]]], rule ends_quiet [OF quiet_requestID [OF runtime_ok_pair [OF R]]],
    rule ends_then [OF _ ends_logged [where S = S and P = P, OF R _ closed]])
    (use handler in \<open>auto intro: quiet_access_line [OF runtime_ok_pair [OF R]]\<close>)

lemma audited_ends:
  assumes R: "runtime_ok S R" and handler: "\<And>w1. S w1 = S w \<Longrightarrow> ends (next c) (ks, w1) P"
    and closed: "\<And>ks1 w1 w2. P (ks1, w1) \<Longrightarrow> S w2 = S w1 \<Longrightarrow> P (ks1, w2)"
  shows "ends (AuditMiddleware (lift_runtime R) ip (Some (audit_logger (lift_runtime R))) next c) (ks, w) P"
  unfolding AuditMiddleware_def audit_logger_def option.case
  by (rule ends_quiet [OF quiet_now [OF runtime_ok_pair [OF R]]],
    rule ends_then [OF _ ends_logged [where S = S and P = P, OF R _ closed]])
    (use handler in \<open>auto intro: quiet_lines(2) [OF runtime_ok_pair [OF R]]\<close>)

lemma observed_pair_runs:
  fixes ks :: 'm and w :: 'e
  assumes R: "runtime_ok S R"
    and handler: "\<And>l w1. S w1 = S w \<Longrightarrow> runs (next (set_ctx (WithLogger (req_ctx c) l) c)) (ks, w1) P Q"
    and closed: "\<And>c' ks1 w1 w2. P c' (ks1, w1) \<Longrightarrow> S w2 = S w1 \<Longrightarrow> P c' (ks1, w2)"
  shows "runs (HTTPObservabilityMiddleware (lift_runtime R) fp next c) (ks, w) P Q"
proof (rule observed_runs [OF runtime_ok_pair [OF R]])
  fix l and sw1 :: "'m \<times> 'e" assume "(fst sw1, S (snd sw1)) = (fst (ks, w), S (snd (ks, w)))"
  then show "runs (next (set_ctx (WithLogger (req_ctx c) l) c)) sw1 P Q" using handler by (cases sw1) auto
next
  fix c' and sw1 sw2 :: "'m \<times> 'e" assume "P c' sw1" "(fst sw2, S (snd sw2)) = (fst sw1, S (snd sw1))"
  then show "P c' sw2" using closed [of c' "fst sw1" "snd sw1" "snd sw2"] by (cases sw1; cases sw2) auto
qed

lemma profile_reads_end:
  assumes "db_ok S coll (Some G)"
  shows "ends (UserGetProfile (\<lambda>c i email. onSnd (svc_GetProfile (UserDaoImpl (Some G)) c i email)) c) (st, w)
      (\<lambda>sw'. S (snd sw') = S w)"
    and "ends (AdminGetCurrentUser (\<lambda>c i. onSnd (svc_GetUser (UserDaoImpl (Some G)) c i)) c) (st, w)
      (\<lambda>sw'. S (snd sw') = S w)"
proof -
  have get: "ends (svc_GetUser (UserDaoImpl (Some G)) x i) w (\<lambda>w'. S w' = S w)" for x i
    by (rule ends_mono [OF profiles_impl.GetUser_runs [OF assms]]) auto
  have read: "ends (svc_GetProfile (UserDaoImpl (Some G)) x i email) w (\<lambda>w'. S w' = S w)" for x i email
    by (rule ends_mono [OF profiles_impl.GetProfile_runs [OF assms]]) auto
  show "ends (UserGetProfile (\<lambda>c i email. onSnd (svc_GetProfile (UserDaoImpl (Some G)) c i email)) c) (st, w)
      (\<lambda>sw'. S (snd sw') = S w)"
    by (auto simp: UserGetProfile_def split: option.splits intro!: ends_tryA ends_onSnd [OF read])
  show "ends (AdminGetCurrentUser (\<lambda>c i. onSnd (svc_GetUser (UserDaoImpl (Some G)) c i)) c) (st, w)
      (\<lambda>sw'. S (snd sw') = S w)"
    by (auto simp: AdminGetCurrentUser_def split: option.splits intro!: ends_tryA ends_onSnd [OF get])
qed

text \<open>
  Only the row of the caller, and of it only name, language and market; the market is chosen
  once, and both are among the supported ones.
\<close>

definition profile_change :: "User \<Rightarrow> User \<Rightarrow> bool" where
  "profile_change u v \<longleftrightarrow> v = u\<lparr>User_Name := User_Name v, User_Language := User_Language v, User_Market := User_Market v\<rparr>
     \<and> (User_Market v = User_Market u \<or> TrimSpace (User_Market u) = [] \<and> IsValidMarket (User_Market v))
     \<and> (User_Language v = User_Language u \<or> IsValidLanguage (User_Language v))"

definition row_only :: "int \<Rightarrow> (User \<Rightarrow> User \<Rightarrow> bool) \<Rightarrow> Stores \<Rightarrow> Stores \<Rightarrow> bool" where
  "row_only i C st st' \<longleftrightarrow> mappings_kept st st' \<and> (st_users st' = st_users st
     \<or> (\<exists>u v. st_users st i = Some u \<and> C u v \<and> st_users st' = (st_users st)(i \<mapsto> v)))"

lemma row_only_same [simp]: "row_only i C st st"
  by (auto simp: row_only_def)

lemma requested_change:
  assumes "request_error u rq = None"
  shows "profile_change u (merge_User (requested u rq) u)"
  using request_error_None [OF assms] by (simp add: profile_change_def merge_User_def nonzero_def requested_def)

lemma row_only_update:
  assumes "st_users st i = Some u" and "request_error u rq = None" and "shrinks (update_user i (requested u rq) st) st'"
  shows "row_only i profile_change st st'"
  unfolding row_only_def
  using assms(1) requested_change [OF assms(2)] shrinksD(1) [OF assms(3)] updated_row(1) [OF assms(1)]
    mappings_kept_trans [OF mappings_kept_updates(1) mappings_kept_shrinks [OF assms(3)]]
  by metis

lemma UpdateProfile_ends:
  assumes "db_ok S coll (Some G)" and "cache_client_ok S C"
  shows "ends (svc_UpdateProfile (UserDaoImpl (Some G)) C x i req) w (\<lambda>w'. row_only i profile_change (S w) (S w'))"
  by (rule ends_mono [OF profiles_impl.UpdateProfile_runs [OF assms]]) (auto intro: row_only_update)

lemma UserUpdateProfile_ends:
  assumes "db_ok S coll (Some G)" and "cache_client_ok S C" and "GetUser (req_ctx c) = Some u"
  shows "ends (UserUpdateProfile bind (\<lambda>c i req. onSnd (svc_UpdateProfile (UserDaoImpl (Some G)) C c i req)) c) (st, w)
      (\<lambda>sw'. row_only (AuthUser_InternalUserID u) profile_change (S w) (S (snd sw')))"
proof -
  show ?thesis
    using assms(3) by (auto simp: UserUpdateProfile_def split: sum.splits
        intro!: ends_tryA ends_onSnd [OF UpdateProfile_ends [OF assms(1,2)]])
qed

text \<open>Singpass: only the KYC status, only of the user the state is bound to.\<close>

definition status_change :: "User \<Rightarrow> User \<Rightarrow> bool" where
  "status_change u v \<longleftrightarrow> v = u\<lparr>User_KYCStatus := User_KYCStatus v\<rparr> \<and> User_KYCStatus v \<in> {KYCStatusPassed, KYCStatusFailed}"

lemma kyc_set_verdict:
  assumes "kyc_set i s st st'" and "s \<in> {KYCStatusPassed, KYCStatusFailed}"
  shows "row_only i status_change st st'"
proof -
  have kept: "mappings_kept st st'" using assms by (auto simp: kyc_set_def)
  with assms show ?thesis
    unfolding row_only_def status_change_def kyc_set_def set_kyc_status_def
    by (cases "st_users st i") (auto intro!: exI [of _ "the (st_users st i)\<lparr>User_KYCStatus := s\<rparr>"])
qed

lemma kyc_set_row: "kyc_set i (kycStatusFor ui) st st' \<Longrightarrow> row_only i status_change st st'"
  by (erule kyc_set_verdict) (simp add: kycStatusFor_def split: option.splits)

definition bound_row :: "memoryKYCStateStore \<Rightarrow> string \<Rightarrow> Stores \<Rightarrow> Stores \<Rightarrow> bool" where
  "bound_row ks state st st' \<longleftrightarrow> st' = st
     \<or> (\<exists>q. items ks state = Some q \<and> row_only (Pending_InternalUserID q) status_change st st')"

lemma Callback_ends:
  assumes "kyc_world S coll db C R K JK H X D"
  shows "ends (GetKYCService_Callback (singpassProxy cfg R H X D p) db C R JK (kafkaProducerImpl_Publish R K) orbit x code state)
      (ks, w) (\<lambda>sw'. bound_row ks state (S w) (S (snd sw')))"
  unfolding GetKYCService_Callback_def
  by (rule ends_mono [OF kyc_impl.SingpassCallback_runs [OF kyc_worldD [OF assms]]])
    (auto simp: bound_row_def dest: kyc_set_row)

lemma SingpassCallback_ends:
  assumes "kyc_world S coll db C R K JK H X D"
  shows "ends (api_SingpassCallback redirect
      (GetKYCService_Callback (singpassProxy cfg R H X D p) db C R JK (kafkaProducerImpl_Publish R K) orbit) c)
      (ks, w) (\<lambda>sw'. bound_row ks (Query c ''state'') (S w) (S (snd sw')))"
proof -
  have same: "bound_row ks state (S w) (S w)" for state by (simp add: bound_row_def)
  show ?thesis
    by (auto simp: api_SingpassCallback_def Let_def same intro!: ends_tryA Callback_ends [OF assms])
qed

lemma SingpassLogin_ends:
  fixes S :: "'e \<Rightarrow> Stores"
  assumes "runtime_ok S R"
  shows "ends (SingpassLogin (GetKYCService_Start cfg R) c) (ks, w) (\<lambda>sw'. S (snd sw') = S w)"
proof -
  have start: "ends (GetKYCService_Start cfg R x i email) (ks, w) (\<lambda>sw'. S (snd sw') = S w)" for x i email
    by (rule ends_mono [OF GetKYCService_Start_runs [OF assms]]) auto
  show ?thesis by (auto simp: SingpassLogin_def split: option.splits intro!: ends_tryA start)
qed

text \<open>Clerk: at most one new row, and only for a payload Svix has verified.\<close>

definition verified :: "'w Runtime \<Rightarrow> 'w Svix \<Rightarrow> 'p Gin \<Rightarrow> bool" where
  "verified R X c \<longleftrightarrow> (\<exists>payload w1 w2. In_Body (g_Request c) = (payload, None)
     \<and> svix_Verify X (os_Getenv R ''CLERK_WEBHOOK_SECRET'') payload (In_Header (g_Request c)) w1 = (Ok (), w2))"

lemma verified_set_ctx [simp]: "verified R X (set_ctx x c) = verified R X c"
  by (simp add: verified_def)

definition new_row :: "(string \<Rightarrow> string \<Rightarrow> bool) \<Rightarrow> Stores \<Rightarrow> Stores \<Rightarrow> bool" where
  "new_row coll st st' \<longleftrightarrow> same_tables st st'
     \<or> (\<exists>clerk email i. email \<noteq> [] \<and> \<not> known coll clerk email st \<and> added clerk email i st st')"

lemma same_tables_refl [simp]: "same_tables st st"
  by (simp add: same_tables_def)

lemma CreateUser_ends:
  assumes "registration_world S coll G C JM R JR K w"
  shows "ends (GetUserMappingService_CreateUser G C JM R JR (kafkaProducerImpl_Publish R K) x data) w
    (\<lambda>w'. new_row coll (S w) (S w') \<and> registration_world S coll G C JM R JR K w')"
  unfolding ends_def new_row_def using create_user_tables [OF assms refl, of x data] create_user_world [OF assms] by blast

lemma ClerkCallback_ends:
  assumes "keeps S (svix_Verify X (os_Getenv R ''CLERK_WEBHOOK_SECRET'') (fst (In_Body (g_Request c))) (In_Header (g_Request c)))"
    and create: "\<And>x data w1. S w1 = S w \<Longrightarrow> ends (create x data) w1 T"
  shows "ends (ClerkCallback (lift_runtime R) (lift_svix X) unmarshal (\<lambda>x data. onSnd (create x data)) c) (ks, w)
      (\<lambda>sw'. S (snd sw') = S w \<or> verified R X c \<and> T (snd sw'))"
    (is "ends _ _ ?P")
proof -
  let ?verify = "\<lambda>payload. svix_Verify X (os_Getenv R ''CLERK_WEBHOOK_SECRET'') payload (In_Header (g_Request c))"
  have env: "os_Getenv (lift_runtime R) = os_Getenv R" by (simp add: lift_runtime_def)
  have after: "ends (tryA (onSnd (create x data)) (\<lambda>_. ret a) (\<lambda>_. ret b)) (ks, w1) ?P"
    if "S w1 = S w" "verified R X c" for x data w1 a b
    by (rule ends_tryA [OF ends_weaken [OF ends_onSnd [OF create [OF that(1)]]]]) (use that(2) in auto)
  have check: "ends (tryA (onSnd (?verify payload)) f g) (ks, w) ?P"
    if body: "In_Body (g_Request c) = (payload, None)"
      and f: "\<And>w1. S w1 = S w \<Longrightarrow> verified R X c \<Longrightarrow> ends (f ()) (ks, w1) ?P"
      and g: "\<And>e w1. S w1 = S w \<Longrightarrow> ends (g e) (ks, w1) ?P" for payload f g
  proof (cases "?verify payload w")
    case (Pair rv w1)
    have S1: "S w1 = S w" using keepsD [OF assms(1)] Pair body by simp
    show ?thesis
    proof (cases rv)
      case (Ok u)
      then have "verified R X c" using Pair body by (auto simp: verified_def)
      then show ?thesis using f [OF S1] Pair Ok by (simp add: ends_def tryA_def onSnd_def)
    qed (use g [OF S1] Pair S1 in \<open>auto simp: ends_def tryA_def onSnd_def\<close>)
  qed
  show ?thesis
    unfolding ClerkCallback_def Let_def env
    by (auto simp: ReadAll_capped_def lift_svix_def split: prod.splits option.splits sum.splits if_splits intro!: check after)
qed

text \<open>Forward authentication: nothing but the cache of mappings.\<close>

lemma AuthForward_ends:
  assumes "http_ok S H" and "runtime_ok S R" and "mapping_world_ok S coll db C JM w"
  shows "ends (AuthForward (\<lambda>x token. onSnd (NewAuthenticator_Authenticate oor V H R D (UserAuthMappingDaoImpl db C JM) x token)) c)
      (ks, w) (\<lambda>sw'. same_tables (S w) (S (snd sw')) \<and> mapping_world_ok S coll db C JM (snd sw'))"
proof -
  have "ends (NewAuthenticator_Authenticate oor V H R D (UserAuthMappingDaoImpl db C JM) x token) w
      (\<lambda>w'. same_tables (S w) (S w') \<and> mapping_world_ok S coll db C JM w')" for x token
    by (rule ends_mono [OF mappings_impl.NewAuthenticator_runs [OF assms]]) (auto simp: same_tables_def dest: only_cacheD)
  then show ?thesis using assms(3) by (auto simp: AuthForward_def split: option.splits intro!: ends_tryA ends_onSnd)
qed

subsection \<open>Dispatching\<close>

abbreviation route :: "'p Gin \<Rightarrow> string \<times> string" where
  "route c \<equiv> (In_Method (g_Request c), In_Path (g_Request c))"

lemma dispatch_cases:
  obtains (ping) "dispatch A c = ping c"
  | (webhook) "route c = (''POST'', serviceURIPrefix @ ''/clerk/callback'')"
      "dispatch A c = public A (ClerkCallback (app_Runtime A) (app_svix A) (app_unmarshal A) (app_CreateUser A)) c"
  | (callback) "route c = (''GET'', serviceURIPrefix @ ''/kyc/singpass/callback'')"
      "dispatch A c = public A (api_SingpassCallback (app_redirect A) (app_SingpassCallback A)) c"
  | (profile) "dispatch A c = web A (UserGetProfile (app_GetProfile A)) c"
  | (update) "route c = (''PUT'', serviceURIPrefix @ ''/web/user-profile'')"
      "dispatch A c = web A (UserUpdateProfile (app_bind A) (app_UpdateProfile A)) c"
  | (login) "dispatch A c = web A (SingpassLogin (app_StartSingpassLogin A)) c"
  | (current) "dispatch A c = admin A (AdminGetCurrentUser (app_GetUser A)) c"
  | (swagger) "dispatch A c = app_swagger A c"
  | (forward) "dispatch A c = HTTPObservabilityMiddleware (app_Runtime A) (app_fullPath A)
      (RequireInternalNetwork (app_orbit A) (app_Runtime A) (AuthForward (app_Authenticate A))) c"
  | (none) "dispatch A c = app_noRoute A c"
proof (cases "map_of (routes A) (route c)")
  case None
  have "dispatch A c = app_swagger A c \<or> dispatch A c = HTTPObservabilityMiddleware (app_Runtime A) (app_fullPath A)
      (RequireInternalNetwork (app_orbit A) (app_Runtime A) (AuthForward (app_Authenticate A))) c
    \<or> dispatch A c = app_noRoute A c"
    unfolding dispatch_def Let_def None option.case by (metis (full_types))
  then show thesis using swagger forward none by blast
next
  case (Some h)
  have "(route c, h) \<in> set (routes A)" using Some by (rule map_of_SomeD)
  moreover have eq: "dispatch A c = h c" using Some by (rule dispatch_route)
  ultimately show thesis
    unfolding routes_def
    by (simp only: list.map set_simps insert_iff empty_iff prod.case prod.inject simp_thms, elim disjE conjE)
      (simp_all only: ping webhook callback profile update login current)
qed

lemma RequireUser_ends:
  assumes "P w"
    and "\<And>u. userFromHeaders c = Some u \<Longrightarrow> AuthUser_Role u = RoleUser \<Longrightarrow> ends (h (set_ctx (WithUser (req_ctx c) (Some u)) c)) w P"
  shows "ends (RequireUser h c) w P"
proof -
  have "TrimSpace RoleUser = RoleUser" "RoleUser \<noteq> []" by code_simp+
  then show ?thesis
    using assms by (auto simp: ends_def RequireUser_def RequireRole_cases split: option.splits)
qed

lemma wired_web:
  assumes "deployed S coll d w" and P: "\<And>w1. S w1 = S w \<Longrightarrow> P (ks, w1)"
    and h: "\<And>x u w1. S w1 = S w \<Longrightarrow> userFromHeaders c = Some u \<Longrightarrow> AuthUser_Role u = RoleUser
      \<Longrightarrow> ends (h (set_ctx (WithUser x (Some u)) c)) (ks, w1) P"
    and closed: "\<And>ks1 w1 w2. P (ks1, w1) \<Longrightarrow> S w2 = S w1 \<Longrightarrow> P (ks1, w2)"
  shows "ends (web (wired d) h c) (ks, w) P"
  unfolding web_def wired_simps
proof (rule observed_ends [OF deployedD(6) [OF assms(1)]])
  fix l w1 assume "S w1 = S w"
  then show "ends (RequireUser h (set_ctx (WithLogger (req_ctx c) l) c)) (ks, w1) P"
    by (intro RequireUser_ends) (simp_all add: P h)
qed (rule closed)

lemma RequireRole_ends:
  assumes "P w" and "\<And>u. ends (h (set_ctx (WithUser (req_ctx c) (Some u)) c)) w P"
  shows "ends (RequireRole roles h c) w P"
  using assms by (auto simp: ends_def RequireRole_cases split: option.splits)

lemma wired_admin:
  assumes "deployed S coll d w"
    and h: "\<And>x u w1. S w1 = S w \<Longrightarrow> ends (h (set_ctx (WithUser x (Some u)) c)) (ks, w1) (\<lambda>sw. S (snd sw) = S w)"
  shows "ends (admin (wired d) h c) (ks, w) (\<lambda>sw. S (snd sw) = S w)"
proof -
  have inner: "ends (RequireRole [] h (set_ctx (WithLogger (req_ctx c) l) c)) (ks, w1) (\<lambda>sw. S (snd sw) = S w)"
    if "S w1 = S w" for w1 l
    by (rule RequireRole_ends) (use that h in auto)
  show ?thesis
    unfolding admin_def wired_simps
    by (rule observed_ends [OF deployedD(6) [OF assms(1)]], rule audited_ends [OF deployedD(6) [OF assms(1)]]) (auto intro: inner)
qed

text \<open>
  The changes to the table of users that a request may cause, by its route.
\<close>

definition authorized ::
    "(string \<Rightarrow> string \<Rightarrow> bool) \<Rightarrow> ('e, 'k, 's) Deployment \<Rightarrow> Payload Gin \<Rightarrow> memoryKYCStateStore \<Rightarrow> Stores \<Rightarrow> Stores \<Rightarrow> bool" where
  "authorized coll d c ks st st' \<longleftrightarrow> same_tables st st'
     \<or> route c = (''PUT'', serviceURIPrefix @ ''/web/user-profile'')
       \<and> (\<exists>u. userFromHeaders c = Some u \<and> AuthUser_Role u = RoleUser \<and> row_only (AuthUser_InternalUserID u) profile_change st st')
     \<or> route c = (''GET'', serviceURIPrefix @ ''/kyc/singpass/callback'') \<and> bound_row ks (Query c ''state'') st st'
     \<or> route c = (''POST'', serviceURIPrefix @ ''/clerk/callback'') \<and> verified (dep_Runtime d) (dep_Svix d) c \<and> new_row coll st st'"

lemma authorized_same [simp]: "same_tables st st' \<Longrightarrow> authorized coll d c ks st st'"
  by (simp add: authorized_def)

text \<open>Beside that a request leaves the outside as documented, the mappings in the cache included.\<close>

lemma dispatch_authorized:
  fixes d :: "('e, 'k, 's) Deployment"
  assumes "deployed S coll d w"
  shows "ends (dispatch (wired d) c) (ks, w) (\<lambda>sw'. authorized coll d c ks (S w) (S (snd sw')) \<and> deployed S coll d (snd sw'))"
    (is "ends _ _ ?P")
proof -
  note D = deployedD [OF assms]
  have same: "deployed S coll d w'" if "S w' = S w" for w'
    by (rule deployed_frame [OF assms that])
  have kept: "deployed S coll d w'" if "mappings_kept (S w) (S w')" for w'
    by (rule deployed_kept [OF assms that])
  have closed: "?P (ks1, w2)" if "?P (ks1, w1)" "S w2 = S w1" for ks1 w1 w2
    using that deployed_frame [of S coll d w1 w2] by simp
  show ?thesis
  proof (cases rule: dispatch_cases [of "wired d" c])
    case ping
    then show ?thesis using assms by (simp add: ping_def)
  next
    case webhook
    show ?thesis
      unfolding webhook(2) public_def wired_simps
    proof (rule observed_ends [OF D(6)], rule ends_weaken [OF ClerkCallback_ends [where S = S, OF D(3)]])
      fix l and w1 w2 :: 'e and x data
      assume "S w1 = S w" "S w2 = S w1"
      then have w2: "S w2 = S w" by simp
      show "ends (GetUserMappingService_CreateUser (dep_DB d) (dep_Redis d) (dep_MappingJson d) (dep_Runtime d)
          (dep_RegisteredJson d) (kafkaProducerImpl_Publish (dep_Runtime d) (dep_Kafka d)) x data) w2
          (\<lambda>w'. new_row coll (S w) (S w') \<and> deployed S coll d w')"
        by (rule ends_weaken [OF CreateUser_ends [OF deployedD(2) [OF deployed_frame [OF assms w2]]]])
          (auto simp: w2 registration_world_def intro: deployed_mappings [OF assms])
    next
      fix l and w1 :: 'e and sw' :: "memoryKYCStateStore \<times> 'e"
      assume "S w1 = S w" "S (snd sw') = S w1 \<or> verified (dep_Runtime d) (dep_Svix d) (set_ctx (WithLogger (req_ctx c) l) c)
        \<and> new_row coll (S w) (S (snd sw')) \<and> deployed S coll d (snd sw')"
      then show "?P sw'" using webhook(1) same by (auto simp: authorized_def)
    qed (rule closed)
  next
    case callback
    show ?thesis
      unfolding callback(2) public_def wired_simps
    proof (rule observed_ends [OF D(6)], rule ends_weaken [OF SingpassCallback_ends [OF D(1)]])
      fix l and w1 :: 'e and sw' :: "memoryKYCStateStore \<times> 'e"
      assume "S w1 = S w" "bound_row ks (Query (set_ctx (WithLogger (req_ctx c) l) c) ''state'') (S w1) (S (snd sw'))"
      then have b: "bound_row ks (Query c ''state'') (S w) (S (snd sw'))" by simp
      then have "mappings_kept (S w) (S (snd sw'))" by (auto simp: bound_row_def row_only_def)
      with b show "?P sw'" using callback(1) kept by (simp add: authorized_def)
    qed (rule closed)
  next
    case profile
    show ?thesis unfolding profile
    proof (rule wired_web [OF assms])
      fix x u w1 assume w1: "S w1 = S w"
      show "ends (UserGetProfile (app_GetProfile (wired d)) (set_ctx (WithUser x (Some u)) c)) (ks, w1) ?P"
        unfolding wired_simps by (rule ends_weaken [OF profile_reads_end(1) [OF D(7)]]) (auto simp: w1 intro: same)
    qed (simp add: same, rule closed)
  next
    case update
    show ?thesis unfolding update(2)
    proof (rule wired_web [OF assms])
      fix x u w1
      assume u: "S w1 = S w" "userFromHeaders c = Some u" "AuthUser_Role u = RoleUser"
      have "GetUser (req_ctx (set_ctx (WithUser x (Some u)) c)) = Some u" by simp
      from UserUpdateProfile_ends [OF D(7,8) this, of "dep_bind d" ks w1]
      show "ends (UserUpdateProfile (app_bind (wired d)) (app_UpdateProfile (wired d)) (set_ctx (WithUser x (Some u)) c)) (ks, w1) ?P"
        unfolding wired_simps by (rule ends_weaken) (use u update(1) kept in \<open>auto simp: authorized_def row_only_def\<close>)
    qed (simp add: same, rule closed)
  next
    case login
    show ?thesis unfolding login
    proof (rule wired_web [OF assms])
      fix x u w1 assume w1: "S w1 = S w"
      show "ends (SingpassLogin (app_StartSingpassLogin (wired d)) (set_ctx (WithUser x (Some u)) c)) (ks, w1) ?P"
        unfolding wired_simps by (rule ends_weaken [OF SingpassLogin_ends [OF D(6)]]) (auto simp: w1 intro: same)
    qed (simp add: same, rule closed)
  next
    case current
    show ?thesis unfolding current
      by (rule ends_weaken [OF wired_admin [OF assms]])
        (auto intro!: same ends_weaken [OF profile_reads_end(2) [OF D(7)]])
  next
    case swagger
    then show ?thesis by (auto intro!: same ends_weaken [OF ends_onSnd [OF ends_keeps [OF D(4)]]])
  next
    case forward
    show ?thesis
      unfolding forward wired_simps
    proof (rule observed_ends [OF D(6)])
      fix l w1 assume w1: "S w1 = S w"
      note D1 = deployedD [OF deployed_frame [OF assms w1]]
      have auth: "ends (AuthForward (\<lambda>x token. onSnd (NewAuthenticator_Authenticate (dep_oor d) (dep_Verifier d) (dep_Http d) (dep_Runtime d)
            (dep_ClerkJson d) (UserAuthMappingDaoImpl (Some (dep_DB d)) (dep_Redis d) (dep_MappingJson d)) x token)) c1) (ks, w1) ?P" for c1
        by (rule ends_weaken [OF AuthForward_ends [OF D1(10,6,9)]]) (auto simp: w1 intro: deployed_mappings [OF assms])
      show "ends (RequireInternalNetwork (dep_orbit d) (lift_runtime (dep_Runtime d))
          (AuthForward (\<lambda>x token. onSnd (NewAuthenticator_Authenticate (dep_oor d) (dep_Verifier d) (dep_Http d) (dep_Runtime d)
            (dep_ClerkJson d) (UserAuthMappingDaoImpl (Some (dep_DB d)) (dep_Redis d) (dep_MappingJson d)) x token))) (set_ctx (WithLogger (req_ctx c) l) c)) (ks, w1) ?P"
        unfolding RequireInternalNetwork_def using same w1 by (auto intro!: auth)
    qed (rule closed)
  next
    case none
    then show ?thesis by (auto intro!: same ends_weaken [OF ends_onSnd [OF ends_keeps [OF D(5)]]])
  qed
qed

lemma row_only_at: "row_only j C st st' \<Longrightarrow> st_users st' i \<noteq> st_users st i
    \<Longrightarrow> j = i \<and> (\<exists>a b. st_users st i = Some a \<and> st_users st' i = Some b \<and> C a b)"
  by (auto simp: row_only_def split: if_splits)

end
