(* ===== verification/ServerLaws.thy ===== *)
theory ServerLaws
  imports Server
begin

section \<open>What requests to the server may do\<close>

text \<open>
  Properties of the whole server, as it dispatches requests over the wired services: requests
  without an identity, the authorization of every change to the table of users, and the
  answers of the Singpass redirect.
\<close>

text \<open>
  Without identity headers nothing happens: apart from the two callbacks and forward
  authentication, which have checks of their own, no request whose headers name no user
  changes a table, the cache or a topic, and on the protected routes it is answered with 401.
\<close>

theorem anonymous_requests_change_nothing:
  assumes "externals_keep S A" and "userFromHeaders c = None"
    and "(In_Method (g_Request c), In_Path (g_Request c)) \<notin> set public_routes" and "In_Path (g_Request c) \<noteq> ''/auth/forward''"
    and "dispatch A c w = (r, w')"
  shows "S w' = S w \<and> ((In_Method (g_Request c), In_Path (g_Request c)) \<in> set protected_routes
    \<longrightarrow> (\<exists>c'. r = Ok c' \<and> g_Status c' = 401))"
proof -
  let ?k = "(In_Method (g_Request c), In_Path (g_Request c))"
  show ?thesis
  proof (cases "?k \<in> set protected_routes")
    case True
    then obtain h where "dispatch A c = web A h c \<or> dispatch A c = admin A h c"
      using protected_handler [of ?k A] dispatch_route by blast
    then have "runs (dispatch A c) w (\<lambda>c' w'. g_Status c' = 401 \<and> S w' = S w) (\<lambda>_ _. False)"
      using protected_anonymous_runs [OF assms(1,2)] by metis
    from status_runs [OF this assms(5)] show ?thesis by blast
  next
    case False
    have "keeps S (dispatch A c)"
    proof (cases "map_of (routes A) ?k")
      case None
      with assms(1,4) show ?thesis by (intro dispatch_none)
    next
      case (Some h)
      then have "h = ping" using other_handler assms(3) False by blast
      with Some have "dispatch A c = ping c" by (simp only: dispatch_route)
      then show ?thesis by (simp only: ping_def keeps_ret)
    qed
    from keepsD [OF this assms(5)] False show ?thesis by blast
  qed
qed

text \<open>
  C2. Who may change what: when a request to the deployed server changes the row of a user,
  it is a PUT of the profile by that very user, of whose row only name, language and market
  change; or a Singpass callback with a pending state that is bound to that user, of whose
  row only the KYC status changes; or a webhook that Svix has verified, and the row is new
  with status PENDING. No other request, and no row of anyone else, is affected.
\<close>

theorem row_changes_are_authorized:
  assumes "deployed S coll d w" and "dispatch (wired d) c (ks, w) = (r, (ks', w'))"
    and "st_users (S w') i \<noteq> st_users (S w) i"
  shows "route c = (''PUT'', serviceURIPrefix @ ''/web/user-profile'')
      \<and> (\<exists>u a b. userFromHeaders c = Some u \<and> AuthUser_Role u = RoleUser \<and> AuthUser_InternalUserID u = i
           \<and> st_users (S w) i = Some a \<and> st_users (S w') i = Some b
           \<and> b = a\<lparr>User_Name := User_Name b, User_Language := User_Language b, User_Market := User_Market b\<rparr>)
    \<or> route c = (''GET'', serviceURIPrefix @ ''/kyc/singpass/callback'')
      \<and> (\<exists>q a b. items ks (Query c ''state'') = Some q \<and> Pending_InternalUserID q = i
           \<and> st_users (S w) i = Some a \<and> st_users (S w') i = Some b \<and> b = a\<lparr>User_KYCStatus := User_KYCStatus b\<rparr>)
    \<or> route c = (''POST'', serviceURIPrefix @ ''/clerk/callback'') \<and> verified (dep_Runtime d) (dep_Svix d) c
      \<and> st_users (S w) i = None \<and> (\<exists>b. st_users (S w') i = Some b \<and> User_ID b = i \<and> User_KYCStatus b = KYCStatusPending)"
proof -
  have "authorized coll d c ks (S w) (S w')"
    using dispatch_authorized [OF assms(1), of c ks] assms(2) by (simp add: ends_def)
  moreover have "st_users (S w') \<noteq> st_users (S w)" using assms(3) by auto
  ultimately consider
      (update) u where "route c = (''PUT'', serviceURIPrefix @ ''/web/user-profile'')" "userFromHeaders c = Some u"
        "AuthUser_Role u = RoleUser" "row_only (AuthUser_InternalUserID u) profile_change (S w) (S w')"
    | (callback) q where "route c = (''GET'', serviceURIPrefix @ ''/kyc/singpass/callback'')" "items ks (Query c ''state'') = Some q"
        "row_only (Pending_InternalUserID q) status_change (S w) (S w')"
    | (webhook) j b where "route c = (''POST'', serviceURIPrefix @ ''/clerk/callback'')" "verified (dep_Runtime d) (dep_Svix d) c"
        "st_users (S w) j = None" "User_ID b = j" "User_KYCStatus b = KYCStatusPending" "st_users (S w') = (st_users (S w))(j \<mapsto> b)"
    unfolding authorized_def bound_row_def new_row_def same_tables_def added_def by metis
  then show ?thesis
  proof cases
    case update
    with row_only_at [OF update(4) assms(3)] show ?thesis unfolding profile_change_def by blast
  next
    case callback
    with row_only_at [OF callback(3) assms(3)] show ?thesis unfolding status_change_def by blast
  next
    case webhook
    then have "j = i" using assms(3) by (auto split: if_splits)
    with webhook show ?thesis by simp
  qed
qed

subsection \<open>The Singpass redirect\<close>

lemma Callback_runs:
  assumes "kyc_world S coll db C R K JK H X D"
  shows "runs (GetKYCService_Callback (singpassProxy cfg R H X D p) db C R JK (kafkaProducerImpl_Publish R K) orbit x code state) (ks, w)
      (\<lambda>_ sw'. items (fst sw') state = None \<and> (\<exists>q ui. items ks state = Some q
        \<and> kyc_set (Pending_InternalUserID q) (kycStatusFor ui) (S w) (S (snd sw'))
        \<and> sent_kyc R JK (Pending_InternalUserID q) (kycStatusFor ui) (S w) (S (snd sw'))))
      (\<lambda>e sw'. items (fst sw') state = None \<and> (S (snd sw') = S w \<and> (e = ErrInvalidOAuthState \<or> e = ErrKYCEmailMismatch) \<or> outside e))"
proof -
  let ?m = "GetKYCService_Callback (singpassProxy cfg R H X D p) db C R JK (kafkaProducerImpl_Publish R K) orbit x code state"
  have spent: "items (fst sw') state = None" if "?m (ks, w) = (r, sw')" for r sw'
    using kyc_impl.SingpassCallback_pend(1) [OF that [unfolded GetKYCService_Callback_def]] by simp
  have "runs ?m (ks, w)
      (\<lambda>_ sw'. \<exists>q ui. items ks state = Some q \<and> kyc_set (Pending_InternalUserID q) (kycStatusFor ui) (S w) (S (snd sw'))
        \<and> sent_kyc R JK (Pending_InternalUserID q) (kycStatusFor ui) (S w) (S (snd sw')))
      (\<lambda>e sw'. S (snd sw') = S w \<and> (e = ErrInvalidOAuthState \<or> e = ErrKYCEmailMismatch) \<or> outside e)"
    unfolding GetKYCService_Callback_def
    by (rule runs_mono [OF kyc_impl.SingpassCallback_runs [OF kyc_worldD [OF assms]]]) (auto dest: kyc_told_sent)
  then show ?thesis using spent by (auto simp: runs_def split: prod.splits res.splits)
qed

lemma callback_error_status:
  "g_Status (callback_error c ErrInvalidOAuthState) = 400"
  "g_Status (callback_error c ErrKYCEmailMismatch) = 403" "outside e \<Longrightarrow> g_Status (callback_error c e) = 500"
  "g_Status (callback_done redirect c) = 200 \<or> g_Status (callback_done redirect c) = 302"
  by (simp_all add: callback_error_def callback_done_def Let_def)

definition truthful ::
    "('e \<Rightarrow> Stores) \<Rightarrow> ('e, 'k, 's) Deployment \<Rightarrow> 'p Gin \<Rightarrow> memoryKYCStateStore \<Rightarrow> 'e
      \<Rightarrow> 'p Gin \<Rightarrow> memoryKYCStateStore \<times> 'e \<Rightarrow> bool" where
  "truthful S d c ks w c' sw' \<longleftrightarrow> g_Status c' \<in> {200, 302, 400, 403, 500}
    \<and> (g_Status c' \<in> {200, 302} \<longrightarrow> Query c ''error'' = [] \<and> (\<exists>q ui. items ks (Query c ''state'') = Some q
         \<and> kyc_set (Pending_InternalUserID q) (kycStatusFor ui) (S w) (S (snd sw'))
         \<and> sent_kyc (dep_Runtime d) (dep_KYCJson d) (Pending_InternalUserID q) (kycStatusFor ui) (S w) (S (snd sw'))))
    \<and> (g_Status c' \<in> {400, 403} \<longrightarrow> S (snd sw') = S w)
    \<and> (Query c ''error'' = [] \<and> Query c ''code'' \<noteq> [] \<and> Query c ''state'' \<noteq> [] \<longrightarrow> items (fst sw') (Query c ''state'') = None)"

lemma SingpassCallback_truthful:
  assumes "deployed S coll d w"
  shows "runs (api_SingpassCallback redirect (app_SingpassCallback (wired d)) c) (ks, w) (truthful S d c ks w) (\<lambda>_ _. False)"
proof -
  let ?m = "app_SingpassCallback (wired d) (req_ctx c) (Query c ''code'') (Query c ''state'')"
  have "runs (tryA ?m (\<lambda>_. ret (callback_done redirect c)) (\<lambda>err. ret (callback_error c err))) (ks, w)
      (truthful S d c ks w) (\<lambda>_ _. False)" if "Query c ''error'' = []"
    unfolding wired_simps
    by (rule runs_tryA [OF Callback_runs [OF deployedD(1) [OF assms]]])
      (use that callback_error_status(4) [of redirect c] in \<open>auto simp: truthful_def callback_error_status(1-3)\<close>)
  then show ?thesis
    by (auto simp: api_SingpassCallback_def Let_def truthful_def)
qed


subsection \<open>A reference deployment\<close>

lemma keeps_snd: "keeps S m \<Longrightarrow> keeps (\<lambda>sw. S (snd sw)) (onSnd m)"
  unfolding keeps_def onSnd_def by (auto split: prod.splits) (metis snd_conv)

lemma wired_externals:
  assumes "deployed S coll d w"
  shows "externals_keep (\<lambda>sw. S (snd sw)) (wired d)"
proof -
  note D = deployedD [OF assms]
  show ?thesis
    unfolding externals_keep_def wired_simps
    using keeps_snd [OF D(4)] keeps_snd [OF D(5)] runtime_ok_lift [OF D(6)] by blast
qed

definition lenient_svix :: "refw Svix" where
  "lenient_svix = \<lparr>svix_NewWebhook = (\<lambda>s. None), svix_Verify = (\<lambda>s p h. ret ())\<rparr>"

definition ref_deployment :: "(refw, unit, unit) Deployment" where
  "ref_deployment = \<lparr>dep_DB = ref_gorm, dep_Redis = Some ref_redis, dep_Kafka = ref_kafka, dep_Http = ref_http,
     dep_Runtime = still_ref, dep_Singpass = ref_cfg, dep_Jose = ref_jose, dep_Keys = ref_proxy, dep_SingpassJson = ref_json,
     dep_ClerkJson = ref_clerk_json, dep_Verifier = ref_verifier, dep_MappingJson = ref_mapping_codec,
     dep_RegisteredJson = ref_registered_codec, dep_KYCJson = ref_kyc_codec, dep_oor = (\<lambda>_. 0), dep_orbit = (=),
     dep_redirect = Some ''https://id.example/done'', dep_bind = (\<lambda>q. Inr (ask ''bob'' ''SG'')), dep_unmarshal = (\<lambda>s. Inr ref_event),
     dep_Svix = lenient_svix, dep_clientIP = (\<lambda>c. ''10.0.0.7''), dep_fullPath = (\<lambda>c. In_Path (g_Request c)), dep_stack = id, dep_otel = id, dep_cors = id,
     dep_swagger = (\<lambda>c. ret c), dep_noRoute = (\<lambda>c. ret (c_Status 404 c)), dep_struck = (\<lambda>c m sw. c)\<rparr>"

lemma ref_deployed: "deployed rw_stores (=) ref_deployment alice_world"
proof -
  have R: "runtime_ok rw_stores still_ref" using kyc_ref_world by (simp add: kyc_world_def)
  have "codec_ok ref_registered_codec" by (simp add: ref_registered_codec_def table_codec_ok)
  with R have "registration_world rw_stores (=) ref_gorm (Some ref_redis) ref_mapping_codec still_ref ref_registered_codec ref_kafka alice_world"
    unfolding registration_world_def alice_world_def using ref_mapping_world ref_kafka_ok by simp
  then show ?thesis using kyc_ref_world by (simp add: deployed_def ref_deployment_def lenient_svix_def keeps_ret)
qed

definition incoming :: "string \<Rightarrow> string \<Rightarrow> (string \<times> string) list \<Rightarrow> (string \<times> string) list \<Rightarrow> Payload Gin" where
  "incoming m p q h = new_Gin \<lparr>In_Method = m, In_Host = ''id'', In_URI = serviceURIPrefix @ p, In_Path = serviceURIPrefix @ p, In_Query = q, In_Header = h,
     In_RemoteAddr = ''10.0.0.7:4711'', In_Body = ([], None), In_Ctx = Background\<rparr>"


lemma ref_deployment_simps [simp]:
  "dep_DB ref_deployment = ref_gorm" "dep_Redis ref_deployment = Some ref_redis" "dep_Kafka ref_deployment = ref_kafka"
  "dep_Http ref_deployment = ref_http" "dep_Runtime ref_deployment = still_ref" "dep_Singpass ref_deployment = ref_cfg"
  "dep_Jose ref_deployment = ref_jose" "dep_Keys ref_deployment = ref_proxy" "dep_SingpassJson ref_deployment = ref_json"
  "dep_KYCJson ref_deployment = ref_kyc_codec" "dep_orbit ref_deployment = (=)"
  "dep_MappingJson ref_deployment = ref_mapping_codec" "dep_RegisteredJson ref_deployment = ref_registered_codec"
  "dep_Svix ref_deployment = lenient_svix" "dep_unmarshal ref_deployment = (\<lambda>s. Inr ref_event)"
  "dep_redirect ref_deployment = Some ''https://id.example/done''" "dep_bind ref_deployment = (\<lambda>q. Inr (ask ''bob'' ''SG''))"
  by (simp_all add: ref_deployment_def)

definition alice_put :: "Payload Gin" where
  "alice_put = incoming ''PUT'' ''/web/user-profile'' [] [(''X-Internal-User-Id'', ''1''), (''X-User-Role'', ''user''), (''X-Request-Id'', ''r1'')]"

definition alice_back :: "Payload Gin" where
  "alice_back = incoming ''GET'' ''/kyc/singpass/callback'' [(''code'', ''code''), (''state'', ''s'')] [(''X-Request-Id'', ''r1'')]"

lemma dispatch_at: "route c = k \<Longrightarrow> map_of (routes A) k = Some h \<Longrightarrow> dispatch A c = h c"
  by (simp only: dispatch_route)

text \<open>
  The clock of the reference deployment stands still and its log is dropped: the access log
  only puts a logger in the context.
\<close>

definition seen :: "'p Gin \<Rightarrow> 'p Gin" where
  "seen c = set_ctx (WithLogger (req_ctx c) (With [(''request_id'', LogString ''r1'')] (log_Logger still_ref))) c"

lemma still_line: "log_line (lift_runtime still_ref) level l msg fs = ret ()"
  by (auto simp: log_line_def lift_runtime_def still_ref_def ref_runtime_def ret_def fun_eq_iff split: option.splits)

lemma still_logger: "log_Logger (lift_runtime still_ref) = log_Logger still_ref"
  by (simp add: lift_runtime_def)

lemma still_now: "now (lift_runtime still_ref) = ret (63000000000 * Second)"
  by (auto simp: now_def lift_runtime_def still_ref_def ret_def fun_eq_iff)

lemma still_access: "access_line (lift_runtime still_ref) fp c d = ret ()"
  by (simp add: access_line_def Let_def Errorw_def Infow_def still_line)

lemma known_request_id:
  assumes "GetHeader c RequestIDHeader = ''r1''"
  shows "HTTPObservabilityMiddleware (lift_runtime still_ref) fp next c = next (seen c)"
proof -
  have "TrimSpace ''r1'' = ''r1''" by code_simp
  then show ?thesis
    unfolding HTTPObservabilityMiddleware_def still_access still_now bindA_ret Let_def bindA_ret_right assms
    by (simp add: requestIDFromHeader_def seen_def bindA_ret still_logger)
qed

lemma seen_simps [simp]: "userFromHeaders (seen c) = userFromHeaders c" "Query (seen c) k = Query c k" "GetHeader (seen c) k = GetHeader c k"
  "In_Body (g_Request (seen c)) = In_Body (g_Request c)" "set_ctx x (seen c) = set_ctx x c"
  "In_Header (g_Request (seen c)) = In_Header (g_Request c)"
  by (simp_all add: seen_def)

lemma alice_put_route: "route alice_put = (''PUT'', serviceURIPrefix @ ''/web/user-profile'')"
  by (simp add: alice_put_def incoming_def new_Gin_def)

lemma alice_put_user:
  "userFromHeaders alice_put = Some \<lparr>AuthUser_InternalUserID = 1, AuthUser_ClerkUserID = [], AuthUser_Email = [], AuthUser_Role = ''user''\<rparr>"
proof -
  have "GetHeader alice_put HeaderInternalUserID = ''1''" "GetHeader alice_put HeaderUserRole = ''user''" "TrimSpace ''user'' = ''user''"
    by code_simp+
  moreover have "digit_char (Suc 0) = CHR ''1''" by code_simp
  then have "FormatInt 1 = ''1''" by (simp add: FormatInt_def nat_digits.simps)
  ultimately show ?thesis using userFromHeaders_of [of alice_put 1 "''user''"] by (simp add: int64_def)
qed

lemma alice_put_updates:
  "\<exists>r ks w. dispatch (wired ref_deployment) alice_put (newMemoryKYCStateStore 0, alice_world) = (r, (ks, w))
    \<and> map_option User_Name (st_users (rw_stores w) 1) = Some ''bob''"
proof -
  let ?A = "wired ref_deployment"
  note route = alice_put_route
  have id: "GetHeader alice_put RequestIDHeader = ''r1''" by code_simp
  note user = alice_put_user
  have role: "TrimSpace RoleUser = ''user''" by code_simp
  have ctx: "req_ctx alice_put = Background" by (simp add: alice_put_def incoming_def new_Gin_def req_ctx_def)
  define run where "run = svc_UpdateProfile ref_users (Some ref_redis) (WithUser (req_ctx (seen alice_put)) (userFromHeaders alice_put)) 1 (Some (ask ''bob'' ''SG'')) alice_world"
  have "fst run = Ok ()" "map_option User_Name (st_users (rw_stores (snd run)) 1) = Some ''bob''"
    unfolding run_def user by code_simp+
  then obtain w1 where run: "svc_UpdateProfile ref_users (Some ref_redis) (WithUser (req_ctx (seen alice_put)) (userFromHeaders alice_put)) 1
      (Some (ask ''bob'' ''SG'')) alice_world = (Ok (), w1)" and bob: "map_option User_Name (st_users (rw_stores w1) 1) = Some ''bob''"
    by (cases run) (auto simp: run_def)
  show ?thesis
    unfolding dispatch_at [OF route route_lookup(4)] web_def wired_simps(1) ref_deployment_simps(5) known_request_id [OF id]
    using bob run by (simp add: RequireUser_def RequireRole_cases user role UserUpdateProfile_def ctx tryA_def onSnd_def act_simps)
qed

lemma alice_back_callback:
  "case GetKYCService_Callback (singpassProxy ref_cfg still_ref ref_http ref_jose ref_json ref_proxy)
       (Some ref_gorm) (Some ref_redis) still_ref ref_kyc_codec (kafkaProducerImpl_Publish still_ref ref_kafka) (=)
       (req_ctx (seen alice_back)) ''code'' ''s'' (alice_pending, alice_world) of (r, st', w') \<Rightarrow> r = Ok ()"
  by code_simp

lemma alice_back_passes:
  "\<exists>c' ks w. dispatch (wired ref_deployment) alice_back (alice_pending, alice_world) = (Ok c', (ks, w)) \<and> g_Status c' = 302"
proof -
  let ?A = "wired ref_deployment"
  have route: "route alice_back = (''GET'', serviceURIPrefix @ ''/kyc/singpass/callback'')"
    by (simp add: alice_back_def incoming_def new_Gin_def)
  have id: "GetHeader alice_back RequestIDHeader = ''r1''" by code_simp
  have q: "Query alice_back ''code'' = ''code''" "Query alice_back ''state'' = ''s''" "Query alice_back ''error'' = []" by code_simp+
  have to: "TrimSpace ''https://id.example/done'' = ''https://id.example/done''" by code_simp
  show ?thesis
    using alice_back_callback
    unfolding dispatch_at [OF route route_lookup(2)] public_def wired_simps(1) ref_deployment_simps(5) known_request_id [OF id]
    by (simp add: api_SingpassCallback_def q tryA_def callback_done_def to act_simps split: prod.splits)
qed

theorem row_changes_are_authorized_witness:
  "\<exists>r ks w' b. dispatch (wired ref_deployment) alice_put (newMemoryKYCStateStore 0, alice_world) = (r, (ks, w'))
    \<and> st_users (rw_stores w') 1 = Some b
    \<and> b = alice\<lparr>User_Name := User_Name b, User_Language := User_Language b, User_Market := User_Market b\<rparr>"
proof -
  obtain r ks w where run: "dispatch (wired ref_deployment) alice_put (newMemoryKYCStateStore 0, alice_world) = (r, (ks, w))"
    and bob: "map_option User_Name (st_users (rw_stores w) 1) = Some ''bob''"
    using alice_put_updates by blast
  have before: "st_users (rw_stores alice_world) 1 = Some alice" by (simp add: alice_world_def alice_def)
  moreover have "User_Name alice \<noteq> ''bob''" by (simp add: alice_def)
  ultimately have "st_users (rw_stores w) 1 \<noteq> st_users (rw_stores alice_world) 1" using bob by auto
  from row_changes_are_authorized [OF ref_deployed run this] before run show ?thesis
    by (auto simp: alice_put_def incoming_def new_Gin_def)
qed


theorem anonymous_requests_change_nothing_witness:
  "let c = incoming ''GET'' ''/web/user-profile'' [] [(''X-User-Role'', ''user'')] in
    \<exists>c' ks w'. dispatch (wired ref_deployment) c (alice_pending, alice_world) = (Ok c', (ks, w'))
      \<and> g_Status c' = 401 \<and> rw_stores w' = rw_stores alice_world"
proof -
  let ?c = "incoming ''GET'' ''/web/user-profile'' [] [(''X-User-Role'', ''user'')] :: Payload Gin"
  obtain r sw' where run: "dispatch (wired ref_deployment) ?c (alice_pending, alice_world) = (r, sw')"
    by (cases "dispatch (wired ref_deployment) ?c (alice_pending, alice_world)")
  have "externals_keep (\<lambda>sw. rw_stores (snd sw)) (wired ref_deployment)" by (rule wired_externals [OF ref_deployed])
  moreover have "userFromHeaders ?c = None" by code_simp
  moreover have key: "route ?c = (''GET'', serviceURIPrefix @ ''/web/user-profile'')"
    by (simp add: incoming_def new_Gin_def)
  moreover have "(''GET'', serviceURIPrefix @ ''/web/user-profile'') \<notin> set public_routes"
    "(''GET'', serviceURIPrefix @ ''/web/user-profile'') \<in> set protected_routes"
    "serviceURIPrefix @ ''/web/user-profile'' \<noteq> ''/auth/forward''"
    by code_simp+
  ultimately show ?thesis
    using anonymous_requests_change_nothing [OF _ _ _ _ run, where S = "\<lambda>sw. rw_stores (snd sw)"] run
    by (cases sw') (auto simp: Let_def)
qed

end
