(* ===== verification/Answers.thy ===== *)
theory Answers
  imports ServerLaws
begin

section \<open>Every request is answered\<close>

text \<open>
  The handlers and the services behind them never panic and never let an error escape: each
  request to a route of the service ends with a response, whose status is one of those the
  handlers use.
\<close>

definition answer_statuses :: "int list" where
  "answer_statuses = [200, 302, 400, 401, 403, 404, 413, 500, 503]"

definition answers :: "('w, 'p) handler \<Rightarrow> 'p Gin \<Rightarrow> 'w \<Rightarrow> bool" where
  "answers h c w \<longleftrightarrow> runs (h c) w (\<lambda>c' _. g_Status c' \<in> set answer_statuses) (\<lambda>_ _. False)"

definition returns :: "('w, 'a) act \<Rightarrow> 'w \<Rightarrow> bool" where
  "returns m w \<longleftrightarrow> runs m w (\<lambda>_ _. True) (\<lambda>_ _. True)"

lemma runs_returns: "runs m w P Q \<Longrightarrow> returns m w"
  unfolding returns_def by (erule runs_mono) simp_all

lemma returns_onSnd: "returns m w \<Longrightarrow> returns (onSnd m) (ks, w)"
  using runs_onSnd [of m w "\<lambda>_ _. True" "\<lambda>_ _. True" ks] by (simp add: returns_def runs_returns [unfolded returns_def])

lemma runs_tryA_returns:
  "returns m w \<Longrightarrow> (\<And>a w'. runs (f a) w' P Q) \<Longrightarrow> (\<And>e w'. runs (g e) w' P Q) \<Longrightarrow> runs (tryA m f g) w P Q"
  unfolding returns_def by (rule runs_tryA)

lemma statuses [simp]:
  "200 \<in> set answer_statuses" "302 \<in> set answer_statuses" "400 \<in> set answer_statuses" "401 \<in> set answer_statuses"
  "403 \<in> set answer_statuses" "404 \<in> set answer_statuses" "413 \<in> set answer_statuses" "500 \<in> set answer_statuses"
  "503 \<in> set answer_statuses"
  by (simp_all add: answer_statuses_def)

lemma helper_statuses [simp]:
  "g_Status (authError c) = 401" "g_Status (data_OK p c) = 200" "g_Status (data_JSON n k m p c) = n"
  "g_Status (c_JSON n b c) = n" "g_Status (c_Status n c) = n" "g_Status (unauthorized c) = 401" "g_Status (forbidden c) = 403"
  by (simp_all add: authError_def data_OK_def data_JSON_def c_JSON_def c_Status_def unauthorized_def forbidden_def)

lemma error_statuses [simp]:
  "g_Status (handleRepoErr c e) \<in> set answer_statuses" "g_Status (handleProfileUpdateErr c e) \<in> set answer_statuses"
  "g_Status (callback_error c e) \<in> set answer_statuses" "g_Status (callback_done redirect c) \<in> set answer_statuses"
  by (simp_all add: handleProfileUpdateErr_def handleRepoErr_def callback_error_def callback_done_def Let_def)

text \<open>A handler answers when the service calls it makes return.\<close>

lemma handlers_answer:
  "(\<And>x i. returns (getUser x i) w) \<Longrightarrow> answers (AdminGetCurrentUser getUser) c w"
  "(\<And>x i email. returns (getProfile x i email) w) \<Longrightarrow> answers (UserGetProfile getProfile) c w"
  "(\<And>x i req. returns (update x i req) w) \<Longrightarrow> answers (UserUpdateProfile bind update) c w"
  "(\<And>x i email. returns (start x i email) w) \<Longrightarrow> answers (SingpassLogin start) c w"
  "(\<And>x code state. returns (callback x code state) w) \<Longrightarrow> answers (api_SingpassCallback redirect callback) c w"
  "(\<And>x token. returns (authenticate x token) w) \<Longrightarrow> answers (AuthForward authenticate) c w"
  by (auto simp: answers_def AdminGetCurrentUser_def UserGetProfile_def UserUpdateProfile_def SingpassLogin_def
      api_SingpassCallback_def AuthForward_def Let_def split: option.split sum.split intro!: runs_tryA_returns)

lemma ClerkCallback_answers:
  assumes "\<And>s p h. runs (svix_Verify X s p h) w (\<lambda>_. T) (\<lambda>_ _. True)" and "\<And>x data w1. T w1 \<Longrightarrow> returns (create x data) w1"
  shows "answers (ClerkCallback R X unmarshal create) c w"
  by (auto simp: answers_def ClerkCallback_def Let_def split: read_result.split option.split sum.split
      intro!: runs_tryA_returns assms(2) runs_tryA [OF assms(1)])

text \<open>The middlewares pass an answer on or give one of their own.\<close>

lemma RequireRole_answers:
  "(\<And>u. answers h (set_ctx (WithUser (req_ctx c) (Some u)) c) w) \<Longrightarrow> answers (RequireRole roles h) c w"
  by (auto simp: answers_def runs_def RequireRole_cases split: option.splits)

lemma RequireInternalNetwork_answers: "answers h c w \<Longrightarrow> answers (RequireInternalNetwork orbit R h) c w"
  by (simp add: answers_def RequireInternalNetwork_def)

lemma observed_answers:
  assumes "runtime_ok S R" and "\<And>l w1. S w1 = S w \<Longrightarrow> answers next (set_ctx (WithLogger (req_ctx c) l) c) (ks, w1)"
  shows "answers (HTTPObservabilityMiddleware (lift_runtime R) fp next) c (ks, w)"
  unfolding answers_def by (rule observed_pair_runs [OF assms(1)]) (use assms(2) in \<open>simp_all add: answers_def\<close>)

lemma audited_answers:
  assumes R: "runtime_ok S R" and "\<And>w1. S w1 = S w \<Longrightarrow> answers h c (ks, w1)"
  shows "answers (AuditMiddleware (lift_runtime R) ip (Some (audit_logger (lift_runtime R))) h) c (ks, w)"
  unfolding answers_def
proof (rule audited_runs [OF runtime_ok_pair [OF R]])
  fix sw1 assume "(fst sw1, S (snd sw1)) = (fst (ks, w), S (snd (ks, w)))"
  then show "runs (h c) sw1 (\<lambda>c' _. g_Status c' \<in> set answer_statuses) (\<lambda>_ _. False)"
    using assms(2) [of "snd sw1"] by (cases sw1) (simp add: answers_def)
qed

lemma wired_web_answers:
  assumes "deployed S coll d w" and "\<And>c w1. S w1 = S w \<Longrightarrow> answers h c (ks, w1)"
  shows "answers (web (wired d) h) c (ks, w)"
  unfolding web_def wired_simps RequireUser_def
  by (rule observed_answers [OF deployedD(6) [OF assms(1)]]) (intro RequireRole_answers assms(2))

subsection \<open>The wired server\<close>

text \<open>Besides being as documented, the Svix library does not panic.\<close>

definition svix_returns :: "'w Svix \<Rightarrow> bool" where
  "svix_returns X \<longleftrightarrow> (\<forall>s p h w. returns (svix_Verify X s p h) w)"

lemma service_calls_return:
  assumes "deployed S coll d w"
  shows "returns (app_GetUser (wired d) x i) (ks, w)" "returns (app_GetProfile (wired d) x i email) (ks, w)"
    "returns (app_UpdateProfile (wired d) x i req) (ks, w)" "returns (app_StartSingpassLogin (wired d) x i email) (ks, w)"
    "returns (app_SingpassCallback (wired d) x code state) (ks, w)" "returns (app_CreateUser (wired d) x data) (ks, w)"
    "returns (app_Authenticate (wired d) x token) (ks, w)"
proof -
  note D = deployedD [OF assms] and R = registration_worldD [OF deployedD(2) [OF assms]]
  show "returns (app_GetUser (wired d) x i) (ks, w)" "returns (app_GetProfile (wired d) x i email) (ks, w)"
    "returns (app_UpdateProfile (wired d) x i req) (ks, w)"
    unfolding wired_simps
    using runs_returns [OF profiles_impl.GetUser_runs [OF D(7)]] runs_returns [OF profiles_impl.GetProfile_runs [OF D(7)]]
      runs_returns [OF profiles_impl.UpdateProfile_runs [OF D(7,8)]]
    by (blast intro: returns_onSnd)+
  show "returns (app_StartSingpassLogin (wired d) x i email) (ks, w)"
    unfolding wired_simps by (rule runs_returns [OF GetKYCService_Start_runs [OF D(6)]])
  show "returns (app_SingpassCallback (wired d) x code state) (ks, w)"
    unfolding wired_simps by (rule runs_returns [OF Callback_runs [OF D(1)]])
  show "returns (app_CreateUser (wired d) x data) (ks, w)"
    unfolding wired_simps GetUserMappingService_CreateUser_def
    by (rule returns_onSnd [OF runs_returns [OF registration_kgo.CreateUser_runs [OF R(1-6) refl refl]]])
  show "returns (app_Authenticate (wired d) x token) (ks, w)"
    unfolding wired_simps by (rule returns_onSnd [OF runs_returns [OF mappings_impl.NewAuthenticator_runs [OF D(10,6,9)]]])
qed

lemma route_answers:
  assumes "deployed S coll d w" and "svix_returns (dep_Svix d)"
  shows "list_all (\<lambda>(k, h). answers h c (ks, w)) (routes (wired d))"
proof -
  note D = deployedD [OF assms(1)]
  note call = service_calls_return [OF deployed_frame [OF assms(1)]]
  let ?A = "wired d"
  have verify: "runs (onSnd (svix_Verify (dep_Svix d) s p h)) (ks, w1) (\<lambda>_ sw. fst sw = ks \<and> S (snd sw) = S w) (\<lambda>_ _. True)"
    if "S w1 = S w" for s p h w1
  proof -
    have "runs (svix_Verify (dep_Svix d) s p h) w1 (\<lambda>_ _. True) (\<lambda>_ _. True)"
      using assms(2) by (simp add: svix_returns_def returns_def)
    then have "runs (svix_Verify (dep_Svix d) s p h) w1 (\<lambda>_ w'. S w' = S w) (\<lambda>_ _. True)"
      by (cases rule: runsE) (use keepsD [OF D(3)] that in \<open>auto simp: runs_def\<close>)
    from runs_onSnd [OF this, of ks] show ?thesis by (rule runs_mono) simp_all
  qed
  have hook: "answers (ClerkCallback (app_Runtime ?A) (app_svix ?A) (app_unmarshal ?A) (app_CreateUser ?A)) c1 (ks, w1)"
    if "S w1 = S w" for c1 w1
  proof (rule ClerkCallback_answers)
    show "runs (svix_Verify (app_svix ?A) s p h) (ks, w1) (\<lambda>_ sw. fst sw = ks \<and> S (snd sw) = S w) (\<lambda>_ _. True)" for s p h
      using verify [OF that] by (simp add: lift_svix_def)
    show "returns (app_CreateUser ?A x data) sw" if "fst sw = ks \<and> S (snd sw) = S w" for x data sw
      using call(6) [of "snd sw" x data ks] that by (cases sw) simp
  qed
  have public: "answers (public ?A h) c (ks, w)" if "\<And>c1 w1. S w1 = S w \<Longrightarrow> answers h c1 (ks, w1)" for h
    unfolding public_def wired_simps by (rule observed_answers [OF D(6) that])
  have admin: "answers (admin ?A h) c (ks, w)" if "\<And>c1 w1. S w1 = S w \<Longrightarrow> answers h c1 (ks, w1)" for h
    unfolding admin_def wired_simps
    by (rule observed_answers [OF D(6)], rule audited_answers [OF D(6)]) (auto intro: RequireRole_answers that)
  have "answers ping c (ks, w)" by (simp add: answers_def ping_def)
  moreover have "answers (public ?A (ClerkCallback (app_Runtime ?A) (app_svix ?A) (app_unmarshal ?A) (app_CreateUser ?A))) c (ks, w)"
    by (rule public) (rule hook)
  moreover have "answers (public ?A (api_SingpassCallback (app_redirect ?A) (app_SingpassCallback ?A))) c (ks, w)"
    by (rule public) (rule handlers_answer(5), rule call(5))
  moreover have "answers (web ?A (UserGetProfile (app_GetProfile ?A))) c (ks, w)"
    by (rule wired_web_answers [OF assms(1)]) (rule handlers_answer(2), rule call(2))
  moreover have "answers (web ?A (UserUpdateProfile (app_bind ?A) (app_UpdateProfile ?A))) c (ks, w)"
    by (rule wired_web_answers [OF assms(1)]) (rule handlers_answer(3), rule call(3))
  moreover have "answers (web ?A (SingpassLogin (app_StartSingpassLogin ?A))) c (ks, w)"
    by (rule wired_web_answers [OF assms(1)]) (rule handlers_answer(4), rule call(4))
  moreover have "answers (admin ?A (AdminGetCurrentUser (app_GetUser ?A))) c (ks, w)"
    by (rule admin) (rule handlers_answer(1), rule call(1))
  ultimately show ?thesis
    unfolding routes_def by (simp only: list.map prod.case list.pred_inject simp_thms)
qed

lemma dispatch_answers:
  assumes "deployed S coll d w" and "svix_returns (dep_Svix d)"
    and served: "map_of (routes (wired d)) (route c) \<noteq> None \<or> In_Path (g_Request c) = ''/auth/forward'' \<and> In_Method (g_Request c) \<in> set anyMethods"
  shows "answers (dispatch (wired d)) c (ks, w)"
proof (cases "map_of (routes (wired d)) (route c)")
  case (Some h)
  then have "(route c, h) \<in> set (routes (wired d))" by (rule map_of_SomeD)
  then have "answers h c (ks, w)" using route_answers [OF assms(1,2), of c ks] by (auto simp: list_all_iff)
  then show ?thesis unfolding answers_def dispatch_route [OF Some] .
next
  case None
  then have path: "In_Path (g_Request c) = ''/auth/forward''" and any: "In_Method (g_Request c) \<in> set anyMethods" using served by auto
  have "\<not> HasPrefix ''/auth/forward'' (serviceURIPrefix @ ''/swagger/'')" by code_simp
  then have eq: "dispatch (wired d) c = HTTPObservabilityMiddleware (app_Runtime (wired d)) (app_fullPath (wired d))
      (RequireInternalNetwork (app_orbit (wired d)) (app_Runtime (wired d)) (AuthForward (app_Authenticate (wired d)))) c"
    using None any unfolding dispatch_def Let_def path by simp
  have "answers (HTTPObservabilityMiddleware (app_Runtime (wired d)) (app_fullPath (wired d))
      (RequireInternalNetwork (app_orbit (wired d)) (app_Runtime (wired d)) (AuthForward (app_Authenticate (wired d))))) c (ks, w)"
    unfolding wired_simps(1)
    by (rule observed_answers [OF deployedD(6) [OF assms(1)]])
      (rule RequireInternalNetwork_answers, rule handlers_answer(6), rule service_calls_return(7) [OF deployed_frame [OF assms(1)]])
  then show ?thesis unfolding answers_def eq .
qed

text \<open>
  C7. Every request is answered. As long as the libraries behave as documented (calls may fail,
  none panics), a request to any route of the service, and any method of forward
  authentication, ends with a response and one of nine statuses; no error and no panic of
  a service or a data access object ever reaches gin.
\<close>

theorem every_request_is_answered:
  assumes "deployed S coll d w" and "svix_returns (dep_Svix d)"
    and "map_of (routes (wired d)) (route c) \<noteq> None \<or> In_Path (g_Request c) = ''/auth/forward'' \<and> In_Method (g_Request c) \<in> set anyMethods"
  shows "\<exists>c' sw'. dispatch (wired d) c (ks, w) = (Ok c', sw') \<and> g_Status c' \<in> {200, 302, 400, 401, 403, 404, 413, 500, 503}"
proof -
  have "runs (dispatch (wired d) c) (ks, w) (\<lambda>c' _. g_Status c' \<in> set answer_statuses) (\<lambda>_ _. False)"
    using dispatch_answers [OF assms] by (simp add: answers_def)
  then show ?thesis by (rule runsE) (auto simp: answer_statuses_def)
qed

theorem every_request_is_answered_witness:
  "\<exists>c' sw'. dispatch (wired ref_deployment) alice_back (alice_pending, alice_world) = (Ok c', sw')
    \<and> g_Status c' \<in> {200, 302, 400, 401, 403, 404, 413, 500, 503}"
proof (rule every_request_is_answered [OF ref_deployed])
  show "svix_returns (dep_Svix ref_deployment)" by (simp add: svix_returns_def returns_def lenient_svix_def)
  have "route alice_back = (''GET'', serviceURIPrefix @ ''/kyc/singpass/callback'')"
    by (simp add: alice_back_def incoming_def new_Gin_def)
  then show "map_of (routes (wired ref_deployment)) (route alice_back) \<noteq> None
      \<or> In_Path (g_Request alice_back) = ''/auth/forward'' \<and> In_Method (g_Request alice_back) \<in> set anyMethods"
    by (simp only: route_lookup) simp
qed

end
