(* ===== verification/Client.thy ===== *)
theory Client
  imports Prelude GoStrings
begin

section \<open>The client other services use\<close>

text \<open>
  client/init.go and client/config.go: one gRPC client per process, dialled on first use.
  \<open>NewClient\<close> and \<open>Close\<close> are gRPC's; a client is known by its connection \<open>'h\<close>. The globals
  of the package are a state beside the world; \<open>cl_done\<close> is the \<open>sync.Once\<close>, which counts a
  function that panicked as done.
\<close>

record GRpcClientConfig =
  Client_Host :: string
  Client_Port :: int

datatype DialOption = InsecureCredentials | MaxCallRecvMsgSize int | MaxCallSendMsgSize int | StatsHandler

record 'h ClientGlobals =
  cl_conn :: "'h option"
  cl_client :: "'h option"
  cl_done :: bool

definition fresh_client :: "'h ClientGlobals" where
  "fresh_client = \<lparr>cl_conn = None, cl_client = None, cl_done = False\<rparr>"

definition dial_options :: "DialOption list" where
  "dial_options = [InsecureCredentials, MaxCallRecvMsgSize (1024 * 1024), MaxCallSendMsgSize (1024 * 1024), StatsHandler]"

definition dial_address :: "GRpcClientConfig \<Rightarrow> string" where
  "dial_address config = Client_Host config @ '':'' @ FormatInt (Client_Port config)"

text \<open>The function given to the \<open>sync.Once\<close>; a nil configuration panics.\<close>

definition dial_once ::
    "(string \<Rightarrow> DialOption list \<Rightarrow> ('w, 'h) act) \<Rightarrow> GRpcClientConfig option \<Rightarrow> ('h ClientGlobals \<times> 'w, unit) act" where
  "dial_once NewClient config = (\<lambda>(g, w). case config of
      None \<Rightarrow> (Panicked ''runtime error: invalid memory address or nil pointer dereference'', (g, w))
    | Some cfg \<Rightarrow> (case NewClient (dial_address cfg) dial_options w of
          (Ok h, w') \<Rightarrow> (Ok (), (g\<lparr>cl_conn := Some h, cl_client := Some h\<rparr>, w'))
        | (Err e, w') \<Rightarrow> (Panicked (error_text e), (g\<lparr>cl_conn := None\<rparr>, w'))
        | (Panicked m, w') \<Rightarrow> (Panicked m, (g, w'))))"

definition once_Do :: "('h ClientGlobals \<times> 'w, unit) act \<Rightarrow> ('h ClientGlobals \<times> 'w, unit) act" where
  "once_Do f = (\<lambda>(g, w). if cl_done g then (Ok (), (g, w))
     else case f (g, w) of (r, (g', w')) \<Rightarrow> (r, (g'\<lparr>cl_done := True\<rparr>, w')))"

definition GetIdentityServiceClient ::
    "(string \<Rightarrow> DialOption list \<Rightarrow> ('w, 'h) act) \<Rightarrow> GRpcClientConfig option \<Rightarrow> ('h ClientGlobals \<times> 'w, 'h option) act" where
  "GetIdentityServiceClient NewClient config =
    seqA (once_Do (dial_once NewClient config)) (\<lambda>(g, w). (Ok (cl_client g), (g, w)))"

text \<open>An error of \<open>Close\<close> is only printed.\<close>

definition Destroy :: "('h \<Rightarrow> ('w, unit) act) \<Rightarrow> ('h ClientGlobals \<times> 'w, unit) act" where
  "Destroy Close = (\<lambda>(g, w). case cl_conn g of
      None \<Rightarrow> (Ok (), (g, w))
    | Some h \<Rightarrow> (case best_effort (Close h) w of (r, w') \<Rightarrow> (r, (g, w'))))"

subsection \<open>Histories of calls\<close>

datatype ClientCall = GetClient "GRpcClientConfig option" | DestroyClient

text \<open>What the calls of \<open>GetIdentityServiceClient\<close> return, in order; a caller may recover from a panic.\<close>

fun client_run ::
    "(string \<Rightarrow> DialOption list \<Rightarrow> ('w, 'h) act) \<Rightarrow> ('h \<Rightarrow> ('w, unit) act) \<Rightarrow> ClientCall list
      \<Rightarrow> 'h ClientGlobals \<times> 'w \<Rightarrow> 'h option res list \<times> 'h ClientGlobals \<times> 'w" where
  "client_run New Close [] s = ([], s)"
| "client_run New Close (GetClient cfg # cs) s = (case GetIdentityServiceClient New cfg s of
      (r, s') \<Rightarrow> (case client_run New Close cs s' of (rs, s'') \<Rightarrow> (r # rs, s'')))"
| "client_run New Close (DestroyClient # cs) s = (case Destroy Close s of (_, s') \<Rightarrow> client_run New Close cs s')"

lemma Get_done: "cl_done g \<Longrightarrow> GetIdentityServiceClient New cfg (g, w) = (Ok (cl_client g), (g, w))"
  by (simp add: GetIdentityServiceClient_def once_Do_def bindA_def)

lemma Destroy_globals: "fst (snd (Destroy Close s)) = fst s"
  by (cases s) (auto simp: Destroy_def split: option.splits prod.splits)

lemma client_run_done:
  assumes "client_run New Close cs (g, w) = (rs, s')" and "cl_done g"
  shows "\<forall>x \<in> set rs. x = Ok (cl_client g)"
  using assms
proof (induction cs arbitrary: w rs)
  case (Cons call cs)
  show ?case
  proof (cases call)
    case (GetClient cfg)
    then show ?thesis
      using Cons.prems Cons.IH [of w] by (cases "client_run New Close cs (g, w)") (auto simp: Get_done)
  next
    case DestroyClient
    obtain r w1 where "Destroy Close (g, w) = (r, (g, w1))"
      using Destroy_globals [of Close "(g, w)"] by (cases "Destroy Close (g, w)") auto
    then show ?thesis using Cons.prems Cons.IH [of w1] DestroyClient by simp
  qed
qed simp

text \<open>
  C40. The client is dialled once, for good or ill: whatever calls follow the first one, with
  whatever configurations, they all return what that first one made. If it got a client this
  is the one ever returned, also after \<open>Destroy\<close> has closed its connection; if it panicked,
  because of a nil configuration or a failed dial, every later call returns a nil client and
  no error.
\<close>

theorem client_is_dialled_once:
  assumes "GetIdentityServiceClient NewClient config (fresh_client, w) = (r, s)"
    and "client_run NewClient Close cs s = (rs, s')"
  shows "((\<exists>h. r = Ok (Some h)) \<or> (\<exists>m. r = Panicked m))
    \<and> list_all (\<lambda>x. x = (case r of Ok h \<Rightarrow> Ok h | _ \<Rightarrow> Ok None)) rs"
proof -
  obtain g v where s: "s = (g, v)" by (cases s)
  have first: "cl_done g \<and> (r = Ok (cl_client g) \<and> cl_client g \<noteq> None \<or> (\<exists>m. r = Panicked m) \<and> cl_client g = None)"
    using assms(1) s
    by (auto simp: GetIdentityServiceClient_def once_Do_def dial_once_def fresh_client_def bindA_def
        split: option.splits prod.splits res.splits)
  have "\<forall>x \<in> set rs. x = Ok (cl_client g)"
    by (rule client_run_done [OF assms(2) [unfolded s]]) (use first in simp)
  then show ?thesis using first by (auto simp: list_all_iff)
qed

definition some_dial :: "string \<Rightarrow> DialOption list \<Rightarrow> (nat, nat) act" where
  "some_dial addr opts = (\<lambda>w. if addr = ''down:1'' then (Err (External ''refused''), w) else (Ok 7, w + 1))"

theorem client_is_dialled_once_witness:
  "let (r, s) = GetIdentityServiceClient some_dial (Some \<lparr>Client_Host = ''down'', Client_Port = 1\<rparr>) (fresh_client, 0) in
     r = Panicked ''refused''
     \<and> list_all (\<lambda>x. x = Ok None) (fst (client_run some_dial (\<lambda>h. ret ())
          [GetClient (Some \<lparr>Client_Host = ''up'', Client_Port = 2\<rparr>), DestroyClient, GetClient None] s))"
proof -
  let ?cs = "[GetClient (Some \<lparr>Client_Host = ''up'', Client_Port = 2\<rparr>), DestroyClient, GetClient None]"
  obtain r s where get: "GetIdentityServiceClient some_dial (Some \<lparr>Client_Host = ''down'', Client_Port = 1\<rparr>) (fresh_client, 0) = (r, s)"
    by (rule prod.exhaust)
  have "fst (GetIdentityServiceClient some_dial (Some \<lparr>Client_Host = ''down'', Client_Port = 1\<rparr>) (fresh_client, 0)) = Panicked ''refused''"
    by code_simp
  then have r: "r = Panicked ''refused''" unfolding get by simp
  have "list_all (\<lambda>x. x = Ok None) (fst (client_run some_dial (\<lambda>h. ret ()) ?cs s))"
    using client_is_dialled_once [OF get prod.collapse [symmetric], where Close = "\<lambda>h. ret ()" and cs = ?cs] by (simp only: r res.case)
  with r show ?thesis unfolding Let_def get by simp
qed

end
