(* ===== verification/Grpc.thy ===== *)
theory Grpc
  imports ProfileLaws UserMapping
begin

section \<open>The gRPC service\<close>

text \<open>
  server/grpc/grpc_service.go and the interceptor of server/grpc/init.go over the messages of
  the protocol (common/proto): \<open>profiles\<close> is the dependency \<open>userProfileLookup\<close>. Fields that a
  response does not set have the zero value, as in the generated structs.
\<close>

datatype ErrorCode =
    ERROR_CODE_UNSPECIFIED
  | ERROR_CODE_OK
  | ERROR_CODE_USER_NOT_FOUND
  | ERROR_CODE_INVALID_ARGUMENT
  | ERROR_CODE_INTERNAL

record BaseResponseInfo =
  Base_Code :: ErrorCode
  Base_Message :: string

record GetUserProfileResponse =
  Resp_UserId :: int
  Resp_Email :: string
  Resp_Name :: string
  Resp_Market :: string
  Resp_KycStatus :: string
  Resp_RegisteredAt :: int
  Resp_BaseInfo :: BaseResponseInfo

type_synonym 'w userProfileLookup = "ctx \<Rightarrow> int \<Rightarrow> ('w, UserProfileAggregate) act"

definition SayHello :: "ctx \<Rightarrow> string \<Rightarrow> ('w, string) act" where
  "SayHello c name = ret (''Hello '' @ name)"

definition error_response :: "ErrorCode \<Rightarrow> string \<Rightarrow> GetUserProfileResponse" where
  "error_response code message = \<lparr>Resp_UserId = 0, Resp_Email = [], Resp_Name = [], Resp_Market = [], Resp_KycStatus = [],
     Resp_RegisteredAt = 0, Resp_BaseInfo = \<lparr>Base_Code = code, Base_Message = message\<rparr>\<rparr>"

definition grpc_GetUserProfile :: "'w userProfileLookup \<Rightarrow> ctx \<Rightarrow> int \<Rightarrow> ('w, GetUserProfileResponse) act" where
  "grpc_GetUserProfile profiles c userID = tryA (profiles c userID)
     (\<lambda>profile. ret \<lparr>
        Resp_UserId = Aggregate_UserID profile,
        Resp_Email = Aggregate_Email profile,
        Resp_Name = Aggregate_Name profile,
        Resp_Market = Aggregate_Market profile,
        Resp_KycStatus = Aggregate_KYCStatus profile,
        Resp_RegisteredAt = Unix (Aggregate_RegisteredAt profile),
        Resp_BaseInfo = \<lparr>Base_Code = ERROR_CODE_OK, Base_Message = ''ok''\<rparr>\<rparr>)
     (\<lambda>err.
        if errors_Is err ErrInvalidArgument then ret (error_response ERROR_CODE_INVALID_ARGUMENT ''userId must be positive'')
        else if errors_Is err ErrUserNotFound then ret (error_response ERROR_CODE_USER_NOT_FOUND ''user not found'')
        else ret (error_response ERROR_CODE_INTERNAL ''internal error''))"

text \<open>\<open>NewIdentityService\<close>: without a lookup of its own the server takes the service's.\<close>

definition NewIdentityService :: "'w userProfileLookup \<Rightarrow> 'w userProfileLookup option \<Rightarrow> 'w userProfileLookup" where
  "NewIdentityService service profiles = (case profiles of None \<Rightarrow> service | Some p \<Rightarrow> p)"

text \<open>
  The interceptor brackets a call with lines: it returns the handler's outcome. \<open>code\<close> is the
  name of the status code gRPC reads off an error.
\<close>

definition grpc_fields :: "(go_error option \<Rightarrow> string) \<Rightarrow> string \<Rightarrow> int \<Rightarrow> go_error option \<Rightarrow> LogField list" where
  "grpc_fields code fullMethod duration err =
    [(''method'', LogString fullMethod), (''duration_ms'', LogMicros duration), (''code'', LogString (code err))]"

definition unaryLoggingInterceptor ::
    "'w Runtime \<Rightarrow> (go_error option \<Rightarrow> string) \<Rightarrow> string \<Rightarrow> (ctx \<Rightarrow> 'q \<Rightarrow> ('w, 'p) act) \<Rightarrow> ctx \<Rightarrow> 'q \<Rightarrow> ('w, 'p) act" where
  "unaryLoggingInterceptor R code fullMethod handler c req = bindA (now R) (\<lambda>start.
     seqA (Infow R (WithContext R (Some c)) ''grpc request started'' [(''method'', LogString fullMethod)])
     (tryA (handler c req)
       (\<lambda>resp. bindA (now R) (\<lambda>t. seqA (Infow R (WithContext R (Some c)) ''grpc request completed''
          (grpc_fields code fullMethod (Microseconds (t - start)) None)) (ret resp)))
       (\<lambda>err. bindA (now R) (\<lambda>t. seqA (Errorw R (WithContext R (Some c)) ''grpc request failed''
          (grpc_fields code fullMethod (Microseconds (t - start)) (Some err) @ [(''error'', LogError err)])) (throw err)))))"

definition IdentityService_GetUserProfile_FullMethodName :: string where
  "IdentityService_GetUserProfile_FullMethodName = ''/identitypb.IdentityService/GetUserProfile''"

text \<open>The call as it is served: the interceptor around the method over the profile service.\<close>

definition served_GetUserProfile ::
    "'w Runtime \<Rightarrow> (go_error option \<Rightarrow> string) \<Rightarrow> 'w UserDao \<Rightarrow> 'w UserAuthMappingDao \<Rightarrow> 'w RedisClient option
      \<Rightarrow> UserProfileAggregate Codec \<Rightarrow> ctx \<Rightarrow> int \<Rightarrow> ('w, GetUserProfileResponse) act" where
  "served_GetUserProfile R code users mappings C J =
     unaryLoggingInterceptor R code IdentityService_GetUserProfile_FullMethodName
       (grpc_GetUserProfile (NewIdentityService (svc_GetUserProfile users mappings C J) None))"

lemma interceptor_runs:
  assumes R: "runtime_ok S R" and "\<And>w1. S w1 = S w \<Longrightarrow> runs (handler c req) w1 P Q"
    and "\<And>a w1 w2. P a w1 \<Longrightarrow> S w2 = S w1 \<Longrightarrow> P a w2" and "\<And>e w1 w2. Q e w1 \<Longrightarrow> S w2 = S w1 \<Longrightarrow> Q e w2"
  shows "runs (unaryLoggingInterceptor R code fullMethod handler c req) w P Q"
proof -
  note quiet = quiet_calls [OF R]
  have end_ok: "runs (bindA (now R) (\<lambda>t. seqA (Infow R l msg (f t)) (ret a))) w1 P Q" if "P a w1" for a w1 l msg f
    by (rule runs_quiet [OF quiet(1)], rule runs_quiet [OF quiet(2)]) (use that in \<open>simp, metis assms(3)\<close>)
  have end_err: "runs (bindA (now R) (\<lambda>t. seqA (Errorw R l msg (f t)) (throw e))) w1 P Q" if "Q e w1" for e w1 l msg f
    by (rule runs_quiet [OF quiet(1)], rule runs_quiet [OF quiet(3)]) (use that in \<open>simp, metis assms(4)\<close>)
  show ?thesis
    unfolding unaryLoggingInterceptor_def
    by (rule runs_quiet [OF quiet(1)], rule runs_quiet [OF quiet(2)], rule runs_tryA [OF assms(2)])
      (auto intro: end_ok end_err)
qed

lemma only_cache_tables: "only_cache K st st' \<Longrightarrow> same_tables st st' \<and> st_events st' = st_events st"
  by (simp add: same_tables_def only_cacheD)

text \<open>
  C18. A gRPC profile request is always answered, and by its code one knows why: OK carries the
  e-mail of the user's mapping and the name, market, status and registration second of his
  row; INVALID_ARGUMENT is the answer to ids that are not positive, and to no others;
  USER_NOT_FOUND comes only when the user or his mapping does not exist, and INTERNAL hides
  every other error. No table and no topic changes.
\<close>

theorem grpc_profile_answers:
  assumes "profile_world S coll db C JM J w" and "fresh_all C coll J (S w)" and "runtime_ok S R"
    and "served_GetUserProfile R code (UserDaoImpl db) (UserAuthMappingDaoImpl db C JM) C J c i w = (r, w')"
  shows "\<exists>resp. r = Ok resp \<and> same_tables (S w) (S w') \<and> st_events (S w') = st_events (S w)
    \<and> (case Base_Code (Resp_BaseInfo resp) of
        ERROR_CODE_OK \<Rightarrow> 0 < i \<and> Resp_UserId resp = i \<and> (\<exists>u m. st_users (S w) i = Some u
          \<and> mapping_of coll (internal_user_id_eq i) (S w) = Some m \<and> Resp_Email resp = Mapping_Email m
          \<and> Resp_Name resp = User_Name u \<and> Resp_Market resp = User_Market u \<and> Resp_KycStatus resp = User_KYCStatus u
          \<and> Resp_RegisteredAt resp = Unix (User_CreatedAt u))
      | ERROR_CODE_INVALID_ARGUMENT \<Rightarrow> i \<le> 0
      | ERROR_CODE_USER_NOT_FOUND \<Rightarrow> 0 < i \<and> (st_users (S w) i = None \<or> mapping_of coll (internal_user_id_eq i) (S w) = None)
      | ERROR_CODE_INTERNAL \<Rightarrow> 0 < i
      | ERROR_CODE_UNSPECIFIED \<Rightarrow> False)"
proof -
  note ok = profile_worldD [OF assms(1)]
  let ?Post = "\<lambda>resp w'. same_tables (S w) (S w') \<and> st_events (S w') = st_events (S w)
    \<and> (case Base_Code (Resp_BaseInfo resp) of
        ERROR_CODE_OK \<Rightarrow> 0 < i \<and> Resp_UserId resp = i \<and> (\<exists>u m. st_users (S w) i = Some u
          \<and> mapping_of coll (internal_user_id_eq i) (S w) = Some m \<and> Resp_Email resp = Mapping_Email m
          \<and> Resp_Name resp = User_Name u \<and> Resp_Market resp = User_Market u \<and> Resp_KycStatus resp = User_KYCStatus u
          \<and> Resp_RegisteredAt resp = Unix (User_CreatedAt u))
      | ERROR_CODE_INVALID_ARGUMENT \<Rightarrow> i \<le> 0
      | ERROR_CODE_USER_NOT_FOUND \<Rightarrow> 0 < i \<and> (st_users (S w) i = None \<or> mapping_of coll (internal_user_id_eq i) (S w) = None)
      | ERROR_CODE_INTERNAL \<Rightarrow> 0 < i
      | ERROR_CODE_UNSPECIFIED \<Rightarrow> False)"
  have "runs (grpc_GetUserProfile (NewIdentityService (svc_GetUserProfile (UserDaoImpl db) (UserAuthMappingDaoImpl db C JM) C J) None) c i)
      w1 ?Post (\<lambda>_ _. False)" if w1: "S w1 = S w" for w1
  proof -
    have mok: "mapping_world_ok S coll db C JM w1"
      by (rule mappings_impl.ok_frame [OF ok(2)]) (use w1 in auto)
    have eqs: "keyed (S w1)" "fresh_all C coll J (S w1)" using ok(5) assms(2) w1 by simp_all
    show ?thesis
      unfolding grpc_GetUserProfile_def NewIdentityService_def option.case
      by (rule runs_tryA [OF profiles_impl.GetUserProfile_runs [OF ok(1) mok ok(3,4) eqs]])
        (auto simp: w1 error_response_def profile_of_def dest!: only_cache_tables split: option.splits)
  qed
  then have "runs (served_GetUserProfile R code (UserDaoImpl db) (UserAuthMappingDaoImpl db C JM) C J c i) w ?Post (\<lambda>_ _. False)"
    unfolding served_GetUserProfile_def by (rule interceptor_runs [OF assms(3)]) (simp_all add: same_tables_def)
  then show ?thesis using assms(4) by (cases r) (auto simp: runs_def)
qed

theorem grpc_profile_answers_witness:
  "case fst (served_GetUserProfile ref_runtime (\<lambda>e. []) ref_users ref_mappings (Some ref_redis) ref_profile_codec Background 1 alice_world) of
      Ok resp \<Rightarrow> Base_Code (Resp_BaseInfo resp) = ERROR_CODE_OK \<and> Resp_Name resp = ''alice'' \<and> Resp_Email resp = ''alice@example.com''
    | _ \<Rightarrow> False"
proof -
  let ?run = "served_GetUserProfile ref_runtime (\<lambda>e. []) ref_users ref_mappings (Some ref_redis) ref_profile_codec Background 1 alice_world"
  have code: "case fst ?run of Ok resp \<Rightarrow> Base_Code (Resp_BaseInfo resp) = ERROR_CODE_OK | _ \<Rightarrow> False"
    by code_simp
  have "profile_world rw_stores (=) (Some ref_gorm) (Some ref_redis) ref_mapping_codec ref_profile_codec alice_world"
    unfolding alice_world_def by (rule ref_profile_world)
  moreover have "fresh_all (Some ref_redis) (=) ref_profile_codec (rw_stores alice_world)"
    unfolding alice_world_def by (rule ref_fresh)
  moreover have "st_users (rw_stores alice_world) 1 = Some alice" "User_Name alice = ''alice''"
    "mapping_of (=) (internal_user_id_eq 1) (rw_stores alice_world) = Some alice_mapping" "Mapping_Email alice_mapping = ''alice@example.com''"
    by (simp_all add: alice_world_def alice_def mapping_of_def alice_mapping_def)
  ultimately show ?thesis
    using grpc_profile_answers [OF _ _ ref_runtime_ok prod.collapse [symmetric], where coll = "(=)" and db = "Some ref_gorm"
        and C = "Some ref_redis" and JM = ref_mapping_codec and J = ref_profile_codec and code = "\<lambda>e. []" and w = alice_world and c = Background and i = 1] code
    by auto
qed

end
