(* ===== verification/Accounts.thy ===== *)
theory Accounts
  imports ServerLaws Grpc
begin

section \<open>The ledger of accounts the server implements\<close>

text \<open>
  An abstract view of the two tables: a ledger that gives each internal id at most one account,
  with four operations, and the proof that every request to the wired server performs one of
  them, which its route, its identity headers, its pending state or its signature permits.
  The well-formedness of the tables, which the abstraction needs, holds in every state the
  server can reach by requests, gRPC calls, restarts and the expiry of cached entries.
\<close>

record Account =
  acc_Clerk :: string
  acc_Email :: string
  acc_Name :: string
  acc_Market :: string
  acc_Language :: string
  acc_KYC :: string

type_synonym Ledger = "int \<Rightarrow> Account option"

definition account :: "User \<Rightarrow> UserAuthMapping \<Rightarrow> Account" where
  "account u m = \<lparr>acc_Clerk = Mapping_ClerkUserID m, acc_Email = Mapping_Email m, acc_Name = User_Name u,
     acc_Market = User_Market u, acc_Language = User_Language u, acc_KYC = User_KYCStatus u\<rparr>"

definition ledger :: "Stores \<Rightarrow> Ledger" where
  "ledger st i = (case (st_users st i, find (\<lambda>m. Mapping_InternalUserID m = i) (st_mappings st)) of
      (Some u, Some m) \<Rightarrow> Some (account u m) | _ \<Rightarrow> None)"

text \<open>The operations of the ledger and what each may do.\<close>

datatype Operation = Look | Register | Edit int | Verify int

inductive ledger_step :: "(string \<Rightarrow> string \<Rightarrow> bool) \<Rightarrow> Operation \<Rightarrow> Ledger \<Rightarrow> Ledger \<Rightarrow> bool"
  for coll :: "string \<Rightarrow> string \<Rightarrow> bool" where
  look: "ledger_step coll op A A"
| register: "A i = None \<Longrightarrow> 0 < i \<Longrightarrow> int64 i \<Longrightarrow> email \<noteq> []
    \<Longrightarrow> (\<And>j a. A j = Some a \<Longrightarrow> \<not> coll (acc_Clerk a) clerk \<and> \<not> coll (acc_Email a) email)
    \<Longrightarrow> ledger_step coll Register A (A(i \<mapsto> \<lparr>acc_Clerk = clerk, acc_Email = email, acc_Name = name,
          acc_Market = [], acc_Language = [], acc_KYC = KYCStatusPending\<rparr>))"
| edit: "A i = Some a \<Longrightarrow> market = acc_Market a \<or> acc_Market a = [] \<and> IsValidMarket market
    \<Longrightarrow> lang = acc_Language a \<or> IsValidLanguage lang
    \<Longrightarrow> ledger_step coll (Edit i) A (A(i \<mapsto> a\<lparr>acc_Name := name, acc_Market := market, acc_Language := lang\<rparr>))"
| verify: "A i = Some a \<Longrightarrow> s \<in> {KYCStatusPassed, KYCStatusFailed}
    \<Longrightarrow> ledger_step coll (Verify i) A (A(i \<mapsto> a\<lparr>acc_KYC := s\<rparr>))"

inductive_cases look_stepE: "ledger_step coll Look A A'"
inductive_cases register_stepE: "ledger_step coll Register A A'"
inductive_cases edit_stepE: "ledger_step coll (Edit i) A A'"
inductive_cases verify_stepE: "ledger_step coll (Verify i) A A'"

text \<open>The operations a request permits.\<close>

fun permits ::
    "('e, 'k, 's) Deployment \<Rightarrow> Payload Gin \<Rightarrow> memoryKYCStateStore \<Rightarrow> Operation \<Rightarrow> bool" where
  "permits d c ks Look = True"
| "permits d c ks Register = (route c = (''POST'', serviceURIPrefix @ ''/clerk/callback'')
     \<and> verified (dep_Runtime d) (dep_Svix d) c)"
| "permits d c ks (Edit i) = (route c = (''PUT'', serviceURIPrefix @ ''/web/user-profile'')
     \<and> (\<exists>u. userFromHeaders c = Some u \<and> AuthUser_Role u = RoleUser \<and> AuthUser_InternalUserID u = i))"
| "permits d c ks (Verify i) = (route c = (''GET'', serviceURIPrefix @ ''/kyc/singpass/callback'')
     \<and> (\<exists>q. items ks (Query c ''state'') = Some q \<and> Pending_InternalUserID q = i))"

subsection \<open>Well-formed tables\<close>

text \<open>
  Users and mappings correspond one to one; no two mappings have Clerk ids or addresses that
  MySQL takes for equal; rows are filed under their own positive \<open>int64\<close> id; markets, languages
  and statuses are among the supported ones; every mapping has an address and the role user.
\<close>

definition typed_user :: "int \<Rightarrow> User \<Rightarrow> bool" where
  "typed_user i u \<longleftrightarrow> 0 < i \<and> int64 i \<and> User_ID u = i \<and> valid_row u
     \<and> User_KYCStatus u \<in> {KYCStatusPending, KYCStatusPassed, KYCStatusFailed}"

definition typed_mapping :: "UserAuthMapping \<Rightarrow> bool" where
  "typed_mapping m \<longleftrightarrow> Mapping_Email m \<noteq> [] \<and> Mapping_Role m = RoleUser"

definition typed_tables :: "(string \<Rightarrow> string \<Rightarrow> bool) \<Rightarrow> Stores \<Rightarrow> bool" where
  "typed_tables coll st \<longleftrightarrow> registry coll st \<and> (\<forall>i u. st_users st i = Some u \<longrightarrow> typed_user i u)
     \<and> (\<forall>m \<in> set (st_mappings st). typed_mapping m)"

definition well_formed :: "(string \<Rightarrow> string \<Rightarrow> bool) \<Rightarrow> Stores \<Rightarrow> bool" where
  "well_formed coll st \<longleftrightarrow> typed_tables coll st
     \<and> sorted_wrt (\<lambda>m n. \<not> coll (Mapping_Email m) (Mapping_Email n)) (st_mappings st)"

lemma typed_tables_cong: "same_tables st st' \<Longrightarrow> typed_tables coll st' = typed_tables coll st"
  by (simp add: typed_tables_def registry_def same_tables_def)

lemma typed_tables_row:
  assumes typed: "typed_tables coll st" and u: "st_users st i = Some u" and v: "typed_user i v"
    and st': "st_users st' = (st_users st)(i \<mapsto> v)" "st_mappings st' = st_mappings st"
  shows "typed_tables coll st'"
proof -
  have "(st_users st' j \<noteq> None) = (st_users st j \<noteq> None)" for j using u st' by simp
  then show ?thesis using typed v st' by (auto simp: typed_tables_def registry_def)
qed

lemma typed_tables_added:
  assumes typed: "typed_tables coll st" and add: "added clerk email i st st'" and email: "email \<noteq> []"
    and new: "mapping_of coll (clerk_user_id_eq clerk) st = None"
  shows "typed_tables coll st'"
proof -
  from add obtain r row where r: "typed_user i r" and row: "typed_mapping row"
    and st': "st_users st' = (st_users st)(i \<mapsto> r)" "st_mappings st' = st_mappings st @ [row]"
    using email unfolding added_def by (auto simp: typed_user_def typed_mapping_def valid_row_def)
  have "registry coll st'" using typed new by (intro registry_added [OF _ add]) (simp_all add: typed_tables_def)
  then show ?thesis using typed r row st' by (auto simp: typed_tables_def)
qed

lemma well_formedD:
  assumes "well_formed coll st"
  shows "registry coll st" and "st_users st i = Some u \<Longrightarrow> typed_user i u" and "typed_tables coll st"
  using assms by (simp_all add: well_formed_def typed_tables_def)

lemma well_formed_cong: "same_tables st st' \<Longrightarrow> well_formed coll st' = well_formed coll st"
  by (simp add: well_formed_def typed_tables_cong) (simp add: same_tables_def)

lemma well_formed_row:
  assumes "well_formed coll st" and "st_users st i = Some u" and "typed_user i v"
    and "st_users st' = (st_users st)(i \<mapsto> v)" "st_mappings st' = st_mappings st"
  shows "well_formed coll st'"
  using assms(1,5) typed_tables_row [OF well_formedD(3) [OF assms(1)] assms(2-5)] by (simp add: well_formed_def)

lemma none_coll:
  assumes "mapping_of coll q st = None" and "m \<in> set (st_mappings st)"
  shows "\<not> where_holds coll q m"
  using assms by (auto simp: mapping_of_def find_None_iff)

lemma well_formed_added:
  assumes wf: "well_formed coll st" and add: "added clerk email i st st'" and email: "email \<noteq> []"
    and new: "\<not> known coll clerk email st"
  shows "well_formed coll st'"
proof -
  from add obtain row where row: "Mapping_Email row = email" "st_mappings st' = st_mappings st @ [row]" by (auto simp: added_def)
  have "\<not> coll (Mapping_Email m) email" if "m \<in> set (st_mappings st)" for m
    using none_coll [OF _ that, of coll "email_eq email"] new by (simp add: known_def)
  then show ?thesis
    using wf row typed_tables_added [OF well_formedD(3) [OF wf] add email] new by (auto simp: well_formed_def sorted_wrt_append known_def)
qed

lemma typed_edit:
  assumes "typed_user i u" and "profile_change u v"
  shows "typed_user i v" and "User_Market v = User_Market u \<or> User_Market u = [] \<and> IsValidMarket (User_Market v)"
proof -
  have eq: "v = u\<lparr>User_Name := User_Name v, User_Language := User_Language v, User_Market := User_Market v\<rparr>"
    and market: "User_Market v = User_Market u \<or> TrimSpace (User_Market u) = [] \<and> IsValidMarket (User_Market v)"
    and lang: "User_Language v = User_Language u \<or> IsValidLanguage (User_Language v)"
    using assms(2) unfolding profile_change_def by blast+
  have id: "User_ID v = User_ID u" "User_KYCStatus v = User_KYCStatus u"
    using arg_cong [OF eq, of User_ID] arg_cong [OF eq, of User_KYCStatus] by simp_all
  have "TrimSpace (User_Market u) = [] \<Longrightarrow> User_Market u = []"
    using assms(1) market_shape unfolding typed_user_def valid_row_def by metis
  with market show "User_Market v = User_Market u \<or> User_Market u = [] \<and> IsValidMarket (User_Market v)" by blast
  then show "typed_user i v"
    using assms(1) lang unfolding typed_user_def valid_row_def id by metis
qed

lemma typed_verified:
  assumes "typed_user i u" and "status_change u v"
  shows "typed_user i v"
proof -
  have eq: "v = u\<lparr>User_KYCStatus := User_KYCStatus v\<rparr>" and st: "User_KYCStatus v \<in> {KYCStatusPassed, KYCStatusFailed}"
    using assms(2) unfolding status_change_def by blast+
  have id: "User_ID v = User_ID u" "User_Market v = User_Market u" "User_Language v = User_Language u"
    using arg_cong [OF eq, of User_ID] arg_cong [OF eq, of User_Market] arg_cong [OF eq, of User_Language] by simp_all
  show ?thesis using assms(1) st unfolding typed_user_def valid_row_def id by blast
qed

subsection \<open>The ledger of changed tables\<close>

lemma ledger_same: "same_tables st st' \<Longrightarrow> ledger st' = ledger st"
  by (simp add: ledger_def same_tables_def fun_eq_iff)

lemma ledger_user:
  assumes "well_formed coll st" and "st_users st i = Some u"
  obtains m where "m \<in> set (st_mappings st)" and "ledger st i = Some (account u m)"
    and "find (\<lambda>m. Mapping_InternalUserID m = i) (st_mappings st) = Some m"
proof -
  have "i \<in> Mapping_InternalUserID ` set (st_mappings st)"
    using well_formedD(1) [OF assms(1)] assms(2) unfolding registry_def by (metis option.distinct(1))
  then have "find (\<lambda>m. Mapping_InternalUserID m = i) (st_mappings st) \<noteq> None" by (auto simp: find_None_iff)
  then obtain m where m: "find (\<lambda>m. Mapping_InternalUserID m = i) (st_mappings st) = Some m" by blast
  with assms(2) show thesis by (intro that [of m]) (auto simp: ledger_def dest: find_SomeD)
qed

lemma ledger_account: "ledger st j = Some a \<Longrightarrow> \<exists>m \<in> set (st_mappings st). acc_Clerk a = Mapping_ClerkUserID m \<and> acc_Email a = Mapping_Email m"
  by (auto simp: ledger_def account_def dest!: find_SomeD split: option.splits)

lemma ledger_row:
  assumes "find (\<lambda>m. Mapping_InternalUserID m = i) (st_mappings st) = Some m"
    and "st_users st' = (st_users st)(i \<mapsto> v)" and "st_mappings st' = st_mappings st"
  shows "ledger st' = (ledger st)(i \<mapsto> account v m)"
  using assms by (auto simp: ledger_def fun_eq_iff)

lemma added_step:
  assumes wf: "well_formed coll st" and add: "added clerk email i st st'" and email: "email \<noteq> []"
    and new: "\<not> known coll clerk email st"
  shows "ledger_step coll Register (ledger st) (ledger st')"
proof -
  from add obtain r row where i: "0 < i" "int64 i" "st_users st i = None"
    and r: "User_KYCStatus r = KYCStatusPending" "User_Market r = []" "User_Language r = []"
    and row: "Mapping_ClerkUserID row = clerk" "Mapping_Email row = email" "Mapping_InternalUserID row = i"
    and st': "st_users st' = (st_users st)(i \<mapsto> r)" "st_mappings st' = st_mappings st @ [row]"
    unfolding added_def by blast
  have "i \<notin> Mapping_InternalUserID ` set (st_mappings st)"
    using well_formedD(1) [OF wf] i(3) unfolding registry_def by metis
  then have "find (\<lambda>m. Mapping_InternalUserID m = i) (st_mappings st) = None" by (auto simp: find_None_iff)
  then have eq: "ledger st' = (ledger st)(i \<mapsto> \<lparr>acc_Clerk = clerk, acc_Email = email, acc_Name = User_Name r,
          acc_Market = [], acc_Language = [], acc_KYC = KYCStatusPending\<rparr>)"
    using row r st' i(3) by (auto simp: ledger_def account_def fun_eq_iff find_append_None split: option.splits)
  have "\<not> coll (acc_Clerk a) clerk \<and> \<not> coll (acc_Email a) email" if "ledger st j = Some a" for j a
    using ledger_account [OF that] new none_coll [of coll "clerk_user_id_eq clerk" st] none_coll [of coll "email_eq email" st]
    by (auto simp: known_def)
  then show ?thesis
    unfolding eq using i email by (intro ledger_step.register) (simp_all add: ledger_def)
qed

lemma row_step:
  assumes wf: "well_formed coll st" and row: "row_only i C st st'"
    and typed: "\<And>u v. typed_user i u \<Longrightarrow> C u v \<Longrightarrow> typed_user i v"
    and step: "\<And>A u v m. A i = Some (account u m) \<Longrightarrow> typed_user i u \<Longrightarrow> C u v \<Longrightarrow> ledger_step coll op A (A(i \<mapsto> account v m))"
  shows "well_formed coll st' \<and> ledger_step coll op (ledger st) (ledger st')"
proof -
  have maps: "st_mappings st' = st_mappings st" using row by (simp add: row_only_def mappings_kept_def)
  consider "same_tables st st'" | u v where "st_users st i = Some u" "C u v" "st_users st' = (st_users st)(i \<mapsto> v)"
    using row maps unfolding row_only_def same_tables_def by blast
  then show ?thesis
  proof cases
    case 1
    then show ?thesis using wf ledger_step.look by (simp add: well_formed_cong ledger_same)
  next
    case 2
    note u = well_formedD(2) [OF wf 2(1)]
    from ledger_user [OF wf 2(1)] obtain m where "ledger st i = Some (account u m)"
      "find (\<lambda>m. Mapping_InternalUserID m = i) (st_mappings st) = Some m" by blast
    then have "ledger_step coll op (ledger st) (ledger st')"
      using step [OF _ u 2(2)] ledger_row [OF _ 2(3) maps] by simp
    then show ?thesis using well_formed_row [OF wf 2(1) typed [OF u 2(2)] 2(3) maps] by blast
  qed
qed

lemma edit_row:
  assumes "A i = Some (account u m)" and "typed_user i u" and "profile_change u v"
  shows "ledger_step coll (Edit i) A (A(i \<mapsto> account v m))"
proof -
  have eq: "v = u\<lparr>User_Name := User_Name v, User_Language := User_Language v, User_Market := User_Market v\<rparr>"
    and lang: "User_Language v = User_Language u \<or> IsValidLanguage (User_Language v)"
    using assms(3) unfolding profile_change_def by blast+
  have "account v m = (account u m)\<lparr>acc_Name := User_Name v, acc_Market := User_Market v, acc_Language := User_Language v\<rparr>"
    using arg_cong [OF eq, of User_KYCStatus] by (simp add: account_def)
  moreover have "ledger_step coll (Edit i) A (A(i \<mapsto> (account u m)\<lparr>acc_Name := User_Name v, acc_Market := User_Market v, acc_Language := User_Language v\<rparr>))"
    by (rule ledger_step.edit) (use assms(1) typed_edit(2) [OF assms(2,3)] lang in \<open>simp_all add: account_def\<close>)
  ultimately show ?thesis by simp
qed

lemma verify_row:
  assumes "A i = Some (account u m)" and "status_change u v"
  shows "ledger_step coll (Verify i) A (A(i \<mapsto> account v m))"
proof -
  have eq: "v = u\<lparr>User_KYCStatus := User_KYCStatus v\<rparr>" and st: "User_KYCStatus v \<in> {KYCStatusPassed, KYCStatusFailed}"
    using assms(2) unfolding status_change_def by blast+
  have "account v m = (account u m)\<lparr>acc_KYC := User_KYCStatus v\<rparr>"
    using arg_cong [OF eq, of User_Name] arg_cong [OF eq, of User_Market] arg_cong [OF eq, of User_Language]
    by (simp add: account_def)
  moreover have "ledger_step coll (Verify i) A (A(i \<mapsto> (account u m)\<lparr>acc_KYC := User_KYCStatus v\<rparr>))"
    by (rule ledger_step.verify) (use assms(1) st in simp_all)
  ultimately show ?thesis by simp
qed

lemma authorized_step:
  assumes wf: "well_formed coll st" and auth: "authorized coll d c ks st st'"
  shows "well_formed coll st' \<and> (\<exists>op. permits d c ks op \<and> ledger_step coll op (ledger st) (ledger st'))"
proof -
  have look: ?thesis if "same_tables st st'"
    using wf that ledger_step.look [of coll Look] by (auto simp: well_formed_cong ledger_same intro: exI [of _ Look])
  have row: ?thesis if "row_only i C st st'" "permits d c ks op"
      "\<And>u v. typed_user i u \<Longrightarrow> C u v \<Longrightarrow> typed_user i v"
      "\<And>A u v m. A i = Some (account u m) \<Longrightarrow> typed_user i u \<Longrightarrow> C u v \<Longrightarrow> ledger_step coll op A (A(i \<mapsto> account v m))" for i C op
    using row_step [OF wf that(1), of op] that by blast
  from auth [unfolded authorized_def bound_row_def new_row_def] show ?thesis
  proof (elim disjE conjE exE)
    fix u
    assume c: "route c = (''PUT'', serviceURIPrefix @ ''/web/user-profile'')" "userFromHeaders c = Some u" "AuthUser_Role u = RoleUser"
      and r: "row_only (AuthUser_InternalUserID u) profile_change st st'"
    have "permits d c ks (Edit (AuthUser_InternalUserID u))" unfolding permits.simps using c by blast
    with r show ?thesis by (rule row) (rule typed_edit(1) edit_row, assumption+)+
  next
    fix q
    assume c: "route c = (''GET'', serviceURIPrefix @ ''/kyc/singpass/callback'')" "items ks (Query c ''state'') = Some q"
      and r: "row_only (Pending_InternalUserID q) status_change st st'"
    have "permits d c ks (Verify (Pending_InternalUserID q))" unfolding permits.simps using c by blast
    with r show ?thesis by (rule row) (rule typed_verified verify_row, assumption+)+
  next
    fix clerk email i
    assume c: "route c = (''POST'', serviceURIPrefix @ ''/clerk/callback'')" "verified (dep_Runtime d) (dep_Svix d) c"
      and e: "email \<noteq> []" "\<not> known coll clerk email st" "added clerk email i st st'"
    have "permits d c ks Register" unfolding permits.simps using c by blast
    with well_formed_added [OF wf e(3,1,2)] added_step [OF wf e(3,1,2)] show ?thesis by blast
  next
    assume "st' = st"
    then show ?thesis by (intro look) simp
  qed (rule look, assumption)+
qed

lemma request_step:
  assumes "deployed S coll d w" and "well_formed coll (S w)" and "dispatch (wired d) c (ks, w) = (r, (ks', w'))"
  shows "deployed S coll d w' \<and> well_formed coll (S w')
    \<and> (\<exists>op. permits d c ks op \<and> ledger_step coll op (ledger (S w)) (ledger (S w')))"
  using dispatch_authorized [OF assms(1), of c ks] authorized_step [OF assms(2), of d c ks] assms(3) by (simp add: ends_def)

text \<open>
  C1. The server implements the ledger. Whatever a request is, whatever the clients answer and
  however it ends, its effect on the accounts is one step of the ledger: nothing, a new
  PENDING account whose Clerk id and address no other account has, an edit of name, language
  and market in which the market is chosen at most once, or a KYC verdict; and it is a step
  the request permits: only a webhook that Svix verified registers, only the user himself
  edits, only the owner of the redeemed state is verified. The tables stay well formed.
\<close>

theorem server_refines_ledger:
  assumes "deployed S coll d w" and "well_formed coll (S w)" and "dispatch (wired d) c (ks, w) = (r, (ks', w'))"
  shows "well_formed coll (S w')
    \<and> (\<exists>op. permits d c ks op \<and> ledger_step coll op (ledger (S w)) (ledger (S w')))"
  using request_step [OF assms] by blast

lemma alice_tables:
  "st_users (rw_stores alice_world) = [1 \<mapsto> alice]" "st_mappings (rw_stores alice_world) = [alice_mapping]"
  by (simp_all add: alice_world_def alice_def fun_eq_iff)

lemma alice_well_formed: "well_formed (=) (rw_stores alice_world)"
proof -
  have "int64 1" by (simp add: int64_def)
  moreover have "valid_row alice" "User_KYCStatus alice \<in> {KYCStatusPending, KYCStatusPassed, KYCStatusFailed}" "User_ID alice = 1"
    by code_simp+
  ultimately have "typed_user 1 alice" by (simp add: typed_user_def)
  moreover have "typed_mapping alice_mapping" "Mapping_InternalUserID alice_mapping = 1" by code_simp+
  ultimately show ?thesis by (simp add: well_formed_def typed_tables_def registry_def alice_tables)
qed

theorem server_refines_ledger_witness:
  "\<exists>r ks w. dispatch (wired ref_deployment) alice_put (newMemoryKYCStateStore 0, alice_world) = (r, (ks, w))
    \<and> map_option acc_Name (ledger (rw_stores w) 1) = Some ''bob'' \<and> well_formed (=) (rw_stores w)
    \<and> ledger_step (=) (Edit 1) (ledger (rw_stores alice_world)) (ledger (rw_stores w))"
proof -
  obtain r ks w where run: "dispatch (wired ref_deployment) alice_put (newMemoryKYCStateStore 0, alice_world) = (r, (ks, w))"
    and bob: "map_option User_Name (st_users (rw_stores w) 1) = Some ''bob''"
    using alice_put_updates by blast
  from server_refines_ledger [OF ref_deployed alice_well_formed run] obtain op where wf: "well_formed (=) (rw_stores w)"
    and op: "permits ref_deployment alice_put (newMemoryKYCStateStore 0) op"
      "ledger_step (=) op (ledger (rw_stores alice_world)) (ledger (rw_stores w))" by blast
  from bob obtain u where u: "st_users (rw_stores w) 1 = Some u" "User_Name u = ''bob''" by auto
  obtain m where "ledger (rw_stores w) 1 = Some (account u m)" by (rule ledger_user [OF wf u(1)])
  then have name: "map_option acc_Name (ledger (rw_stores w) 1) = Some ''bob''" using u(2) by (simp add: account_def)
  moreover have "map_option acc_Name (ledger (rw_stores alice_world) 1) = Some ''alice''"
    by (simp add: ledger_def account_def alice_tables alice_def alice_mapping_def)
  ultimately have "ledger (rw_stores w) \<noteq> ledger (rw_stores alice_world)" by auto
  moreover have "route alice_put \<noteq> (''POST'', p)" "route alice_put \<noteq> (''GET'', p)" for p
    unfolding alice_put_route by simp_all
  ultimately have "op = Edit 1"
    using op by (cases op) (auto simp: alice_put_user elim: look_stepE)
  with op(2) name wf run show ?thesis by blast
qed

subsection \<open>Every reachable state\<close>

text \<open>A gRPC read, on a cache that need not be up to date.\<close>

lemma getUserProfileCache_shrinks:
  assumes "cache_client_ok S C"
  shows "runs (getUserProfileCache C J c i) w (\<lambda>_ w'. shrinks (S w) (S w')) Q"
proof (cases C)
  case (Some R)
  then have R: "redis_ok S R" using assms by (simp add: cache_client_ok_def)
  have drop: "runs (seqA (best_effort (redis_Del R c (userProfileCacheKey i))) (ret x)) w1 (\<lambda>_ w'. shrinks (S w) (S w')) Q"
    if "shrinks (S w) (S w1)" for x w1
    by (rule runs_bindA [OF runs_best_effort [OF redis_del_runs [OF R], where R = "\<lambda>_ w'. shrinks (S w) (S w')"]])
      (auto intro: shrinks_trans [OF that])
  show ?thesis
    unfolding getUserProfileCache_def Some
    by (auto intro!: runs_tryA [OF redis_get_runs [OF R]] drop split: sum.split)
qed (simp add: getUserProfileCache_def)

lemma setUserProfileCache_keeps:
  assumes "cache_client_ok S C"
  shows "runs (setUserProfileCache C J c (Some p)) w (\<lambda>_ w'. only_cache profile_key (S w) (S w')) Q"
proof (cases C)
  case (Some R)
  then have R: "redis_ok S R" using assms by (simp add: cache_client_ok_def)
  have put: "only_cache profile_key (S w) (put (userProfileCacheKey j) raw st)" if "shrinks (S w) st" for j raw st
    by (rule only_cache_store [OF that]) (auto simp: profile_key_def)
  show ?thesis
    unfolding setUserProfileCache_def Some
    by (auto split: sum.splits intro: put only_cache_shrink intro!: runs_best_effort [OF redis_set_runs [OF R]])
qed (simp add: setUserProfileCache_def)

context profile_service begin

lemma read_profile_kept:
  assumes "uok" and "mok w" and "cache_client_ok S C"
  shows "runs (svc_GetUserProfile users mappings C J c i) w
    (\<lambda>_ w'. same_tables (S w) (S w') \<and> mok w') (\<lambda>_ w'. same_tables (S w) (S w') \<and> mok w')"
    (is "runs _ w (\<lambda>_. ?P) (\<lambda>_. ?P)")
proof -
  have load: "runs (load_profile users mappings c i) w1 (\<lambda>_. ?P) (\<lambda>_. ?P)"
    if w1: "mok w1" "same_tables (S w) (S w1)" for w1
  proof -
    have same: "mok w2" if "S w2 = S w1" for w2 by (rule mappings.ok_frame [OF w1(1)]) (use that in auto)
    have frame: "same_tables (S w) (S w3)" if "S w2 = S w1" "only_cache mapping_key (S w2) (S w3)" for w2 w3
      using that w1(2) only_cacheD(1,2) by (auto simp: same_tables_def)
    show ?thesis
      unfolding load_profile_def
      by (rule runs_tryA [OF users.get_runs [OF assms(1)]])
        (use same w1 frame in \<open>auto intro!: runs_tryA [OF mappings.internal_runs [OF same]] split: option.split\<close>)
  qed
  have store: "runs (seqA (setUserProfileCache C J c (Some p)) (ret p)) w1 (\<lambda>_. ?P) (\<lambda>_. ?P)"
    if w1: "mok w1" "same_tables (S w) (S w1)" for p w1
    by (rule runs_bindA [OF setUserProfileCache_keeps [OF assms(3), where Q = "\<lambda>_ _. False"]])
      (use w1 mappings.ok_frame [OF w1(1) mappings_kept_profile] in \<open>auto simp: same_tables_def only_cacheD\<close>)
  have miss: "runs (bindA (load_profile users mappings c i) (\<lambda>p. seqA (setUserProfileCache C J c (Some p)) (ret p))) w1 (\<lambda>_. ?P) (\<lambda>_. ?P)"
    if "mok w1" "same_tables (S w) (S w1)" for w1
    by (rule runs_bindA [OF load [OF that]]) (auto intro: store)
  have shr: "mok w1 \<and> same_tables (S w) (S w1)" if "shrinks (S w) (S w1)" for w1
    using mappings.ok_frame [OF assms(2) mappings_kept_shrinks [OF that]] shrinksD(1,2) [OF that] by (simp add: same_tables_def)
  show ?thesis
    unfolding svc_GetUserProfile_def
    using assms(2) by (auto intro!: runs_bindA [OF getUserProfileCache_shrinks [OF assms(3), where Q = "\<lambda>_ _. False"]] miss
        dest: shr split: option.split)
qed

end

lemma same_tables_trans: "same_tables a b \<Longrightarrow> same_tables b c \<Longrightarrow> same_tables a c"
  by (simp add: same_tables_def)

lemma rpc_kept:
  assumes dep: "deployed S coll d w"
    and run: "served_GetUserProfile (dep_Runtime d) code (UserDaoImpl (Some (dep_DB d)))
      (UserAuthMappingDaoImpl (Some (dep_DB d)) (dep_Redis d) (dep_MappingJson d)) (dep_Redis d) J c i w = (r, w')"
  shows "deployed S coll d w' \<and> same_tables (S w) (S w')"
proof -
  let ?mok = "mapping_world_ok S coll (Some (dep_DB d)) (dep_Redis d) (dep_MappingJson d)"
  let ?P = "\<lambda>w'. same_tables (S w) (S w') \<and> ?mok w'"
  let ?svc = "svc_GetUserProfile (UserDaoImpl (Some (dep_DB d)))
      (UserAuthMappingDaoImpl (Some (dep_DB d)) (dep_Redis d) (dep_MappingJson d)) (dep_Redis d) J"
  note D = deployedD [OF dep]
  have frame: "?mok w2" if "?mok w1" "S w2 = S w1" for w1 w2
    by (rule mappings_impl.ok_frame [OF that(1)]) (use that(2) in auto)
  have "runs (grpc_GetUserProfile (NewIdentityService ?svc None) c i) w1 (\<lambda>_ w'. ?P w') (\<lambda>_ w'. ?P w')"
    if w1: "S w1 = S w" for w1
    unfolding grpc_GetUserProfile_def NewIdentityService_def option.case
    by (rule runs_tryA [OF profiles_impl.read_profile_kept [OF D(7) frame [OF D(9) w1] D(8)]]) (auto simp: w1)
  then have "runs (served_GetUserProfile (dep_Runtime d) code (UserDaoImpl (Some (dep_DB d)))
      (UserAuthMappingDaoImpl (Some (dep_DB d)) (dep_Redis d) (dep_MappingJson d)) (dep_Redis d) J c i) w (\<lambda>_ w'. ?P w') (\<lambda>_ w'. ?P w')"
    unfolding served_GetUserProfile_def by (rule interceptor_runs [OF D(6)]) (use frame in auto)
  then have "?P w'" using run by (cases r) (auto simp: runs_def)
  then show ?thesis using deployed_mappings [OF dep] by blast
qed

text \<open>
  The life of the deployment: a request is dispatched, a gRPC call is served, the process
  starts again and forgets the pending attempts, entries leave the cache (and with them
  anything else of the world may change, as long as the servers store the same).
\<close>

inductive server_step ::
    "('e \<Rightarrow> Stores) \<Rightarrow> ('e, 'k, 's) Deployment \<Rightarrow> UserProfileAggregate Codec
      \<Rightarrow> memoryKYCStateStore \<times> 'e \<Rightarrow> memoryKYCStateStore \<times> 'e \<Rightarrow> bool"
  for S :: "'e \<Rightarrow> Stores" and d :: "('e, 'k, 's) Deployment" and J :: "UserProfileAggregate Codec" where
  request: "dispatch (wired d) c (ks, w) = (r, (ks', w')) \<Longrightarrow> server_step S d J (ks, w) (ks', w')"
| rpc: "served_GetUserProfile (dep_Runtime d) code (UserDaoImpl (Some (dep_DB d)))
      (UserAuthMappingDaoImpl (Some (dep_DB d)) (dep_Redis d) (dep_MappingJson d)) (dep_Redis d) J x i w = (resp, w')
    \<Longrightarrow> server_step S d J (ks, w) (ks, w')"
| restart: "server_step S d J (ks, w) (newMemoryKYCStateStore ttl, w)"
| elapse: "shrinks (S w) (S w') \<Longrightarrow> server_step S d J (ks, w) (ks, w')"

inductive_cases server_stepE: "server_step S d J sw sw'"

text \<open>What no operation of the ledger ever takes back.\<close>

definition persists :: "Ledger \<Rightarrow> Ledger \<Rightarrow> bool" where
  "persists A A' \<longleftrightarrow> (\<forall>i a. A i = Some a \<longrightarrow> (\<exists>a'. A' i = Some a' \<and> acc_Clerk a' = acc_Clerk a \<and> acc_Email a' = acc_Email a
     \<and> (acc_Market a \<noteq> [] \<longrightarrow> acc_Market a' = acc_Market a) \<and> (acc_KYC a \<noteq> KYCStatusPending \<longrightarrow> acc_KYC a' \<noteq> KYCStatusPending)))"

lemma persists_refl [simp]: "persists A A"
  by (simp add: persists_def)

lemma persists_trans: "persists A B \<Longrightarrow> persists B C \<Longrightarrow> persists A C"
  unfolding persists_def by metis

lemma ledger_step_persists: "ledger_step coll op A A' \<Longrightarrow> persists A A'"
  by (induction rule: ledger_step.induct) (auto simp: persists_def)

lemma server_step_kept:
  assumes "server_step S d J sw sw'" and "deployed S coll d (snd sw)" and "well_formed coll (S (snd sw))"
  shows "deployed S coll d (snd sw') \<and> well_formed coll (S (snd sw')) \<and> persists (ledger (S (snd sw))) (ledger (S (snd sw')))"
  using assms
proof (cases rule: server_step.cases)
  case (request c ks w r ks' w')
  with request_step [of S coll d w c ks r ks' w'] ledger_step_persists assms(2,3) show ?thesis by auto
next
  case (rpc code x i w resp w' ks)
  with rpc_kept [of S coll d w code J x i resp w'] assms(2,3) well_formed_cong [of "S w" "S w'" coll] ledger_same [of "S w" "S w'"]
  show ?thesis by simp
next
  case (elapse w w' ks)
  have "same_tables (S w) (S w')" using shrinksD(1,2) [OF elapse(3)] by (simp add: same_tables_def)
  then show ?thesis
    using elapse assms(2,3) well_formed_cong [of "S w" "S w'" coll] ledger_same [of "S w" "S w'"]
      deployed_kept [of S coll d w w'] mappings_kept_shrinks [OF elapse(3)] by simp
qed simp

lemma server_steps_kept:
  assumes "(server_step S d J)\<^sup>*\<^sup>* sw sw'" and "deployed S coll d (snd sw)" and "well_formed coll (S (snd sw))"
  shows "deployed S coll d (snd sw') \<and> well_formed coll (S (snd sw')) \<and> persists (ledger (S (snd sw))) (ledger (S (snd sw')))"
  using assms(1)
proof (induction rule: rtranclp_induct)
  case (step y z)
  with server_step_kept [OF step(2)] persists_trans show ?case by blast
qed (use assms in simp)

text \<open>
  C5. Every state the deployment reaches from empty tables is well formed: each user has exactly
  one mapping and each mapping its user, no two accounts share a Clerk id or an address, ids
  are positive and fit 64 bits, and market, language, status and role are always among the
  values the service defines. Requests, gRPC calls, restarts and expiring entries may follow
  one another in any order, and fail.
\<close>

theorem reachable_states_well_formed:
  assumes "deployed S coll d w" and "st_users (S w) = Map.empty" and "st_mappings (S w) = []"
    and "(server_step S d J)\<^sup>*\<^sup>* (ks, w) (ks', w')"
  shows "well_formed coll (S w')"
proof -
  have "well_formed coll (S w)" using assms(2,3) by (simp add: well_formed_def typed_tables_def registry_def)
  with server_steps_kept [OF assms(4)] assms(1) show ?thesis by auto
qed

text \<open>
  C6. What an account promises its owner lasts: in any further life of the deployment an
  account is never lost or moved to another id, keeps its Clerk id and its address, keeps
  the market once one is chosen, and never returns to PENDING after a verdict.
\<close>

theorem accounts_persist:
  assumes "deployed S coll d w" and "well_formed coll (S w)" and "(server_step S d J)\<^sup>*\<^sup>* (ks, w) (ks', w')"
    and "ledger (S w) i = Some a"
  shows "\<exists>a'. ledger (S w') i = Some a' \<and> acc_Clerk a' = acc_Clerk a \<and> acc_Email a' = acc_Email a
    \<and> (acc_Market a \<noteq> [] \<longrightarrow> acc_Market a' = acc_Market a)
    \<and> (acc_KYC a \<noteq> KYCStatusPending \<longrightarrow> acc_KYC a' \<noteq> KYCStatusPending)"
  using server_steps_kept [OF assms(3)] assms(1,2,4) by (simp add: persists_def)

subsection \<open>Witnesses\<close>

definition bob_hook :: "Payload Gin" where
  "bob_hook = incoming ''POST'' ''/clerk/callback'' []
     [(''Svix-Id'', ''m1''), (''Svix-Signature'', ''v1''), (''Svix-Timestamp'', ''1''), (''X-Request-Id'', ''r1'')]"

lemma bob_hook_registers:
  "\<exists>r ks w. dispatch (wired ref_deployment) bob_hook (newMemoryKYCStateStore 0, ref_world [] []) = (r, (ks, w))
    \<and> map_option acc_Email (ledger (rw_stores w) 1) = Some ''bob@example.com''"
proof -
  let ?run = "GetUserMappingService_CreateUser ref_gorm (Some ref_redis) ref_mapping_codec still_ref ref_registered_codec
    (kafkaProducerImpl_Publish still_ref ref_kafka) (req_ctx (seen bob_hook)) (Request_Data ref_event) (ref_world [] [])"
  have route: "route bob_hook = (''POST'', serviceURIPrefix @ ''/clerk/callback'')"
    by (simp add: bob_hook_def incoming_def new_Gin_def)
  have heads: "GetHeader bob_hook RequestIDHeader = ''r1''" "GetHeader bob_hook ''svix-id'' \<noteq> []"
    "GetHeader bob_hook ''svix-signature'' \<noteq> []" "GetHeader bob_hook ''svix-timestamp'' \<noteq> []"
    "ClerkUserID (Request_Data ref_event) \<noteq> []" "EmailAddress (Request_Data ref_event) \<noteq> []"
    by code_simp+
  have body: "In_Body (g_Request bob_hook) = ([], None)" "req_ctx bob_hook = Background"
    by (simp_all add: bob_hook_def incoming_def new_Gin_def req_ctx_def)
  have bob: "map_option acc_Email (ledger (rw_stores (snd ?run)) 1) = Some ''bob@example.com''"
    by code_simp
  obtain x where data: "Request_Type ref_event = ''user.created''" "Request_Data ref_event = Some x" by (simp add: ref_event_def)
  show ?thesis
    unfolding dispatch_at [OF route route_lookup(1)] public_def wired_simps(1) ref_deployment_simps(5) known_request_id [OF heads(1)]
    using bob heads body data
    by (cases ?run; cases "fst ?run") (simp_all add: ClerkCallback_def Let_def ReadAll_capped_def maxClerkWebhookBody_def
        lenient_svix_def lift_svix_def onSnd_def tryA_def ret_def)
qed

theorem reachable_states_well_formed_witness:
  "\<exists>ks w. (server_step rw_stores ref_deployment ref_profile_codec)\<^sup>*\<^sup>* (newMemoryKYCStateStore 0, ref_world [] []) (ks, w)
    \<and> map_option acc_Email (ledger (rw_stores w) 1) = Some ''bob@example.com'' \<and> well_formed (=) (rw_stores w)"
proof -
  obtain r ks w where run: "dispatch (wired ref_deployment) bob_hook (newMemoryKYCStateStore 0, ref_world [] []) = (r, (ks, w))"
    and bob: "map_option acc_Email (ledger (rw_stores w) 1) = Some ''bob@example.com''"
    using bob_hook_registers by blast
  have steps: "(server_step rw_stores ref_deployment ref_profile_codec)\<^sup>*\<^sup>* (newMemoryKYCStateStore 0, ref_world [] []) (ks, w)"
    using server_step.request [OF run] by blast
  have "deployed rw_stores (=) ref_deployment (ref_world [] [])"
    by (rule deployed_mappings [OF ref_deployed]) (simp add: ref_mapping_world)
  moreover have "st_users (rw_stores (ref_world [] [])) = Map.empty" "st_mappings (rw_stores (ref_world [] [])) = []"
    by (simp_all add: fun_eq_iff)
  ultimately have "well_formed (=) (rw_stores w)" by (rule reachable_states_well_formed [OF _ _ _ steps])
  with steps bob show ?thesis by blast
qed

theorem accounts_persist_witness:
  "\<exists>ks w a. (server_step rw_stores ref_deployment ref_profile_codec)\<^sup>*\<^sup>* (newMemoryKYCStateStore 0, alice_world) (ks, w)
    \<and> ledger (rw_stores w) 1 = Some a \<and> acc_Name a = ''bob'' \<and> acc_Clerk a = ''user_1'' \<and> acc_Email a = ''alice@example.com''"
proof -
  obtain r ks w where run: "dispatch (wired ref_deployment) alice_put (newMemoryKYCStateStore 0, alice_world) = (r, (ks, w))"
    and bob: "map_option User_Name (st_users (rw_stores w) 1) = Some ''bob''"
    using alice_put_updates by blast
  have steps: "(server_step rw_stores ref_deployment ref_profile_codec)\<^sup>*\<^sup>* (newMemoryKYCStateStore 0, alice_world) (ks, w)"
    using server_step.request [OF run] by blast
  have "ledger (rw_stores alice_world) 1 = Some (account alice alice_mapping)"
    by (simp add: ledger_def alice_tables alice_mapping_def)
  from accounts_persist [OF ref_deployed alice_well_formed steps this]
  obtain a where a: "ledger (rw_stores w) 1 = Some a" "acc_Clerk a = ''user_1''" "acc_Email a = ''alice@example.com''"
    by (auto simp: account_def alice_mapping_def)
  moreover have "acc_Name a = ''bob''" using a(1) bob by (auto simp: ledger_def account_def split: option.splits)
  ultimately show ?thesis using steps by blast
qed

end
