(* ===== verification/Concurrency.thy ===== *)
theory Concurrency
  imports Accounts "HOL-Library.Multiset"
begin

section \<open>Requests that overlap\<close>

text \<open>
  The server handles requests concurrently, and no lock or transaction spans a whole request.
  Here the calls of the services are cut where another request may run in between: an update
  between its read and its write, a registration between its two lookups and its transaction,
  a callback between redeeming its state, asking Singpass and writing the verdict. A state is
  the multiset of the calls under way, the store in memory and the world. What the tables
  keep under every interleaving is proved; what they do not keep is shown by a run.
\<close>

subsection \<open>The pieces\<close>

datatype Job =
    Planned int "User option"
  | Unseen string string
  | Unknown string string
  | Redeemed KYCPending
  | Verdict int string

text \<open>What a piece leaves to be done: \<open>f\<close> of its value, nothing when it fails.\<close>

definition spawn :: "'a res \<Rightarrow> ('a \<Rightarrow> Job multiset) \<Rightarrow> Job multiset" where
  "spawn r f = (case r of Ok a \<Rightarrow> f a | _ \<Rightarrow> {#})"

abbreviation dep_users :: "('e, 'k, 's) Deployment \<Rightarrow> 'e UserDao" where
  "dep_users d \<equiv> UserDaoImpl (Some (dep_DB d))"

abbreviation dep_mappings :: "('e, 'k, 's) Deployment \<Rightarrow> 'e UserAuthMappingDao" where
  "dep_mappings d \<equiv> UserAuthMappingDaoImpl (Some (dep_DB d)) (dep_Redis d) (dep_MappingJson d)"

abbreviation dep_publish :: "('e, 'k, 's) Deployment \<Rightarrow> 'e KafkaProducer" where
  "dep_publish d \<equiv> kafkaProducerImpl_Publish (dep_Runtime d) (dep_Kafka d)"

definition dep_register ::
    "('e, 'k, 's) Deployment \<Rightarrow> ctx \<Rightarrow> string \<Rightarrow> string \<Rightarrow> ('e, unit) act" where
  "dep_register d = register_new (dep_mappings d) (dep_users d) (gorm_Transaction (dep_DB d))
     (PublishUserRegistered (dep_Runtime d) (dep_RegisteredJson d) (dep_publish d)) (dep_Runtime d) (dep_Redis d)"

definition dep_proxy :: "('e, 'k, 's) Deployment \<Rightarrow> (memoryKYCStateStore \<times> 'e) SingpassProxy" where
  "dep_proxy d = lift_proxy (singpassProxy (dep_Singpass d) (dep_Runtime d) (dep_Http d) (dep_Jose d) (dep_SingpassJson d) (dep_Keys d))"

definition dep_ask :: "('e, 'k, 's) Deployment \<Rightarrow> ctx \<Rightarrow> string \<Rightarrow> (memoryKYCStateStore \<times> 'e, UserInfo option) act" where
  "dep_ask d c code = bindA (proxy_GetAccessToken (dep_proxy d) (workCtx c) code)
     (proxy_GetUserInfo (dep_proxy d) (workCtx c))"

definition dep_complete :: "('e, 'k, 's) Deployment \<Rightarrow> ctx \<Rightarrow> int \<Rightarrow> string \<Rightarrow> (memoryKYCStateStore \<times> 'e, unit) act" where
  "dep_complete d c = complete_kyc (lift_users (dep_users d)) (map_option lift_redis (dep_Redis d)) (lift_runtime (dep_Runtime d))
     (\<lambda>c i s t. onSnd (PublishUserKYCComplete (dep_Runtime d) (dep_KYCJson d) (dep_publish d) c i s t)) (workCtx c)"

definition mismatch :: "('e, 'k, 's) Deployment \<Rightarrow> KYCPending \<Rightarrow> UserInfo option \<Rightarrow> bool" where
  "mismatch d q ui \<longleftrightarrow> Pending_Email q \<noteq> [] \<and> \<not> emailsMatchForKYC (dep_orbit d) (Pending_Email q) (singpassEmail ui)"

type_synonym 'e busy = "Job multiset \<times> memoryKYCStateStore \<times> 'e"

inductive job_step :: "('e, 'k, 's) Deployment \<Rightarrow> 'e busy \<Rightarrow> 'e busy \<Rightarrow> bool" for d :: "('e, 'k, 's) Deployment" where
  plan: "plan_update (dep_users d) c i req w = (r, w')
    \<Longrightarrow> job_step d (js, ks, w) (spawn r (\<lambda>p. {# Planned i p #}) + js, ks, w')"
| finish: "finish_update (dep_users d) (dep_Redis d) c i p w = (r, w')
    \<Longrightarrow> job_step d (add_mset (Planned i p) js, ks, w) (js, ks, w')"
| find_clerk: "email \<noteq> [] \<Longrightarrow> dao_GetByClerkUserID (dep_mappings d) c clerk w = (r, w')
    \<Longrightarrow> job_step d (js, ks, w) (spawn r (\<lambda>m. if m = None then {# Unseen clerk email #} else {#}) + js, ks, w')"
| find_email: "dao_GetByEmail (dep_mappings d) c email w = (r, w')
    \<Longrightarrow> job_step d (add_mset (Unseen clerk email) js, ks, w)
          (spawn r (\<lambda>m. if m = None then {# Unknown clerk email #} else {#}) + js, ks, w')"
| register: "dep_register d c clerk email w = (r, w')
    \<Longrightarrow> job_step d (add_mset (Unknown clerk email) js, ks, w) (js, ks, w')"
| redeem: "memory_Consume (dep_Runtime d) state (ks, w) = (q, (ks', w'))
    \<Longrightarrow> job_step d (js, ks, w) ((case q of None \<Rightarrow> {#} | Some q \<Rightarrow> {# Redeemed q #}) + js, ks', w')"
| judge: "dep_ask d c code (ks, w) = (r, (ks', w'))
    \<Longrightarrow> job_step d (add_mset (Redeemed q) js, ks, w)
          (spawn r (\<lambda>ui. if mismatch d q ui then {#} else {# Verdict (Pending_InternalUserID q) (kycStatusFor ui) #}) + js, ks', w')"
| complete: "dep_complete d c i s (ks, w) = (r, (ks', w'))
    \<Longrightarrow> job_step d (add_mset (Verdict i s) js, ks, w) (js, ks', w')"
| whole: "dispatch (wired d) c (ks, w) = (r, (ks', w')) \<Longrightarrow> job_step d (js, ks, w) (js, ks', w')"

inductive_cases job_stepE: "job_step d b b'"

subsection \<open>The service calls are made of these pieces\<close>

lemma plan_finish: "svc_UpdateProfile users C c i req = bindA (plan_update users c i req) (finish_update users C c i)"
  by (simp add: svc_UpdateProfile_def)

lemma spawn_simps [simp]: "spawn (Ok a) f = f a" "spawn (Err e) f = {#}" "spawn (Panicked m) f = {#}"
  by (simp_all add: spawn_def)

lemma then_step: "job_step d a b \<Longrightarrow> (job_step d)\<^sup>*\<^sup>* b c \<Longrightarrow> (job_step d)\<^sup>*\<^sup>* a c"
  by (rule converse_rtranclp_into_rtranclp)

text \<open>Run without interruption, the pieces of a service call do what the call does.\<close>

lemma update_is_jobs:
  assumes "svc_UpdateProfile (dep_users d) (dep_Redis d) c i req w = (r, w')"
  shows "(job_step d)\<^sup>*\<^sup>* (js, ks, w) (js, ks, w')"
proof (cases rule: res_cases3 [of "plan_update (dep_users d) c i req" w])
  case (Ok p w1)
  then have "finish_update (dep_users d) (dep_Redis d) c i p w1 = (r, w')" using assms by (simp add: plan_finish bindA_step)
  from job_step.plan [OF Ok, of js ks] job_step.finish [OF this, of js ks] show ?thesis by (auto intro: then_step)
qed (use assms job_step.plan in \<open>fastforce simp: plan_finish bindA_step\<close>)+

lemma registration_is_jobs:
  assumes "GetUserMappingService_CreateUser (dep_DB d) (dep_Redis d) (dep_MappingJson d) (dep_Runtime d) (dep_RegisteredJson d)
    (dep_publish d) c data w = (r, w')"
  shows "(job_step d)\<^sup>*\<^sup>* (js, ks, w) (js, ks, w')"
proof -
  define clerk email where ids: "clerk = ClerkUserID data" "email = EmailAddress data"
  have run: "(if email = [] then ret () else bindA (dao_GetByClerkUserID (dep_mappings d) c clerk) (\<lambda>existing.
       if existing \<noteq> None then ret () else bindA (dao_GetByEmail (dep_mappings d) c email) (\<lambda>userMapping.
         if userMapping \<noteq> None then ret () else dep_register d c clerk email))) w = (r, w')"
    using assms unfolding GetUserMappingService_CreateUser_def svc_CreateUser_def Let_def dep_register_def ids .
  show ?thesis
  proof (cases "email = []")
    case True
    then show ?thesis using run by (simp add: act_simps)
  next
    case False
    obtain r1 w1 where one: "dao_GetByClerkUserID (dep_mappings d) c clerk w = (r1, w1)" by fastforce
    note step1 = job_step.find_clerk [OF False one, of js ks]
    show ?thesis
    proof (cases "r1 = Ok None")
      case False
      with step1 run one \<open>email \<noteq> []\<close> show ?thesis by (cases r1) (auto simp: act_simps)
    next
      case True
      obtain r2 w2 where two: "dao_GetByEmail (dep_mappings d) c email w1 = (r2, w2)" by fastforce
      note step2 = job_step.find_email [OF two, of clerk js ks]
      show ?thesis
      proof (cases "r2 = Ok None")
        case False
        with step1 step2 run one two True \<open>email \<noteq> []\<close> show ?thesis by (cases r2) (auto simp: act_simps intro: then_step)
      next
        case True
        then have "dep_register d c clerk email w2 = (r, w')" using run one two \<open>r1 = Ok None\<close> \<open>email \<noteq> []\<close> by (simp add: act_simps)
        from job_step.register [OF this, of js ks] step1 step2 True \<open>r1 = Ok None\<close> show ?thesis by (auto intro: then_step)
      qed
    qed
  qed
qed

lemma verify_attempt_pieces:
  "verify_attempt (dep_proxy d) (lift_users (dep_users d)) kycComplete C R (dep_orbit d) c code = (\<lambda>q.
    bindA (dep_ask d c code) (\<lambda>ui. if mismatch d q ui then throw ErrKYCEmailMismatch
      else complete_kyc (lift_users (dep_users d)) C R kycComplete (workCtx c) (Pending_InternalUserID q) (kycStatusFor ui)))"
  by (simp add: fun_eq_iff verify_attempt_def dep_ask_def mismatch_def bindA_assoc)

lemma callback_is_jobs:
  assumes "app_SingpassCallback (wired d) c code state (ks, w) = (r, (ks', w'))"
  shows "(job_step d)\<^sup>*\<^sup>* (js, ks, w) (js, ks', w')"
proof -
  have run: "bindA (\<lambda>sw. case memory_Consume (dep_Runtime d) state sw of (p, sw') \<Rightarrow> (Ok p, sw')) (\<lambda>pending. case pending of
      None \<Rightarrow> throw ErrInvalidOAuthState
    | Some q \<Rightarrow> bindA (dep_ask d c code) (\<lambda>ui. if mismatch d q ui then throw ErrKYCEmailMismatch
        else dep_complete d c (Pending_InternalUserID q) (kycStatusFor ui))) (ks, w) = (r, (ks', w'))"
    using assms unfolding wired_simps GetKYCService_Callback_def svc_SingpassCallback_def dep_complete_def
    by (simp add: dep_proxy_def [symmetric] verify_attempt_pieces consumeA_def memory_store_def)
  obtain p ks1 w1 where one: "memory_Consume (dep_Runtime d) state (ks, w) = (p, (ks1, w1))" by (metis prod.exhaust)
  note step1 = job_step.redeem [OF one, of js]
  show ?thesis
  proof (cases p)
    case None
    then show ?thesis using run one step1 by (auto simp: bindA_def throw_def)
  next
    case (Some q)
    obtain r2 ks2 w2 where two: "dep_ask d c code (ks1, w1) = (r2, (ks2, w2))" by (metis prod.exhaust)
    note step2 = job_step.judge [OF two, of q js]
    have rest: "bindA (dep_ask d c code) (\<lambda>ui. if mismatch d q ui then throw ErrKYCEmailMismatch
        else dep_complete d c (Pending_InternalUserID q) (kycStatusFor ui)) (ks1, w1) = (r, (ks', w'))"
      using run one Some by (simp add: bindA_def)
    show ?thesis
    proof (cases "\<exists>ui. r2 = Ok ui \<and> \<not> mismatch d q ui")
      case False
      with rest two step1 step2 Some show ?thesis by (cases r2) (auto simp: act_simps intro: then_step)
    next
      case True
      then obtain ui where ui: "r2 = Ok ui" "\<not> mismatch d q ui" by blast
      with rest two have "dep_complete d c (Pending_InternalUserID q) (kycStatusFor ui) (ks2, w2) = (r, (ks', w'))"
        by (simp add: act_simps)
      from job_step.complete [OF this, of js] step1 step2 Some ui show ?thesis by (auto intro: then_step)
    qed
  qed
qed

subsection \<open>What the tables keep\<close>

text \<open>A late registration of a Clerk id that has been given away is undone by the database.\<close>

context registration begin

lemma register_new_known:
  assumes ok: "uok" "tok" "runtime_ok S R" and mok: "mok w1" and known: "mapping_of coll (clerk_user_id_eq clerk) (S w1) \<noteq> None"
  shows "runs (register_new mappings users tx registered R C c clerk email) w1
    (\<lambda>_ _. False) (\<lambda>_ w'. mok w' \<and> same_tables (S w1) (S w'))"
  unfolding register_new_def
proof (rule runs_bindA [OF runs_randomGenName [OF ok(3)]], rule runs_bindA [OF runs_now [OF ok(3), where Q = "\<lambda>_ _. False"]])
  fix name w2 t w3
  assume "S w2 = S w1" "S w3 = S w2"
  then have w3: "mok w3" "S w3 = S w1" using mok_same [OF mok] by simp_all
  let ?u = "zero_User\<lparr>User_Name := name, User_KYCStatus := KYCStatusPending, User_CreatedAt := t\<rparr>"
  have body: "runs (create_both mappings users c clerk email ?u) w0 (\<lambda>_ _. False)
      (\<lambda>_ w'. cache_le (S w3) (S w') \<and> st_events (S w') = st_events (S w3))" if "S w0 = S w3" for w0
    by (rule runs_mono [OF create_both_runs [OF ok(1) mok_same [OF w3(1) that]]]) (use known that w3(2) in simp_all)
  show "runs (bindA (tx c (create_both mappings users c clerk email ?u))
      (\<lambda>user. seqA (InvalidateUserProfileCache C c (User_ID user)) (registered c (User_ID user) (User_CreatedAt user)))) w3
    (\<lambda>_ _. False) (\<lambda>_ w'. mok w' \<and> same_tables (S w1) (S w'))"
  proof (rule runs_bindA [OF tx.tx_runs [OF ok(2) body]])
    fix e w4
    assume "outside e \<and> S w4 = S w3 \<or> (\<exists>u w5. False \<and> outside e \<and> (S w4 = S w5 \<or> S w4 = roll_back (S w3) (S w5)))
      \<or> (\<exists>w5. (cache_le (S w3) (S w5) \<and> st_events (S w5) = st_events (S w3)) \<and> S w4 = roll_back (S w3) (S w5))"
    then show "mok w4 \<and> same_tables (S w1) (S w4)"
      using mok_same [OF w3(1)] unregistered_rolled_back [OF w3(1), of w4] w3(2)
      by (auto simp: same_tables_def)
  qed auto
qed auto

lemma register_new_tables:
  assumes ok: "uok" "tok" "pok" "runtime_ok S R" "cache_client_ok S C" and mok: "mok w1"
  shows "runs (register_new mappings users tx registered R C c clerk email) w1
    (\<lambda>_ w'. mok w' \<and> (same_tables (S w1) (S w') \<or> mapping_of coll (clerk_user_id_eq clerk) (S w1) = None \<and> (\<exists>i. added clerk email i (S w1) (S w'))))
    (\<lambda>_ w'. mok w' \<and> (same_tables (S w1) (S w') \<or> mapping_of coll (clerk_user_id_eq clerk) (S w1) = None \<and> (\<exists>i. added clerk email i (S w1) (S w'))))"
proof (cases "mapping_of coll (clerk_user_id_eq clerk) (S w1) = None")
  case True
  then show ?thesis by (intro runs_mono [OF register_new_runs [OF ok mok]]) (auto simp: unregistered_def)
next
  case False
  then show ?thesis by (intro runs_mono [OF register_new_known [OF ok(1,2,4) mok]]) auto
qed

end

context profile_service begin

lemma finish_update_runs:
  assumes "uok" and "cache_client_ok S C" and "\<And>u. p = Some u \<Longrightarrow> User_ID u = 0"
  shows "runs (finish_update users C c i p) w
    (\<lambda>_ w'. S w' = S w \<or> (\<exists>u. p = Some u \<and> shrinks (update_user i u (S w)) (S w')))
    (\<lambda>_ w'. S w' = S w \<or> (\<exists>u. p = Some u \<and> shrinks (update_user i u (S w)) (S w')))"
    (is "runs _ w (\<lambda>_. ?P) (\<lambda>_. ?P)")
proof (cases p)
  case (Some u)
  have "runs (InvalidateUserProfileCache C c i) w1 (\<lambda>_. ?P) (\<lambda>_. ?P)" if "S w1 = update_user i u (S w)" for w1
    by (rule runs_mono [OF InvalidateUserProfileCache_runs [OF assms(2), where Q = "\<lambda>_ _. False"]]) (use that Some in auto)
  then show ?thesis
    unfolding finish_update_def Some option.case
    by (intro runs_bindA [OF users.profile_runs [OF assms(1) assms(3) [OF Some]]]) (auto simp: Some)
qed (simp add: finish_update_def)

end

definition update_ok :: "User option \<Rightarrow> bool" where
  "update_ok p \<longleftrightarrow> (\<forall>u. p = Some u \<longrightarrow> User_ID u = 0 \<and> User_KYCStatus u = [] \<and> valid_row u)"

fun job_ok :: "Job \<Rightarrow> bool" where
  "job_ok (Planned i p) = update_ok p"
| "job_ok (Unseen clerk email) = (email \<noteq> [])"
| "job_ok (Unknown clerk email) = (email \<noteq> [])"
| "job_ok (Redeemed q) = True"
| "job_ok (Verdict i s) = (s \<in> {KYCStatusPassed, KYCStatusFailed})"

definition busy_ok :: "('e \<Rightarrow> Stores) \<Rightarrow> (string \<Rightarrow> string \<Rightarrow> bool) \<Rightarrow> ('e, 'k, 's) Deployment \<Rightarrow> 'e busy \<Rightarrow> bool" where
  "busy_ok S coll d = (\<lambda>(js, ks, w). deployed S coll d w \<and> typed_tables coll (S w) \<and> (\<forall>j \<in># js. job_ok j))"

lemma typed_merge: "typed_user i u \<Longrightarrow> update_ok (Some p) \<Longrightarrow> typed_user i (merge_User p u)"
  by (auto simp: typed_user_def update_ok_def valid_row_def nonzero_def)

lemma typed_update:
  assumes "typed_tables coll st" and "update_ok (Some p)" and "shrinks (update_user i p st) st'"
  shows "typed_tables coll st'"
proof (cases "st_users st i")
  case None
  then have "same_tables st st'" using shrinksD(1,2) [OF assms(3)] by (auto simp: same_tables_def fun_eq_iff)
  then show ?thesis using assms(1) by (simp add: typed_tables_cong)
next
  case (Some u)
  then have "typed_user i u" using assms(1) by (simp add: typed_tables_def)
  from typed_tables_row [OF assms(1) Some typed_merge [OF this assms(2)]] show ?thesis
    using shrinksD(1,2) [OF assms(3)] updated_row(1) [OF Some] by simp
qed

lemma typed_row_only:
  assumes typed: "typed_tables coll st" and row: "row_only i C st st'"
    and "\<And>u v. typed_user i u \<Longrightarrow> C u v \<Longrightarrow> typed_user i v"
  shows "typed_tables coll st'"
proof -
  have maps: "st_mappings st' = st_mappings st" using row by (simp add: row_only_def mappings_kept_def)
  consider "same_tables st st'" | u v where "st_users st i = Some u" "C u v" "st_users st' = (st_users st)(i \<mapsto> v)"
    using row maps unfolding row_only_def same_tables_def by blast
  then show ?thesis
  proof cases
    case 1
    then show ?thesis using typed by (simp add: typed_tables_cong)
  next
    case 2
    then have "typed_user i u" using typed by (simp add: typed_tables_def)
    from typed_tables_row [OF typed 2(1) assms(3) [OF this 2(2)] 2(3) maps] show ?thesis .
  qed
qed

lemma authorized_typed:
  assumes typed: "typed_tables coll st" and auth: "authorized coll d c ks st st'"
  shows "typed_tables coll st'"
proof -
  have same: ?thesis if "same_tables st st'" using typed that by (simp add: typed_tables_cong)
  have edit: ?thesis if "row_only i profile_change st st'" for i by (rule typed_row_only [OF typed that typed_edit(1)])
  have verdict: ?thesis if "row_only i status_change st st'" for i by (rule typed_row_only [OF typed that typed_verified])
  have new: ?thesis if "email \<noteq> []" "\<not> known coll clerk email st" "added clerk email i st st'" for clerk email i
    using typed_tables_added [OF typed that(3,1)] that(2) by (simp add: known_def)
  from auth [unfolded authorized_def bound_row_def new_row_def] show ?thesis
    by (elim disjE conjE exE) (use typed in \<open>simp_all only: same edit verdict new\<close>)
qed

lemma only_cache_same_tables: "only_cache K st st' \<Longrightarrow> same_tables st st'"
  by (simp add: same_tables_def only_cacheD)

lemma busy_same:
  assumes "deployed S coll d w" and "typed_tables coll (S w)" and "S w' = S w" and "\<forall>j \<in># js'. job_ok j"
  shows "busy_ok S coll d (js', ks', w')"
  using assms deployed_frame by (auto simp: busy_ok_def)

lemma spawn_ok: "(\<And>a. r = Ok a \<Longrightarrow> \<forall>j \<in># f a. job_ok j) \<Longrightarrow> \<forall>j \<in># spawn r f. job_ok j"
  by (cases r) auto

lemma runs_both: "runs m w (\<lambda>_. T) (\<lambda>_. T) \<Longrightarrow> m w = (r, w') \<Longrightarrow> T w'"
  by (cases r) (auto simp: runs_def)

lemma plan_kept:
  assumes "deployed S coll d w" and "plan_update (dep_users d) c i req w = (r, w')"
  shows "S w' = S w \<and> (\<forall>p. r = Ok p \<longrightarrow> update_ok p)"
proof -
  have "update_ok (if requested u rq = zero_User then None else Some (requested u rq))" if "request_error u rq = None" for u rq
    using request_error_None [OF that] by (auto simp: update_ok_def valid_row_def)
  then show ?thesis
    using profiles_impl.plan_update_runs [OF deployedD(7) [OF assms(1)], of c i req w] assms(2)
    by (cases r) (auto simp: runs_def)
qed

lemma finish_kept:
  assumes dep: "deployed S coll d w" and typed: "typed_tables coll (S w)" and p: "update_ok p"
    and run: "finish_update (dep_users d) (dep_Redis d) c i p w = (r, w')"
  shows "deployed S coll d w' \<and> typed_tables coll (S w')"
proof -
  have "\<And>u. p = Some u \<Longrightarrow> User_ID u = 0" using p by (simp add: update_ok_def)
  from runs_both [OF profiles_impl.finish_update_runs [OF deployedD(7,8) [OF dep] this] run]
  consider "S w' = S w" | u where "p = Some u" "shrinks (update_user i u (S w)) (S w')" by blast
  then show ?thesis
  proof cases
    case 1
    then show ?thesis using typed deployed_frame [OF dep 1] by simp
  next
    case 2
    then show ?thesis
      using typed_update [OF typed _ 2(2)] p mappings_kept_trans [OF mappings_kept_updates(1) mappings_kept_shrinks [OF 2(2)]]
        deployed_kept [OF dep] by simp
  qed
qed

lemma find_kept:
  assumes dep: "deployed S coll d w" and typed: "typed_tables coll (S w)"
    and run: "dao_GetByClerkUserID (dep_mappings d) c clerk w = (r, w') \<or> dao_GetByEmail (dep_mappings d) c email w = (r, w')"
  shows "deployed S coll d w' \<and> typed_tables coll (S w')"
proof -
  let ?T = "\<lambda>w'. only_cache mapping_key (S w) (S w') \<and> mapping_world_ok S coll (Some (dep_DB d)) (dep_Redis d) (dep_MappingJson d) w'"
  have "runs (dao_GetByClerkUserID (dep_mappings d) c clerk) w (\<lambda>_. ?T) (\<lambda>_. ?T)"
    "runs (dao_GetByEmail (dep_mappings d) c email) w (\<lambda>_. ?T) (\<lambda>_. ?T)"
    by (rule runs_mono [OF mappings_impl.clerk_runs [OF deployedD(9) [OF dep]]]
        runs_mono [OF mappings_impl.email_runs [OF deployedD(9) [OF dep]]]; simp)+
  then have "?T w'" using run runs_both [where T = ?T] by blast
  then show ?thesis using typed typed_tables_cong [OF only_cache_same_tables] deployed_mappings [OF dep] by blast
qed

lemma register_kept:
  assumes dep: "deployed S coll d w" and typed: "typed_tables coll (S w)" and "email \<noteq> []"
    and run: "dep_register d c clerk email w = (r, w')"
  shows "deployed S coll d w' \<and> typed_tables coll (S w')"
proof -
  note R = registration_worldD [OF deployedD(2) [OF dep]]
  from runs_both [OF registration_kgo.register_new_tables [OF R(1-6)] run [unfolded dep_register_def]]
  have mok: "mapping_world_ok S coll (Some (dep_DB d)) (dep_Redis d) (dep_MappingJson d) w'"
    and tables: "same_tables (S w) (S w') \<or> mapping_of coll (clerk_user_id_eq clerk) (S w) = None \<and> (\<exists>i. added clerk email i (S w) (S w'))"
    by blast+
  from tables have "typed_tables coll (S w')"
    using typed typed_tables_cong typed_tables_added [OF typed _ assms(3)] by blast
  with deployed_mappings [OF dep mok] show ?thesis by blast
qed

lemma judge_kept:
  assumes "deployed S coll d w" and "dep_ask d c code (ks, w) = (r, (ks', w'))"
  shows "S w' = S w"
proof -
  note K = kyc_worldD [OF deployedD(1) [OF assms(1)]]
  have "runs (dep_ask d c code) (ks, w) (\<lambda>_ sw. S (snd sw) = S w) (\<lambda>_ sw. S (snd sw) = S w)"
    unfolding dep_ask_def dep_proxy_def
    by (rule runs_bindA [OF kyc_impl.idp.token_runs [OF K(3)]])
      (auto intro!: runs_mono [OF kyc_impl.idp.userinfo_runs [OF K(3)]])
  from runs_both [OF this assms(2)] show ?thesis by simp
qed

lemma complete_kept:
  assumes dep: "deployed S coll d w" and typed: "typed_tables coll (S w)" and s: "s \<in> {KYCStatusPassed, KYCStatusFailed}"
    and run: "dep_complete d c i s (ks, w) = (r, (ks', w'))"
  shows "deployed S coll d w' \<and> typed_tables coll (S w')"
proof -
  note K = kyc_worldD [OF deployedD(1) [OF dep]]
  have "runs (dep_complete d c i s) (ks, w) (\<lambda>_ sw. S (snd sw) = S w \<or> kyc_set i s (S w) (S (snd sw)))
      (\<lambda>_ sw. S (snd sw) = S w \<or> kyc_set i s (S w) (S (snd sw)))"
    unfolding dep_complete_def by (rule runs_mono [OF kyc_impl.complete_kyc_runs [OF K(2,4,5,6)]]) auto
  from runs_both [OF this run] consider "S w' = S w" | "kyc_set i s (S w) (S w')" by auto
  then show ?thesis
  proof cases
    case 1
    then show ?thesis using typed deployed_frame [OF dep 1] by simp
  next
    case 2
    have row: "row_only i status_change (S w) (S w')" by (rule kyc_set_verdict [OF 2 s])
    then have "mappings_kept (S w) (S w')" by (simp add: row_only_def)
    then have "deployed S coll d w'" by (rule deployed_kept [OF dep])
    moreover have "typed_tables coll (S w')" by (rule typed_row_only [OF typed row typed_verified])
    ultimately show ?thesis ..
  qed
qed

lemma job_step_kept:
  assumes "job_step d b b'" and "busy_ok S coll d b"
  shows "busy_ok S coll d b'"
  using assms
proof (induction rule: job_step.induct)
  case (plan c i req w r w' js ks)
  then show ?case
    using plan_kept [of S coll d w c i req r w'] deployed_frame
    by (cases r) (auto simp: busy_ok_def)
next
  case (finish c i p w r w' js ks)
  then show ?case using finish_kept [of S coll d w p c i r w'] by (simp add: busy_ok_def)
next
  case (find_clerk email c clerk w r w' js ks)
  then show ?case using find_kept [of S coll d w c clerk r w'] by (cases r) (auto simp: busy_ok_def)
next
  case (find_email c email w r w' clerk js ks)
  then show ?case using find_kept [of S coll d w c _ r w' email] by (cases r) (auto simp: busy_ok_def)
next
  case (register c clerk email w r w' js ks)
  then show ?case using register_kept [of S coll d w email c clerk r w'] by (simp add: busy_ok_def)
next
  case (redeem state ks w q ks' w' js)
  have "runtime_ok S (dep_Runtime d)" using redeem(2) deployedD(6) by (auto simp: busy_ok_def)
  from memory_Consume_outside [OF this redeem(1)] redeem(2) deployed_frame show ?case
    by (cases q) (auto simp: busy_ok_def)
next
  case (judge c code ks w r ks' w' q js)
  then show ?case
    using judge_kept [of S coll d w c code ks r ks' w'] deployed_frame
    by (cases r) (auto simp: busy_ok_def kycStatusFor_def split: option.splits)
next
  case (complete c i s ks w r ks' w' js)
  then show ?case using complete_kept [of S coll d w s c i ks r ks' w'] by (simp add: busy_ok_def)
next
  case (whole c ks w r ks' w' js)
  have "deployed S coll d w" "typed_tables coll (S w)" using whole(2) by (simp_all add: busy_ok_def)
  with dispatch_authorized [of S coll d w c ks] authorized_typed [of coll "S w" d c ks "S w'"] whole show ?case
    by (simp add: busy_ok_def ends_def)
qed

text \<open>
  C35. Whatever overlaps, the tables stay typed: for every interleaving of the pieces of updates,
  registrations and callbacks with each other and with whole requests, users and mappings
  correspond one to one, no Clerk id has two accounts, and ids, markets, languages, statuses
  and roles are legal. Late writes of stale plans and late transactions are included.
\<close>

theorem overlapping_requests_keep_types:
  assumes "deployed S coll d w" and "typed_tables coll (S w)" and "(job_step d)\<^sup>*\<^sup>* ({#}, ks, w) (js, ks', w')"
  shows "typed_tables coll (S w')"
proof -
  have "busy_ok S coll d b" if "(job_step d)\<^sup>*\<^sup>* ({#}, ks, w) b" for b
    using that
  proof (induction rule: rtranclp_induct)
    case base
    then show ?case using assms(1,2) by (simp add: busy_ok_def)
  next
    case (step y z)
    then show ?case by (blast intro: job_step_kept)
  qed
  from this [OF assms(3)] show ?thesis by (simp add: busy_ok_def)
qed

subsection \<open>What they do not keep\<close>

abbreviation ann :: string where "ann \<equiv> ''ann@example.com''"

lemma late_registrations:
  "let D = UserAuthMappingDaoImpl (Some ref_gorm) (Some ref_redis) ref_mapping_codec;
       new = register_new D ref_users (gorm_Transaction ref_gorm)
         (PublishUserRegistered still_ref ref_registered_codec (kafkaProducerImpl_Publish still_ref ref_kafka)) still_ref (Some ref_redis) Background in
     case dao_GetByClerkUserID D Background ''user_a'' (ref_world [] []) of (r1, w1) \<Rightarrow>
     case dao_GetByEmail D Background ann w1 of (r2, w2) \<Rightarrow>
     case dao_GetByClerkUserID D Background ''user_b'' w2 of (r3, w3) \<Rightarrow>
     case dao_GetByEmail D Background ann w3 of (r4, w4) \<Rightarrow>
     case new ''user_a'' ann w4 of (r5, w5) \<Rightarrow> case new ''user_b'' ann w5 of (r6, w6) \<Rightarrow>
       r1 = Ok None \<and> r2 = Ok None \<and> r3 = Ok None \<and> r4 = Ok None
       \<and> map Mapping_ClerkUserID (st_mappings (rw_stores w6)) = [''user_a'', ''user_b'']
       \<and> map Mapping_Email (st_mappings (rw_stores w6)) = [ann, ann]
       \<and> map Mapping_InternalUserID (st_mappings (rw_stores w6)) = [1, 2]"
  by code_simp

lemma late_run:
  "\<exists>w. (job_step ref_deployment)\<^sup>*\<^sup>* ({#}, ks, ref_world [] []) ({#}, ks, w)
    \<and> map Mapping_ClerkUserID (st_mappings (rw_stores w)) = [''user_a'', ''user_b'']
    \<and> map Mapping_Email (st_mappings (rw_stores w)) = [ann, ann]
    \<and> map Mapping_InternalUserID (st_mappings (rw_stores w)) = [1, 2]"
proof -
  let ?d = "ref_deployment" and ?job = "(job_step ref_deployment)\<^sup>*\<^sup>*"
  obtain w1 w2 w3 w4 r5 w5 r6 w6 where
      run: "dao_GetByClerkUserID (dep_mappings ?d) Background ''user_a'' (ref_world [] []) = (Ok None, w1)"
      "dao_GetByEmail (dep_mappings ?d) Background ann w1 = (Ok None, w2)"
      "dao_GetByClerkUserID (dep_mappings ?d) Background ''user_b'' w2 = (Ok None, w3)"
      "dao_GetByEmail (dep_mappings ?d) Background ann w3 = (Ok None, w4)"
      "dep_register ?d Background ''user_a'' ann w4 = (r5, w5)" "dep_register ?d Background ''user_b'' ann w5 = (r6, w6)"
    and maps: "map Mapping_ClerkUserID (st_mappings (rw_stores w6)) = [''user_a'', ''user_b'']"
      "map Mapping_Email (st_mappings (rw_stores w6)) = [ann, ann]"
      "map Mapping_InternalUserID (st_mappings (rw_stores w6)) = [1, 2]"
    using late_registrations unfolding Let_def dep_register_def ref_deployment_simps by (auto split: prod.splits)
  have "ann \<noteq> []" by simp
  have "job_step ?d ({#}, ks, ref_world [] []) ({# Unseen ''user_a'' ann #}, ks, w1)"
    using job_step.find_clerk [OF \<open>ann \<noteq> []\<close> run(1), of "{#}" ks] by simp
  moreover have "job_step ?d ({# Unseen ''user_a'' ann #}, ks, w1) ({# Unknown ''user_a'' ann #}, ks, w2)"
    using job_step.find_email [OF run(2), of "''user_a''" "{#}" ks] by simp
  moreover have "job_step ?d ({# Unknown ''user_a'' ann #}, ks, w2) ({# Unseen ''user_b'' ann, Unknown ''user_a'' ann #}, ks, w3)"
    using job_step.find_clerk [OF \<open>ann \<noteq> []\<close> run(3), of "{# Unknown ''user_a'' ann #}" ks] by (simp add: add_mset_commute)
  moreover have "job_step ?d ({# Unseen ''user_b'' ann, Unknown ''user_a'' ann #}, ks, w3) ({# Unknown ''user_b'' ann, Unknown ''user_a'' ann #}, ks, w4)"
    using job_step.find_email [OF run(4), of "''user_b''" "{# Unknown ''user_a'' ann #}" ks] by (simp add: add_mset_commute)
  moreover have "job_step ?d ({# Unknown ''user_b'' ann, Unknown ''user_a'' ann #}, ks, w4) ({# Unknown ''user_b'' ann #}, ks, w5)"
    using job_step.register [OF run(5), of "{# Unknown ''user_b'' ann #}" ks] by (simp add: add_mset_commute)
  moreover have "job_step ?d ({# Unknown ''user_b'' ann #}, ks, w5) ({#}, ks, w6)"
    using job_step.register [OF run(6), of "{#}" ks] by simp
  ultimately have "?job ({#}, ks, ref_world [] []) ({#}, ks, w6)" by (blast intro: then_step)
  then show ?thesis by (intro exI [of _ w6] conjI) (rule maps | assumption)+
qed

lemma two_of_one_address: "map Mapping_Email (st_mappings st) = [e, e] \<Longrightarrow> \<not> well_formed (=) st"
  by (auto simp: well_formed_def map_eq_Cons_conv)


theorem overlapping_requests_keep_types_witness:
  "\<exists>w :: refw. length (st_mappings (rw_stores w)) = 2 \<and> typed_tables (=) (rw_stores w)"
proof -
  obtain w where run: "(job_step ref_deployment)\<^sup>*\<^sup>* ({#}, newMemoryKYCStateStore 0, ref_world [] []) ({#}, newMemoryKYCStateStore 0, w)"
    and maps: "map Mapping_InternalUserID (st_mappings (rw_stores w)) = [1, 2]"
    using late_run [of "newMemoryKYCStateStore 0"] by (elim exE conjE)
  have "deployed rw_stores (=) ref_deployment (ref_world [] [])"
    by (rule deployed_mappings [OF ref_deployed]) (simp add: ref_mapping_world)
  moreover have "typed_tables (=) (rw_stores (ref_world [] []))" by (simp add: typed_tables_def registry_def)
  ultimately have "typed_tables (=) (rw_stores w)" by (rule overlapping_requests_keep_types [OF _ _ run])
  moreover have "length (st_mappings (rw_stores w)) = 2" using arg_cong [OF maps, of length] by simp
  ultimately show ?thesis by (intro exI [of _ w] conjI)
qed

end
