(* ===== verification/Observed.thy ===== *)
theory Observed
  imports Router
begin

section \<open>What an observer sees\<close>

text \<open>
  The lines, spans and records of a publication and of a request, in their order: an observer
  \<open>O\<close> reads off a world what has been written to the log, which spans were opened and what
  was done to them, and what was handed to the Kafka client.
\<close>

datatype Seen = Wrote LogEntry | Opened nat string string SpanKind "(string \<times> string) list" | Called nat SpanCall | Sent KafkaRecord

definition observes :: "('w \<Rightarrow> Seen list) \<Rightarrow> 'w Runtime \<Rightarrow> bool" where
  "observes Obs R \<longleftrightarrow> keeps Obs (now R) \<and> (\<forall>n w. runs (rand_Read R n) w (\<lambda>b w'. length b = n \<and> Obs w' = Obs w) (\<lambda>e w'. Obs w' = Obs w))
     \<and> (\<forall>e w. Obs (log_Write R e w) = Obs w @ [Wrote e])
     \<and> (\<forall>h k w. Obs (otel_Span R h k w) = Obs w @ [Called h k])
     \<and> (\<forall>tn operation kind a c w. \<exists>c' h w'. otel_Start R tn operation kind a c w = ((c', Some h), w')
          \<and> Obs w' = Obs w @ [Opened h tn operation kind a])"

definition sends :: "('w \<Rightarrow> Seen list) \<Rightarrow> 'w KgoClient \<Rightarrow> bool" where
  "sends Obs K \<longleftrightarrow> (\<forall>c r w. Obs (snd (kgo_ProduceSync K c r w)) = Obs w @ [Sent r])"

text \<open>The line a logger makes of a message, if its level is enabled.\<close>

definition lines :: "Logger \<Rightarrow> LogLevel \<Rightarrow> string \<Rightarrow> LogField list \<Rightarrow> Seen list" where
  "lines logger level msg fs = (case Logger_Level logger of
      Some lowest \<Rightarrow> if lowest \<le> level
        then [Wrote \<lparr>Entry_Level = level, Entry_Message = msg, Entry_Fields = Logger_Fields logger @ fs\<rparr>] else []
    | None \<Rightarrow> [])"

text \<open>\<open>adds\<close>: the call returns \<open>a\<close> and the observer has seen \<open>xs\<close> besides.\<close>

definition adds :: "('w \<Rightarrow> Seen list) \<Rightarrow> ('w, 'a) act \<Rightarrow> 'w \<Rightarrow> 'a res \<Rightarrow> Seen list \<Rightarrow> 'w \<Rightarrow> bool" where
  "adds Obs m w r xs w' \<longleftrightarrow> m w = (r, w') \<and> Obs w' = Obs w @ xs"

lemma adds_now:
  assumes "observes Obs R"
  obtains t w' where "adds Obs (now R) w (Ok t) [] w'"
proof -
  obtain t w' where "time_Now R w = (t, w')" by fastforce
  moreover have "Obs (snd (now R w)) = Obs w" using assms by (simp add: observes_def keeps_def)
  ultimately show thesis by (intro that [of t w']) (simp add: adds_def now_def)
qed

lemma adds_line:
  assumes "observes Obs R"
  obtains w' where "adds Obs (log_line R level l msg fs) w (Ok ()) (lines l level msg fs) w'"
proof (rule that)
  show "adds Obs (log_line R level l msg fs) w (Ok ()) (lines l level msg fs) (snd (log_line R level l msg fs w))"
    using assms by (simp add: adds_def log_line_def lines_def observes_def split: option.split)
qed

lemma adds_span:
  assumes "observes Obs R"
  obtains w' where "adds Obs (span_call R h k) w (Ok ()) [Called h k] w'"
  using assms that [of "otel_Span R h k w"] by (simp add: adds_def span_call_def observes_def)

lemma adds_Start:
  assumes "observes Obs R"
  obtains c' h w' where "adds Obs (trace_Start R c tn operation kind a) w (Ok (c', Some h)) [Opened h tn operation kind a] w'"
proof -
  have "\<exists>c' h w'. otel_Start R tn operation kind a c w = ((c', Some h), w') \<and> Obs w' = Obs w @ [Opened h tn operation kind a]"
    using assms by (simp add: observes_def)
  then obtain c' h w' where "otel_Start R tn operation kind a c w = ((c', Some h), w')" "Obs w' = Obs w @ [Opened h tn operation kind a]"
    by (elim exE conjE)
  then show thesis by (intro that [of c' h w']) (simp add: adds_def trace_Start_def)
qed

lemma adds_seqA: "adds Obs m w (Ok a) xs w1 \<Longrightarrow> adds Obs (f a) w1 r ys w2 \<Longrightarrow> adds Obs (bindA m f) w r (xs @ ys) w2"
  by (simp add: adds_def bindA_def)

lemma adds_first: "adds Obs m w (Ok a) xs w1 \<Longrightarrow> bindA m f w = f a w1"
  by (simp add: adds_def bindA_def)

lemma adds_ret: "adds Obs (ret a) w (Ok a) [] w"
  by (simp add: adds_def act_simps)

lemma adds_deferA: "adds Obs m w r xs w1 \<Longrightarrow> adds Obs (f (err_of r)) w1 (Ok ()) ys w2 \<Longrightarrow> adds Obs (deferA m f) w r (xs @ ys) w2"
  by (simp add: adds_def deferA_def)

subsection \<open>Publications\<close>

text \<open>How a span is closed: by the outcome the deferred call sees.\<close>

definition span_end :: "nat \<Rightarrow> go_error option \<Rightarrow> Seen list" where
  "span_end h err = (case err of
      Some e \<Rightarrow> [Called h (RecordError e), Called h (SetStatus SpanError (error_text e)), Called h EndSpan]
    | None \<Rightarrow> [Called h (SetStatus SpanOk []), Called h EndSpan])"

lemma adds_Finish:
  assumes "observes Obs R"
  obtains w' where "adds Obs (Finish R (Some h) err) w (Ok ()) (span_end h err) w'"
proof (cases err)
  case None
  obtain w1 where a: "adds Obs (span_call R h (SetStatus SpanOk [])) w (Ok ()) [Called h (SetStatus SpanOk [])] w1"
    by (rule adds_span [OF assms])
  obtain w2 where b: "adds Obs (span_call R h EndSpan) w1 (Ok ()) [Called h EndSpan] w2" by (rule adds_span [OF assms])
  show thesis using that [of w2] adds_seqA [OF a b] None by (simp add: Finish_def span_end_def)
next
  case (Some e)
  obtain w1 where a: "adds Obs (span_call R h (RecordError e)) w (Ok ()) [Called h (RecordError e)] w1"
    by (rule adds_span [OF assms])
  obtain w2 where b: "adds Obs (span_call R h (SetStatus SpanError (error_text e))) w1 (Ok ()) [Called h (SetStatus SpanError (error_text e))] w2"
    by (rule adds_span [OF assms])
  obtain w3 where c: "adds Obs (span_call R h EndSpan) w2 (Ok ()) [Called h EndSpan] w3" by (rule adds_span [OF assms])
  show thesis using that [of w3] adds_seqA [OF adds_seqA [OF a b] c] Some by (simp add: Finish_def span_end_def)
qed

lemma adds_LogProduceFinish:
  assumes "observes Obs R"
  obtains w' where "adds Obs (LogProduceFinish R c d err fs) w (Ok ()) (case err of
      Some e \<Rightarrow> lines (WithContext R (Some c)) ErrorLevel ''kafka message produce failed'' (fs @ [(''duration_ms'', LogMicros d), (''error'', LogError e)])
    | None \<Rightarrow> lines (WithContext R (Some c)) InfoLevel ''kafka message produce completed'' (fs @ [(''duration_ms'', LogMicros d)])) w'"
proof (cases err)
  case None
  then show thesis
    using adds_line [OF assms, of InfoLevel] that by (simp add: LogProduceFinish_def Let_def Infow_def) blast
next
  case (Some e)
  then show thesis
    using adds_line [OF assms, of ErrorLevel] that by (simp add: LogProduceFinish_def Let_def Errorw_def) blast
qed


subsection \<open>Requests\<close>

lemma hex_trimmed: "bs \<noteq> [] \<Longrightarrow> hex_EncodeToString bs \<noteq> [] \<and> TrimSpace (hex_EncodeToString bs) = hex_EncodeToString bs"
proof -
  assume "bs \<noteq> []"
  then have ne: "hex_EncodeToString bs \<noteq> []" by (metis length_0_conv length_hex mult_eq_0_iff zero_neq_numeral)
  moreover have "plain c" if "c \<in> set (hex_EncodeToString bs)" for c
    using hex_chars [OF that] by (auto simp: plain_def byte_def)
  ultimately show ?thesis by (simp add: TrimSpace_plain)
qed

text \<open>The id of a request: the one it came with, trimmed, or a fresh one, never empty.\<close>

lemma adds_requestID:
  assumes "observes Obs R"
  obtains i w' where "adds Obs (requestIDFromHeader R h) w (Ok i) [] w'" and "i \<noteq> []" and "TrimSpace i = i"
    and "TrimSpace h = [] \<or> i = TrimSpace h"
proof (cases "TrimSpace h = []")
  case False
  then show thesis using that [of "TrimSpace h" w] by (simp add: requestIDFromHeader_def adds_ret)
next
  case True
  have "runs (rand_Read R 16) w (\<lambda>b w'. length b = 16 \<and> Obs w' = Obs w) (\<lambda>e w'. Obs w' = Obs w)"
    using assms by (simp add: observes_def)
  note entropy = this
  show thesis
  proof (cases rule: runsE [OF entropy])
    case (1 b w1)
    then have "b \<noteq> []" by auto
    then show thesis
      using that [of "hex_EncodeToString b" w1] hex_trimmed 1 True
      by (simp add: requestIDFromHeader_def adds_def tryA_def act_simps)
  next
    case (2 e w1)
    obtain t w2 where t: "adds Obs (now R) w1 (Ok t) [] w2" by (rule adds_now [OF assms])
    show thesis
      using that [of "FormatInt (UnixNano t)" w2] 2 True adds_first [OF t] t FormatInt_plain(1)
      by (simp add: requestIDFromHeader_def adds_def tryA_def act_simps)
  qed
qed

text \<open>The access line: an error line if the handler left errors.\<close>

definition access_seen :: "'w Runtime \<Rightarrow> ('p Gin \<Rightarrow> string) \<Rightarrow> 'p Gin \<Rightarrow> int \<Rightarrow> Seen list" where
  "access_seen R fp c d = (if g_Errors c = []
     then lines (WithContext R (Some (req_ctx c))) InfoLevel ''http request completed'' (accessLogFields fp c d)
     else lines (WithContext R (Some (req_ctx c))) ErrorLevel ''http request completed with errors''
       (accessLogFields fp c d @ [(''errors'', LogStrings (g_Errors c))]))"

lemma adds_access_line:
  assumes "observes Obs R"
  obtains w' where "adds Obs (access_line R fp c d) w (Ok ()) (access_seen R fp c d) w'"
proof (cases "g_Errors c = []")
  case True
  then show thesis using adds_line [OF assms, of InfoLevel] that by (simp add: access_line_def access_seen_def Infow_def) blast
next
  case False
  then show thesis using adds_line [OF assms, of ErrorLevel] that by (simp add: access_line_def access_seen_def Let_def Errorw_def) blast
qed

lemma observed_request:
  assumes "observes Obs R" and "HTTPObservabilityMiddleware R fp handler c w = (r, w')"
  shows "\<exists>i w1 w2. i \<noteq> [] \<and> TrimSpace i = i \<and> (TrimSpace (GetHeader c RequestIDHeader) = [] \<or> i = TrimSpace (GetHeader c RequestIDHeader))
    \<and> Obs w1 = Obs w \<and> handler (set_ctx (WithLogger (req_ctx c) (With [(''request_id'', LogString i)] (log_Logger R))) c) w1 = (r, w2)
    \<and> (case r of
        Ok c' \<Rightarrow> \<exists>d. Obs w' = Obs w2 @ access_seen R fp c' d
      | _ \<Rightarrow> w' = w2)"
proof -
  obtain t0 w0 where start: "adds Obs (now R) w (Ok t0) [] w0" by (rule adds_now [OF assms(1)])
  obtain i w1 where i: "adds Obs (requestIDFromHeader R (GetHeader c RequestIDHeader)) w0 (Ok i) [] w1" "i \<noteq> []" "TrimSpace i = i"
      "TrimSpace (GetHeader c RequestIDHeader) = [] \<or> i = TrimSpace (GetHeader c RequestIDHeader)"
    by (rule adds_requestID [OF assms(1)])
  let ?c = "set_ctx (WithLogger (req_ctx c) (With [(''request_id'', LogString i)] (log_Logger R))) c"
  obtain r1 w2 where run: "handler ?c w1 = (r1, w2)" by fastforce
  have eq: "HTTPObservabilityMiddleware R fp handler c w = bindA (handler ?c) (\<lambda>c. bindA (now R) (\<lambda>t.
      seqA (access_line R fp c (Microseconds (t - t0))) (ret c))) w1"
    unfolding HTTPObservabilityMiddleware_def Let_def adds_first [OF start] adds_first [OF i(1)] ..
  show ?thesis
  proof (cases r1)
    case (Ok c')
    obtain t1 w3 where stop: "adds Obs (now R) w2 (Ok t1) [] w3" by (rule adds_now [OF assms(1)])
    obtain w4 where line: "adds Obs (access_line R fp c' (Microseconds (t1 - t0))) w3 (Ok ()) (access_seen R fp c' (Microseconds (t1 - t0))) w4"
      by (rule adds_access_line [OF assms(1)])
    have "HTTPObservabilityMiddleware R fp handler c w = (Ok c', w4)"
      unfolding eq bindA_def [of "handler ?c"] run Ok prod.case res.case adds_first [OF stop] adds_first [OF line] by (simp add: act_simps)
    then have out: "r = Ok c'" "w' = w4" using assms(2) by simp_all
    show ?thesis
      by (rule exI [of _ i], rule exI [of _ w1], rule exI [of _ w2])
        (use i start run Ok out stop line in \<open>auto simp: adds_def\<close>)
  next
    case (Err e)
    show ?thesis
      by (rule exI [of _ i], rule exI [of _ w1], rule exI [of _ w2])
        (use Err i start run assms(2) eq in \<open>auto simp: adds_def bindA_def\<close>)
  next
    case (Panicked m)
    show ?thesis
      by (rule exI [of _ i], rule exI [of _ w1], rule exI [of _ w2])
        (use Panicked i start run assms(2) eq in \<open>auto simp: adds_def bindA_def\<close>)
  qed
qed

text \<open>
  C34. A request is known by one id everywhere: by the id it came with, or a fresh one, which is
  in the response header, in the request header the handlers see and in every line of the
  logger they get; the trace id is in its response header too. When the handler has returned,
  exactly one line tells method, path, route, final status and duration, an error line if the
  handler left errors; when it panics there is none.
\<close>

theorem request_id_everywhere:
  assumes "observes Obs R" and "HTTPResponseIDMiddleware R (HTTPObservabilityMiddleware R fp handler) c w = (r, w')"
  shows "\<exists>i c1 w1 w2. i \<noteq> [] \<and> (TrimSpace (GetHeader c RequestIDHeader) = [] \<or> i = TrimSpace (GetHeader c RequestIDHeader))
    \<and> GetHeader c1 RequestIDHeader = i \<and> header_get (g_Header c1) RequestIDHeader = i
    \<and> ctx_logger (req_ctx c1) = Some (With [(''request_id'', LogString i)] (log_Logger R))
    \<and> (fst (TraceIDs (req_ctx c)) = [] \<or> header_get (g_Header c1) TraceIDHeader = fst (TraceIDs (req_ctx c)))
    \<and> Obs w1 = Obs w \<and> handler c1 w1 = (r, w2)
    \<and> (case r of
        Ok c' \<Rightarrow> \<exists>d. Obs w' = Obs w2 @ access_seen R fp c' d
      | _ \<Rightarrow> w' = w2)"
proof -
  obtain i w0 where i: "adds Obs (requestIDFromHeader R (GetHeader c RequestIDHeader)) w (Ok i) [] w0" "i \<noteq> []" "TrimSpace i = i"
      "TrimSpace (GetHeader c RequestIDHeader) = [] \<or> i = TrimSpace (GetHeader c RequestIDHeader)"
    by (rule adds_requestID [OF assms(1)])
  let ?t = "fst (TraceIDs (req_ctx c))"
  define c0 where "c0 = (let c1 = c_Header RequestIDHeader i (set_request_header RequestIDHeader i c) in
    if ?t \<noteq> [] then c_Header TraceIDHeader ?t c1 else c1)"
  have same: "CanonicalHeaderKey RequestIDHeader \<noteq> CanonicalHeaderKey TraceIDHeader" by code_simp
  have ctx: "req_ctx (c_Header k v d) = req_ctx d" "GetHeader (c_Header k v d) k' = GetHeader d k'"
    "req_ctx (set_request_header k v d) = req_ctx d" for k v k' and d :: "'b Gin"
    by (simp_all add: req_ctx_def GetHeader_def set_request_header_def)
  have head: "GetHeader (set_request_header k v d) k = v" for k v and d :: "'b Gin"
    by (simp add: GetHeader_def set_request_header_def header_get_set)
  have c0: "GetHeader c0 RequestIDHeader = i" "header_get (g_Header c0) RequestIDHeader = i" "req_ctx c0 = req_ctx c"
    "?t = [] \<or> header_get (g_Header c0) TraceIDHeader = ?t"
    using same by (auto simp: c0_def Let_def ctx head response_header_get)
  have "HTTPResponseIDMiddleware R (HTTPObservabilityMiddleware R fp handler) c w = HTTPObservabilityMiddleware R fp handler c0 w0"
    unfolding HTTPResponseIDMiddleware_def adds_first [OF i(1)] by (simp add: c0_def Let_def case_prod_unfold ctx)
  from observed_request [OF assms(1), of fp handler c0 w0 r w'] assms(2) this c0(1) i(2,3)
  obtain w1 w2 where run: "Obs w1 = Obs w0" "handler (set_ctx (WithLogger (req_ctx c0) (With [(''request_id'', LogString i)] (log_Logger R))) c0) w1 = (r, w2)"
    and line: "case r of
        Ok c' \<Rightarrow> \<exists>d. Obs w' = Obs w2 @ access_seen R fp c' d
      | _ \<Rightarrow> w' = w2"
    by auto
  show ?thesis
    by (rule exI [of _ i], rule exI [of _ "set_ctx (WithLogger (req_ctx c0) (With [(''request_id'', LogString i)] (log_Logger R))) c0"],
      rule exI [of _ w1], rule exI [of _ w2])
      (use i c0 run line in \<open>simp_all add: adds_def WithLogger_def\<close>)
qed

subsection \<open>The audit line\<close>

lemma audited_request:
  assumes "observes Obs R" and "AuditMiddleware R ip (Some (audit_logger R)) handler c w = (r, w')"
  shows "\<exists>w1 w2. Obs w1 = Obs w \<and> handler c w1 = (r, w2)
    \<and> (case r of
        Ok c' \<Rightarrow> \<exists>d. Obs w' = Obs w2 @ lines (WithContext R (Some (req_ctx c'))) InfoLevel ''[audit] http request'' (audit_fields ip c' d)
      | _ \<Rightarrow> w' = w2)"
proof -
  obtain t0 w0 where start: "adds Obs (now R) w (Ok t0) [] w0" by (rule adds_now [OF assms(1)])
  obtain r1 w2 where run: "handler c w0 = (r1, w2)" by fastforce
  have eq: "AuditMiddleware R ip (Some (audit_logger R)) handler c w = bindA (handler c) (\<lambda>c. bindA (now R) (\<lambda>t.
      seqA (Infow R (WithContext R (Some (req_ctx c))) ''[audit] http request'' (audit_fields ip c (Microseconds (t - t0)))) (ret c))) w0"
    unfolding AuditMiddleware_def audit_logger_def option.case adds_first [OF start] ..
  show ?thesis
  proof (cases r1)
    case (Ok c')
    obtain t1 w3 where stop: "adds Obs (now R) w2 (Ok t1) [] w3" by (rule adds_now [OF assms(1)])
    let ?fs = "audit_fields ip c' (Microseconds (t1 - t0))"
    obtain w4 where line: "adds Obs (Infow R (WithContext R (Some (req_ctx c'))) ''[audit] http request'' ?fs) w3 (Ok ())
        (lines (WithContext R (Some (req_ctx c'))) InfoLevel ''[audit] http request'' ?fs) w4"
      unfolding Infow_def by (rule adds_line [OF assms(1)])
    have "AuditMiddleware R ip (Some (audit_logger R)) handler c w = (Ok c', w4)"
      unfolding eq bindA_def [of "handler c"] run Ok prod.case res.case adds_first [OF stop] adds_first [OF line] by (simp add: act_simps)
    then have out: "r = Ok c'" "w' = w4" using assms(2) by simp_all
    show ?thesis
      by (rule exI [of _ w0], rule exI [of _ w2]) (use start run Ok out stop line in \<open>auto simp: adds_def\<close>)
  next
    case (Err e)
    show ?thesis
      by (rule exI [of _ w0], rule exI [of _ w2]) (use Err start run assms(2) eq in \<open>auto simp: adds_def bindA_def\<close>)
  next
    case (Panicked m)
    show ?thesis
      by (rule exI [of _ w0], rule exI [of _ w2]) (use Panicked start run assms(2) eq in \<open>auto simp: adds_def bindA_def\<close>)
  qed
qed

text \<open>The route of administrators leaves the request as it is, but for the caller in its context.\<close>

lemma current_user_request: "AdminGetCurrentUser g c w = (Ok c', w') \<Longrightarrow> g_Request c' = g_Request c"
  by (auto simp: AdminGetCurrentUser_def authError_def data_JSON_def data_OK_def handleRepoErr_def tryA_def act_simps
      split: option.splits prod.splits res.splits if_splits)

lemma authenticated_request:
  assumes "RequireRole [] (AdminGetCurrentUser g) c w = (Ok c', w')"
  shows "\<exists>x. g_Request c' = g_Request (set_ctx x c) \<and> GetUser x = (case userFromHeaders c of None \<Rightarrow> GetUser (req_ctx c) | u \<Rightarrow> u)
    \<and> ctx_span x = ctx_span (req_ctx c)"
proof (cases "userFromHeaders c")
  case None
  with assms have "c' = unauthorized c" by (simp add: RequireRole_cases)
  with None show ?thesis
    by (intro exI [of _ "req_ctx c"]) (simp add: unauthorized_def set_ctx_def req_ctx_def)
next
  case (Some u)
  with assms have "AdminGetCurrentUser g (set_ctx (WithUser (req_ctx c) (Some u)) c) w = (Ok c', w')"
    by (simp add: RequireRole_cases)
  from current_user_request [OF this] Some show ?thesis
    by (intro exI [of _ "WithUser (req_ctx c) (Some u)"]) (simp add: WithUser_def GetUser_def)
qed

lemma audited_fields:
  assumes "RequireRole [] (AdminGetCurrentUser g) (set_ctx (WithLogger (req_ctx c) l) c) w = (Ok c', w')"
    and "GetUser (req_ctx c) = None"
  shows "audit_fields ip c' d = (let (i, role) = (case userFromHeaders c of
        Some u \<Rightarrow> (AuthUser_InternalUserID u, AuthUser_Role u) | None \<Rightarrow> (0, [])) in
      [(''method'', LogString (In_Method (g_Request c))), (''host'', LogString (In_Host (g_Request c))),
       (''referer'', LogString (GetHeader c ''Referer'')), (''ip'', LogString (ip c')),
       (''url'', LogString (In_URI (g_Request c))), (''user_id'', LogInt i), (''role'', LogString role),
       (''status'', LogInt (g_Status c')), (''duration_ms'', LogMicros d),
       (''trace_id'', LogString (fst (TraceIDs (req_ctx c)))), (''span_id'', LogString (snd (TraceIDs (req_ctx c))))])"
proof -
  obtain x where x: "g_Request c' = g_Request (set_ctx x c)" "ctx_span x = ctx_span (req_ctx c)"
    and user: "GetUser x = userFromHeaders c"
    using authenticated_request [OF assms(1)] assms(2)
    by (cases "userFromHeaders c") (auto simp: WithLogger_def GetUser_def)
  have same: "req_ctx c' = x" "GetHeader c' k = GetHeader c k" "In_Method (g_Request c') = In_Method (g_Request c)"
    "In_Host (g_Request c') = In_Host (g_Request c)" "In_URI (g_Request c') = In_URI (g_Request c)"
    "userFromHeaders c' = userFromHeaders c" for k
    using x(1) by (simp_all add: req_ctx_def GetHeader_def set_ctx_def userFromHeaders_def)
  have "audit_caller c' = (case userFromHeaders c of
      Some u \<Rightarrow> (AuthUser_InternalUserID u, AuthUser_Role u) | None \<Rightarrow> (0, []))"
    by (simp add: audit_caller_def same user split: option.split)
  moreover have "auditTraceIDs x = TraceIDs (req_ctx c)"
    by (simp add: auditTraceIDs_def TraceIDs_def x(2) split: option.split)
  ultimately show ?thesis by (simp add: audit_fields_def same case_prod_unfold Let_def)
qed

text \<open>
  C33. Requests of administrators are audited: whenever one is answered, also when it is refused,
  one line precedes the access line. It names method, host, referrer, address and target of the
  request, the caller of the identity headers (0 and no role without them), the status that is
  sent, the duration, and the trace. Only a request that panics leaves no line.
\<close>

theorem admin_requests_are_audited:
  assumes "observes Obs (app_Runtime A)" and "dispatch A c w = (r, w')" and "GetUser (req_ctx c) = None"
    and "(In_Method (g_Request c), In_Path (g_Request c)) = (''GET'', serviceURIPrefix @ ''/admin/current-user'')"
  shows "\<exists>l w1 w2. Obs w1 = Obs w
    \<and> RequireRole [] (AdminGetCurrentUser (app_GetUser A)) (set_ctx (WithLogger (req_ctx c) l) c) w1 = (r, w2)
    \<and> (case r of
        Ok c' \<Rightarrow> \<exists>d d'. let (i, role) = (case userFromHeaders c of
              Some u \<Rightarrow> (AuthUser_InternalUserID u, AuthUser_Role u) | None \<Rightarrow> (0, [])) in
          Obs w' = Obs w2 @ lines (WithContext (app_Runtime A) (Some (req_ctx c'))) InfoLevel ''[audit] http request''
             [(''method'', LogString ''GET''), (''host'', LogString (In_Host (g_Request c))),
              (''referer'', LogString (GetHeader c ''Referer'')), (''ip'', LogString (app_clientIP A c')),
              (''url'', LogString (In_URI (g_Request c))), (''user_id'', LogInt i), (''role'', LogString role),
              (''status'', LogInt (g_Status c')), (''duration_ms'', LogMicros d),
              (''trace_id'', LogString (fst (TraceIDs (req_ctx c)))), (''span_id'', LogString (snd (TraceIDs (req_ctx c))))]
           @ access_seen (app_Runtime A) (app_fullPath A) c' d'
      | _ \<Rightarrow> w' = w2)"
proof -
  let ?R = "app_Runtime A" and ?h = "RequireRole [] (AdminGetCurrentUser (app_GetUser A))"
  have "dispatch A c = admin A (AdminGetCurrentUser (app_GetUser A)) c"
    by (rule dispatch_route) (simp only: assms(4) route_lookup)
  then have "HTTPObservabilityMiddleware ?R (app_fullPath A) (AuditMiddleware ?R (app_clientIP A) (Some (audit_logger ?R)) ?h) c w = (r, w')"
    using assms(2) by (simp add: admin_def)
  from observed_request [OF assms(1) this] obtain i w1 w3
    where w1: "Obs w1 = Obs w" and audit: "AuditMiddleware ?R (app_clientIP A) (Some (audit_logger ?R)) ?h
        (set_ctx (WithLogger (req_ctx c) (With [(''request_id'', LogString i)] (log_Logger ?R))) c) w1 = (r, w3)"
      and access: "case r of Ok c' \<Rightarrow> \<exists>d. Obs w' = Obs w3 @ access_seen ?R (app_fullPath A) c' d | _ \<Rightarrow> w' = w3"
    by blast
  define c1 where "c1 = set_ctx (WithLogger (req_ctx c) (With [(''request_id'', LogString i)] (log_Logger ?R))) c"
  from audited_request [OF assms(1) audit [folded c1_def]] obtain w4 w2
    where w4: "Obs w4 = Obs w1" and run: "?h c1 w4 = (r, w2)"
      and line: "case r of Ok c' \<Rightarrow> \<exists>d. Obs w3 = Obs w2 @ lines (WithContext ?R (Some (req_ctx c'))) InfoLevel
          ''[audit] http request'' (audit_fields (app_clientIP A) c' d) | _ \<Rightarrow> w3 = w2"
    by blast
  have fields: "audit_fields (app_clientIP A) c' d = (let (i, role) = (case userFromHeaders c of
        Some u \<Rightarrow> (AuthUser_InternalUserID u, AuthUser_Role u) | None \<Rightarrow> (0, [])) in
      [(''method'', LogString ''GET''), (''host'', LogString (In_Host (g_Request c))),
       (''referer'', LogString (GetHeader c ''Referer'')), (''ip'', LogString (app_clientIP A c')),
       (''url'', LogString (In_URI (g_Request c))), (''user_id'', LogInt i), (''role'', LogString role),
       (''status'', LogInt (g_Status c')), (''duration_ms'', LogMicros d),
       (''trace_id'', LogString (fst (TraceIDs (req_ctx c)))), (''span_id'', LogString (snd (TraceIDs (req_ctx c))))])"
    if "r = Ok c'" for c' d
    using audited_fields [OF run [unfolded that c1_def]] assms(3,4) by simp
  have "case r of
        Ok c' \<Rightarrow> \<exists>d d'. Obs w' = Obs w2 @ lines (WithContext ?R (Some (req_ctx c'))) InfoLevel ''[audit] http request''
            (audit_fields (app_clientIP A) c' d) @ access_seen ?R (app_fullPath A) c' d'
      | _ \<Rightarrow> w' = w2"
    using line access by (cases r) (simp_all, elim exE, simp, blast)
  then show ?thesis
    using w1 w4 run
    by (intro exI [of _ "With [(''request_id'', LogString i)] (log_Logger ?R)"] exI [of _ w4] exI [of _ w2])
      (cases r; simp add: c1_def fields case_prod_unfold Let_def)
qed

subsection \<open>Witnesses\<close>

text \<open>A world that is what has been seen.\<close>

definition seen_runtime :: "Seen list Runtime" where
  "seen_runtime = \<lparr>time_Now = (\<lambda>w. (0, w)), rand_Read = (\<lambda>n. throw (External ''no entropy'')),
     rand_Int = (\<lambda>n. throw (External ''no entropy'')), os_Getenv = (\<lambda>k. []),
     log_Logger = \<lparr>Logger_Level = Some InfoLevel, Logger_Fields = [(''service'', LogString ''identity-mservice'')]\<rparr>,
     log_Write = (\<lambda>e w. w @ [Wrote e]),
     otel_Start = (\<lambda>t n k a c w. ((c\<lparr>ctx_span := Some (''trace1'', ''span1'')\<rparr>, Some 7), w @ [Opened 7 t n k a])),
     otel_Span = (\<lambda>h k w. w @ [Called h k]), otel_Inject = (\<lambda>c. [(''traceparent'', fst (TraceIDs c))])\<rparr>"

definition seen_kafka :: "Seen list KgoClient" where
  "seen_kafka = \<lparr>kgo_ProduceSync = (\<lambda>c r w. (Err (External ''broker down''), w @ [Sent r]))\<rparr>"

lemma seen_observes: "observes id seen_runtime"
  by (simp add: observes_def seen_runtime_def keeps_def now_def)

lemma seen_sends: "sends id seen_kafka"
  by (simp add: sends_def seen_kafka_def)


theorem request_id_everywhere_witness:
  "let run = HTTPResponseIDMiddleware seen_runtime (HTTPObservabilityMiddleware seen_runtime (\<lambda>c. []) (\<lambda>c. ret (c_Status 404 c\<lparr>g_Errors := []\<rparr>)))
      (asking [(''X-Request-Id'', '' r1 '')] []) [] in
    \<exists>c1 d. header_get (g_Header c1) RequestIDHeader = ''r1'' \<and> fst run = Ok (c_Status 404 c1\<lparr>g_Errors := []\<rparr>)
      \<and> snd run = lines (WithContext seen_runtime (Some (req_ctx c1))) InfoLevel ''http request completed''
          (accessLogFields (\<lambda>c. []) (c_Status 404 c1\<lparr>g_Errors := []\<rparr>) d)"
proof -
  let ?c = "asking [(''X-Request-Id'', '' r1 '')] []"
  let ?run = "HTTPResponseIDMiddleware seen_runtime (HTTPObservabilityMiddleware seen_runtime (\<lambda>c. []) (\<lambda>c. ret (c_Status 404 c\<lparr>g_Errors := []\<rparr>))) ?c []"
  have trim: "TrimSpace (GetHeader ?c RequestIDHeader) = ''r1''" by code_simp
  have ctx: "req_ctx (c_Status 404 c\<lparr>g_Errors := []\<rparr>) = req_ctx c" for c :: "unit Gin"
    by (simp add: req_ctx_def c_Status_def)
  from request_id_everywhere [OF seen_observes prod.collapse [symmetric], where fp = "\<lambda>c. []"
      and handler = "\<lambda>c. ret (c_Status 404 c\<lparr>g_Errors := []\<rparr>)" and c = ?c and w = "[]"]
  obtain i c1 w1 w2 where i: "TrimSpace (GetHeader ?c RequestIDHeader) = [] \<or> i = TrimSpace (GetHeader ?c RequestIDHeader)"
    and c1: "header_get (g_Header c1) RequestIDHeader = i" and w1: "id w1 = id []"
    and h: "ret (c_Status 404 c1\<lparr>g_Errors := []\<rparr>) w1 = (fst ?run, w2)" and line: "case fst ?run of
        Ok c' \<Rightarrow> \<exists>d. id (snd ?run) = id w2 @ access_seen seen_runtime (\<lambda>c. []) c' d
      | _ \<Rightarrow> snd ?run = w2"
    by (elim exE conjE) rule
  have r: "fst ?run = Ok (c_Status 404 c1\<lparr>g_Errors := []\<rparr>)" and w2: "w2 = []" using h w1 by (simp_all add: act_simps)
  have "header_get (g_Header c1) RequestIDHeader = ''r1''" using i c1 unfolding trim by simp
  moreover obtain d where "snd ?run = lines (WithContext seen_runtime (Some (req_ctx c1))) InfoLevel ''http request completed''
          (accessLogFields (\<lambda>c. []) (c_Status 404 c1\<lparr>g_Errors := []\<rparr>) d)"
    using line unfolding r w2 by (auto simp: access_seen_def ctx)
  ultimately show ?thesis unfolding Let_def using r by blast
qed

definition seen_app :: "Seen list App" where
  "seen_app = \<lparr>app_Runtime = seen_runtime, app_GetUser = (\<lambda>c i. ret None), app_GetProfile = (\<lambda>c i email. ret None),
     app_UpdateProfile = (\<lambda>c i req. ret ()), app_StartSingpassLogin = (\<lambda>c i email. ret []),
     app_SingpassCallback = (\<lambda>c code state. ret ()), app_CreateUser = (\<lambda>c data. ret ()),
     app_Authenticate = (\<lambda>c token. throw ErrInvalidToken), app_redirect = None, app_orbit = (=),
     app_bind = (\<lambda>q. Inl (External ''EOF'')), app_unmarshal = (\<lambda>s. Inl (External ''EOF'')),
     app_svix = \<lparr>svix_NewWebhook = (\<lambda>s. None), svix_Verify = (\<lambda>s p h. ret ())\<rparr>,
     app_clientIP = (\<lambda>c. ''10.0.0.7''), app_fullPath = (\<lambda>c. In_Path (g_Request c)), app_stack = id, app_otel = id, app_cors = id,
     app_swagger = ret, app_noRoute = ret, app_struck = (\<lambda>c m w. c)\<rparr>"

definition admin_get :: "Payload Gin" where
  "admin_get = new_Gin \<lparr>In_Method = ''GET'', In_Host = ''id.example'', In_URI = serviceURIPrefix @ ''/admin/current-user'',
     In_Path = serviceURIPrefix @ ''/admin/current-user'', In_Query = [],
     In_Header = [(''X-Internal-User-Id'', ''7''), (''X-User-Role'', ''ops'')], In_RemoteAddr = ''10.0.0.7:4711'',
     In_Body = ([], None), In_Ctx = Background\<rparr>"

text \<open>Somebody who is not in the table asks who he is.\<close>

theorem admin_requests_are_audited_witness:
  "\<exists>c' d d'. fst (dispatch seen_app admin_get []) = Ok c' \<and> g_Status c' = 404
    \<and> snd (dispatch seen_app admin_get []) =
      lines (WithContext seen_runtime (Some (req_ctx c'))) InfoLevel ''[audit] http request''
        [(''method'', LogString ''GET''), (''host'', LogString ''id.example''), (''referer'', LogString []),
         (''ip'', LogString ''10.0.0.7''), (''url'', LogString (serviceURIPrefix @ ''/admin/current-user'')),
         (''user_id'', LogInt 7), (''role'', LogString ''ops''), (''status'', LogInt 404), (''duration_ms'', LogMicros d),
         (''trace_id'', LogString []), (''span_id'', LogString [])]
      @ access_seen seen_runtime (\<lambda>c. In_Path (g_Request c)) c' d'"
proof -
  have app: "app_Runtime seen_app = seen_runtime" "app_GetUser seen_app = (\<lambda>c i. ret None)" "app_clientIP seen_app = (\<lambda>c. ''10.0.0.7'')"
    "app_fullPath seen_app = (\<lambda>c. In_Path (g_Request c))"
    by (simp_all add: seen_app_def)
  have header: "GetHeader admin_get HeaderInternalUserID = ''7''" "GetHeader admin_get HeaderUserRole = ''ops''"
    "GetHeader admin_get ''Referer'' = []" "TrimSpace ''ops'' = ''ops''"
    by code_simp+
  have "digit_char 7 = CHR ''7''" by code_simp
  then have "FormatInt 7 = ''7''" by (simp add: FormatInt_def nat_digits.simps)
  then have user: "userFromHeaders admin_get = Some \<lparr>AuthUser_InternalUserID = 7, AuthUser_ClerkUserID = [], AuthUser_Email = [], AuthUser_Role = ''ops''\<rparr>"
    using userFromHeaders_of [of admin_get 7 "''ops''"] header by (simp add: int64_def)
  have req: "In_Host (g_Request admin_get) = ''id.example''" "GetHeader admin_get ''Referer'' = []"
    "In_URI (g_Request admin_get) = serviceURIPrefix @ ''/admin/current-user''" "TraceIDs (req_ctx admin_get) = ([], [])"
    by (simp_all add: header(3)) (simp_all add: admin_get_def new_Gin_def TraceIDs_def req_ctx_def Background_def)
  have fresh: "GetUser (req_ctx admin_get) = None"
    by (simp add: admin_get_def new_Gin_def req_ctx_def GetUser_def Background_def)
  have route: "(In_Method (g_Request admin_get), In_Path (g_Request admin_get)) = (''GET'', serviceURIPrefix @ ''/admin/current-user'')"
    by (simp add: admin_get_def new_Gin_def)
  have obs: "observes id (app_Runtime seen_app)" unfolding app by (rule seen_observes)
  define run where "run = dispatch seen_app admin_get []"
  from admin_requests_are_audited [OF obs prod.collapse [symmetric] fresh route, of "[]", folded run_def]
  obtain l w1 w2 where w1: "w1 = []"
    and h: "RequireRole [] (AdminGetCurrentUser (\<lambda>c i. ret None)) (set_ctx (WithLogger (req_ctx admin_get) l) admin_get) w1 = (fst run, w2)"
    and line: "case fst run of
        Ok c' \<Rightarrow> \<exists>d d'. let (i, role) = (7, ''ops'') in
          snd run = w2 @ lines (WithContext seen_runtime (Some (req_ctx c'))) InfoLevel ''[audit] http request''
             [(''method'', LogString ''GET''), (''host'', LogString ''id.example''), (''referer'', LogString []),
              (''ip'', LogString ''10.0.0.7''), (''url'', LogString (serviceURIPrefix @ ''/admin/current-user'')),
              (''user_id'', LogInt i), (''role'', LogString role),
              (''status'', LogInt (g_Status c')), (''duration_ms'', LogMicros d),
              (''trace_id'', LogString []), (''span_id'', LogString [])]
           @ access_seen seen_runtime (\<lambda>c. In_Path (g_Request c)) c' d'
      | _ \<Rightarrow> snd run = w2"
    unfolding app user req id_apply option.case AuthUser.simps fst_conv snd_conv by blast
  obtain c' where "Ok c' = fst run" and status: "g_Status c' = 404" "w2 = []"
    using h w1 by (auto simp: RequireRole_cases user AdminGetCurrentUser_def tryA_def act_simps data_JSON_def)
  then have ok: "fst run = Ok c'" by simp
  from line show ?thesis
    unfolding ok res.case Let_def prod.case status append_Nil run_def [symmetric] using ok status(1) by blast
qed

end
