(* ===== verification/Startup.thy ===== *)
theory Startup
  imports Http Kafka
begin

section \<open>Starting the process\<close>

text \<open>
  server/repository/init.go and server/repository/redis/init.go: the database is required, Redis
  is not. Opening, pinging and migrating are the clients' (\<open>gorm\<close>, \<open>go-redis\<close>); they are
  arguments.
\<close>

subsection \<open>server/repository/init.go\<close>

record GormConfig =
  PrepareStmt :: bool
  SkipDefaultTransaction :: bool

definition repository_Init ::
    "'w Runtime \<Rightarrow> (string \<Rightarrow> GormConfig \<Rightarrow> ('w, 'w GormDB) act) \<Rightarrow> ('w GormDB \<Rightarrow> ('w, unit) act) \<Rightarrow> ('w, 'w GormDB) act" where
  "repository_Init R Open AutoMigrate =
    (let dsn = os_Getenv R ''MYSQL_DSN'' in
     if dsn = [] then panic ''MYSQL_DSN is not set''
     else tryA (Open dsn \<lparr>PrepareStmt = True, SkipDefaultTransaction = True\<rparr>)
       (\<lambda>db. tryA (AutoMigrate db) (\<lambda>_. ret db) (\<lambda>err. panic (error_text err)))
       (\<lambda>err. panic (error_text err)))"

subsection \<open>server/repository/redis/init.go\<close>

record RedisOptions =
  Redis_Addr :: string
  Redis_Password :: string
  Redis_DB :: int

definition redis_options :: "'w Runtime \<Rightarrow> string \<Rightarrow> RedisOptions" where
  "redis_options R addr =
    (let raw = TrimSpace (os_Getenv R ''REDIS_DB'');
         db = (if raw \<noteq> [] then (case ParseInt raw of None \<Rightarrow> 0 | Some parsed \<Rightarrow> parsed) else 0) in
     \<lparr>Redis_Addr = addr, Redis_Password = os_Getenv R ''REDIS_PASSWORD'', Redis_DB = db\<rparr>)"

definition redis_Init ::
    "'w Runtime \<Rightarrow> (RedisOptions \<Rightarrow> 'w RedisClient) \<Rightarrow> ('w RedisClient \<Rightarrow> ctx \<Rightarrow> ('w, unit) act)
      \<Rightarrow> ('w RedisClient \<Rightarrow> ('w, unit) act) \<Rightarrow> ('w, 'w RedisClient option) act" where
  "redis_Init R NewClient Ping Close =
    (let addr = TrimSpace (os_Getenv R ''REDIS_ADDR'') in
     if addr = [] then seqA (Infow R (log_Logger R) ''redis disabled: REDIS_ADDR not set'' []) (ret None)
     else let options = redis_options R addr; client = NewClient options in
       tryA (Ping client (WithTimeout Background (2 * Second)))
         (\<lambda>_. seqA (Infow R (log_Logger R) ''redis connected'' [(''addr'', LogString addr), (''db'', LogInt (Redis_DB options))])
            (ret (Some client)))
         (\<lambda>err. seqA (Warnw R (log_Logger R) ''redis unavailable, degrading to DB'' [(''addr'', LogString addr), (''error'', LogError err)])
            (seqA (best_effort (Close client)) (ret None))))"

definition redis_Available :: "'w RedisClient option \<Rightarrow> bool" where
  "redis_Available Client \<longleftrightarrow> Client \<noteq> None"

subsection \<open>Redis is optional\<close>

text \<open>
  Connecting to Redis returns without an error and without touching a store, whatever the
  client answers, and a client that is kept is that of the variables read.
\<close>

lemma redis_Init_quiet:
  assumes "runtime_ok S R" and "\<And>c x. soft S (Ping c x)" and "\<And>c. soft S (Close c)"
  shows "quiet S (redis_Init R NewClient Ping Close)"
  unfolding redis_Init_def Let_def best_effort_def
  by (intro quiet_if quiet_bindA quiet_tryA quiet_lines [OF assms(1)] quiet_ret assms(2,3))

lemma redis_Init_yields:
  "yields (redis_Init R NewClient Ping Close) (\<lambda>C. \<forall>c. C = Some c \<longrightarrow>
     TrimSpace (os_Getenv R ''REDIS_ADDR'') \<noteq> [] \<and> c = NewClient (redis_options R (TrimSpace (os_Getenv R ''REDIS_ADDR''))))"
  unfolding redis_Init_def Let_def
  by (intro yields_if yields_seqA yields_tryA [where Q = "\<lambda>_. True"] yields_ret) (simp_all add: yields_def)

end
