(* ===== verification/Telemetry.thy ===== *)
theory Telemetry
  imports Complex_Main Logging RefEnv
begin

section \<open>Telemetry\<close>

text \<open>
  server/telemetry/init.go: when spans and metrics are exported, to where nobody but the
  OpenTelemetry SDK knows; the SDK's constructors and the parsing of a float are arguments.
  Whatever they answer, the process gets a tracer.
\<close>

subsection \<open>The environment\<close>

definition contains :: "string list \<Rightarrow> string \<Rightarrow> bool" where
  "contains values needle \<longleftrightarrow> list_ex (\<lambda>v. v = needle) values"

definition missingOTLPConfig :: "'w Runtime \<Rightarrow> string list" where
  "missingOTLPConfig R = filter (\<lambda>key. TrimSpace (os_Getenv R key) = [])
     [''OTEL_EXPORTER_OTLP_ENDPOINT'', ''OTEL_EXPORTER_OTLP_HEADERS'', ''OTEL_EXPORTER_OTLP_PROTOCOL'']"

definition telemetry_serviceName :: "'w Runtime \<Rightarrow> string" where
  "telemetry_serviceName R = (let v = TrimSpace (os_Getenv R ''OTEL_SERVICE_NAME'') in if v \<noteq> [] then v else ServiceName)"

definition parse_attribute :: "string \<Rightarrow> (string \<times> string) option" where
  "parse_attribute part = (case Cut part CHR ''='' of (key0, val, ok) \<Rightarrow>
     let key = TrimSpace key0 in if \<not> ok \<or> key = [] then None else Some (key, TrimSpace val))"

definition parseResourceAttributes :: "string \<Rightarrow> (string \<times> string) list" where
  "parseResourceAttributes raw =
    (if TrimSpace raw = [] then [] else List.map_filter parse_attribute (Split raw CHR '',''))"

definition resource_attributes :: "'w Runtime \<Rightarrow> (string \<times> string) list" where
  "resource_attributes R = [(''service.name'', telemetry_serviceName R), (''service.version'', ''1.0.0'')]
     @ parseResourceAttributes (os_Getenv R ''OTEL_RESOURCE_ATTRIBUTES'')"

subsection \<open>The sampling ratio\<close>

text \<open>A \<open>float64\<close>, of which the code only compares; \<open>ParseFloat\<close> accepts the word NaN.\<close>

datatype GoFloat = NaN | NegInf | Finite rat | PosInf

fun float_less :: "GoFloat \<Rightarrow> GoFloat \<Rightarrow> bool" where
  "float_less NegInf y = (y \<noteq> NaN \<and> y \<noteq> NegInf)"
| "float_less (Finite a) (Finite b) = (a < b)"
| "float_less (Finite a) PosInf = True"
| "float_less _ _ = False"

definition sampler_ratio :: "(string \<Rightarrow> go_error + GoFloat) \<Rightarrow> 'w Runtime \<Rightarrow> GoFloat" where
  "sampler_ratio ParseFloat R =
    (let raw = TrimSpace (os_Getenv R ''OTEL_TRACES_SAMPLER_ARG'');
         ratio = (if raw \<noteq> [] then (case ParseFloat raw of Inl err \<Rightarrow> Finite 1 | Inr parsed \<Rightarrow> parsed) else Finite 1);
         ratio = (if float_less ratio (Finite 0) then Finite 0 else ratio) in
     if float_less (Finite 1) ratio then Finite 1 else ratio)"

datatype Sampler = AlwaysSample | ParentBasedRatio GoFloat

definition traceSampler :: "(string \<Rightarrow> go_error + GoFloat) \<Rightarrow> 'w Runtime \<Rightarrow> Sampler" where
  "traceSampler ParseFloat R = ParentBasedRatio (sampler_ratio ParseFloat R)"

subsection \<open>Providers\<close>

text \<open>
  The SDK: resources \<open>'r\<close>, exporters \<open>'x\<close>, providers by handle. \<open>SetTracerProvider\<close> makes a
  provider of a sampler, an exporter (none for spans that stay in the process) and a resource
  and installs it.
\<close>

record ('w, 'r, 'x) Otel =
  otel_SetTextMapPropagator :: "string list \<Rightarrow> 'w \<Rightarrow> 'w"
  otel_NewResource :: "ctx \<Rightarrow> (string \<times> string) list \<Rightarrow> ('w, 'r) act"
  otel_EmptyResource :: 'r
  otel_TraceExporter :: "ctx \<Rightarrow> ('w, 'x) act"
  otel_SetTracerProvider :: "Sampler \<Rightarrow> 'x option \<Rightarrow> 'r \<Rightarrow> 'w \<Rightarrow> nat \<times> 'w"
  otel_MetricExporter :: "ctx \<Rightarrow> ('w, 'x) act"
  otel_SetMeterProvider :: "'x \<Rightarrow> duration \<Rightarrow> 'r \<Rightarrow> 'w \<Rightarrow> nat \<times> 'w"
  otel_StartRuntime :: "nat \<Rightarrow> duration \<Rightarrow> ('w, unit) act"
  otel_Shutdown :: "nat \<Rightarrow> ctx \<Rightarrow> ('w, unit) act"

definition handle :: "('w \<Rightarrow> nat \<times> 'w) \<Rightarrow> ('w, nat) act" where
  "handle f = (\<lambda>w. case f w of (h, w') \<Rightarrow> (Ok h, w'))"

definition metricsCollectionPeriod :: duration where "metricsCollectionPeriod = 15 * Second"

definition newResource :: "'w Runtime \<Rightarrow> ('w, 'r, 'x) Otel \<Rightarrow> ctx \<Rightarrow> ('w, 'r) act" where
  "newResource R E c = otel_NewResource E c (resource_attributes R)"

definition initTracer ::
    "'w Runtime \<Rightarrow> (string \<Rightarrow> go_error + GoFloat) \<Rightarrow> ('w, 'r, 'x) Otel \<Rightarrow> ctx \<Rightarrow> 'r \<Rightarrow> ('w, nat) act" where
  "initTracer R ParseFloat E c res = bindA (otel_TraceExporter E c) (\<lambda>exporter.
     handle (otel_SetTracerProvider E (traceSampler ParseFloat R) (Some exporter) res))"

definition initMetrics :: "('w, 'r, 'x) Otel \<Rightarrow> ctx \<Rightarrow> 'r \<Rightarrow> ('w, nat) act" where
  "initMetrics E c res = bindA (otel_MetricExporter E c) (\<lambda>exp.
     handle (otel_SetMeterProvider E exp metricsCollectionPeriod res))"

definition startRuntimeMetrics :: "('w, 'r, 'x) Otel \<Rightarrow> nat \<Rightarrow> ('w, unit) act" where
  "startRuntimeMetrics E mp = otel_StartRuntime E mp metricsCollectionPeriod"

text \<open>
  What \<open>Init\<close> leaves behind, which its shutdown function closes over: a tracer of the process,
  or one that exports, with or without metrics and the metrics of the Go runtime.
\<close>

datatype Telemetry = LocalTracer nat | Exporting nat "nat option" bool

definition installLocalTracerProvider :: "'w Runtime \<Rightarrow> ('w, 'r, 'x) Otel \<Rightarrow> 'r \<Rightarrow> ('w, Telemetry) act" where
  "installLocalTracerProvider R E res = bindA (handle (otel_SetTracerProvider E AlwaysSample None res)) (\<lambda>tp.
     seqA (Infow R (log_Logger R) ''local OpenTelemetry tracer enabled for log correlation'' [(''traces_export_enabled'', LogBool False)])
       (ret (LocalTracer tp)))"

definition disabledMessage :: string where
  "disabledMessage = ''OTLP endpoint not configured, telemetry export disabled''"

definition export_missing :: "'w Runtime \<Rightarrow> string list \<Rightarrow> ('w, unit) act" where
  "export_missing R missing = Infow R (log_Logger R)
     (if contains missing ''OTEL_EXPORTER_OTLP_ENDPOINT'' then disabledMessage
      else ''OTLP export disabled, required configuration missing'')
     [(''missing'', LogString (Join missing '','')),
      (''otel_exporter_otlp_endpoint_set'', LogBool (os_Getenv R ''OTEL_EXPORTER_OTLP_ENDPOINT'' \<noteq> [])),
      (''otel_exporter_otlp_headers_set'', LogBool (os_Getenv R ''OTEL_EXPORTER_OTLP_HEADERS'' \<noteq> [])),
      (''otel_exporter_otlp_protocol'', LogString (os_Getenv R ''OTEL_EXPORTER_OTLP_PROTOCOL''))]"

text \<open>The metrics: both may fail, which is logged.\<close>

definition start_metrics :: "'w Runtime \<Rightarrow> ('w, 'r, 'x) Otel \<Rightarrow> ctx \<Rightarrow> 'r \<Rightarrow> ('w, nat option \<times> bool) act" where
  "start_metrics R E c res =
    bindA (tryA (initMetrics E c res) (\<lambda>mp. ret (Some mp))
        (\<lambda>err. seqA (Errorw R (log_Logger R) ''failed to initialize metric exporter, telemetry metrics disabled''
          [(''error'', LogError err)]) (ret None))) (\<lambda>mp. case mp of
      None \<Rightarrow> ret (None, False)
    | Some h \<Rightarrow> tryA (startRuntimeMetrics E h) (\<lambda>_. ret (Some h, True))
        (\<lambda>err. seqA (Errorw R (log_Logger R) ''failed to start Go runtime metrics'' [(''error'', LogError err)])
          (ret (Some h, False))))"

definition telemetry_Init ::
    "'w Runtime \<Rightarrow> (string \<Rightarrow> go_error + GoFloat) \<Rightarrow> ('w, 'r, 'x) Otel \<Rightarrow> ctx \<Rightarrow> ('w, Telemetry) act" where
  "telemetry_Init R ParseFloat E c =
    bindA (\<lambda>w. (Ok (), otel_SetTextMapPropagator E [''tracecontext'', ''baggage''] w)) (\<lambda>_.
    bindA (tryA (newResource R E c) (\<lambda>res. ret res)
        (\<lambda>err. seqA (Errorw R (log_Logger R) ''failed to create OpenTelemetry resource, using empty resource''
          [(''error'', LogError err)]) (ret (otel_EmptyResource E)))) (\<lambda>res.
    let missing = missingOTLPConfig R; protocol = TrimSpace (os_Getenv R ''OTEL_EXPORTER_OTLP_PROTOCOL'') in
    if 0 < length missing then seqA (export_missing R missing) (installLocalTracerProvider R E res)
    else if protocol \<noteq> ''http/protobuf''
    then seqA (Warnw R (log_Logger R) ''unsupported OTLP protocol, telemetry export disabled''
        [(''otel_exporter_otlp_protocol'', LogString protocol), (''supported_protocol'', LogString ''http/protobuf'')])
      (installLocalTracerProvider R E res)
    else tryA (initTracer R ParseFloat E c res)
      (\<lambda>tp. bindA (start_metrics R E c res) (\<lambda>(mp, runtimeMetricsEnabled).
         seqA (Infow R (log_Logger R) ''OpenTelemetry export initialized''
           [(''otel_exporter_otlp_endpoint'', LogString (os_Getenv R ''OTEL_EXPORTER_OTLP_ENDPOINT'')),
            (''otel_exporter_otlp_protocol'', LogString (os_Getenv R ''OTEL_EXPORTER_OTLP_PROTOCOL'')),
            (''traces_enabled'', LogBool True), (''metrics_enabled'', LogBool (mp \<noteq> None)),
            (''runtime_metrics_enabled'', LogBool runtimeMetricsEnabled)])
         (ret (Exporting tp mp runtimeMetricsEnabled))))
      (\<lambda>err. seqA (Errorw R (log_Logger R) ''failed to initialize trace exporter, falling back to local tracer''
          [(''error'', LogError err)]) (installLocalTracerProvider R E res))))"

text \<open>The function that \<open>Init\<close> returns: of two errors the first is reported.\<close>

definition telemetry_shutdown :: "('w, 'r, 'x) Otel \<Rightarrow> Telemetry \<Rightarrow> ctx \<Rightarrow> ('w, unit) act" where
  "telemetry_shutdown E t c = (case t of
      LocalTracer tp \<Rightarrow> otel_Shutdown E tp c
    | Exporting tp mp _ \<Rightarrow>
        bindA (case mp of None \<Rightarrow> ret None | Some m \<Rightarrow> tryA (otel_Shutdown E m c) (\<lambda>_. ret None) (\<lambda>e. ret (Some e))) (\<lambda>shutdownErr.
          tryA (otel_Shutdown E tp c)
            (\<lambda>_. case shutdownErr of None \<Rightarrow> ret () | Some e \<Rightarrow> throw e)
            (\<lambda>err. case shutdownErr of None \<Rightarrow> throw err | Some e \<Rightarrow> throw e)))"

subsection \<open>Properties\<close>

text \<open>An attribute as the variable writes it, and one that can be written.\<close>

definition write_attribute :: "string \<times> string \<Rightarrow> string" where
  "write_attribute kv = fst kv @ ''='' @ snd kv"

definition writable :: "string \<times> string \<Rightarrow> bool" where
  "writable kv \<longleftrightarrow> fst kv \<noteq> [] \<and> TrimSpace (fst kv) = fst kv \<and> TrimSpace (snd kv) = snd kv
     \<and> CHR '','' \<notin> set (fst kv) \<and> CHR '','' \<notin> set (snd kv) \<and> CHR ''='' \<notin> set (fst kv)"

lemma parse_attribute_write: "writable kv \<Longrightarrow> parse_attribute (write_attribute kv) = Some kv"
  by (cases kv) (auto simp: parse_attribute_def write_attribute_def writable_def Cut_append)

text \<open>
  The resource attributes given in OTEL_RESOURCE_ATTRIBUTES arrive: any non-empty list of
  pairs whose keys and values have no comma, no surrounding space and, in the keys, no equals
  sign, written as key=value and joined with commas, is read back as it was. Values may
  contain equals signs.
\<close>

theorem resource_attributes_roundtrip:
  assumes "list_all writable attrs" and "attrs \<noteq> []"
  shows "parseResourceAttributes (Join (map write_attribute attrs) '','') = attrs"
proof -
  let ?raw = "Join (map write_attribute attrs) '',''"
  have split: "Split ?raw CHR '','' = map write_attribute attrs"
    using assms by (intro Split_Join) (auto simp: list_all_iff write_attribute_def writable_def)
  obtain kv where "kv \<in> set attrs" using assms(2) by (cases attrs) auto
  then have "write_attribute kv \<in> set (Split ?raw CHR '','')" by (simp add: split)
  then have "set (write_attribute kv) \<subseteq> set ?raw" using Split_parts by blast
  then have "CHR ''='' \<in> set ?raw" by (auto simp: write_attribute_def)
  then have "CHR ''='' \<in> set (TrimSpace ?raw)" by (intro TrimSpace_plain_in) (simp_all add: plain_def)
  then have "TrimSpace ?raw \<noteq> []" by auto
  moreover have "List.map_filter parse_attribute (map write_attribute attrs) = attrs"
    using assms(1) by (induction attrs) (simp_all add: map_filter_simps parse_attribute_write)
  ultimately show ?thesis unfolding parseResourceAttributes_def split by simp
qed

theorem resource_attributes_roundtrip_witness:
  "parseResourceAttributes (Join (map write_attribute [(''env'', ''prod''), (''k'', ''a=b'')]) '','') = [(''env'', ''prod''), (''k'', ''a=b'')]"
proof (rule resource_attributes_roundtrip)
  have "TrimSpace ''env'' = ''env''" "TrimSpace ''prod'' = ''prod''" "TrimSpace ''k'' = ''k''" "TrimSpace ''a=b'' = ''a=b''"
    by code_simp+
  then show "list_all writable [(''env'', ''prod''), (''k'', ''a=b'')]" by (simp add: writable_def)
qed simp

subsection \<open>What start-up leaves behind\<close>

text \<open>The SDK as documented: its calls may fail, do not panic and have nothing to do with the stores.\<close>

definition sdk_ok :: "('w \<Rightarrow> 'v) \<Rightarrow> ('w, 'r, 'x) Otel \<Rightarrow> bool" where
  "sdk_ok S E \<longleftrightarrow> (\<forall>ps w. S (otel_SetTextMapPropagator E ps w) = S w) \<and> (\<forall>c a. soft S (otel_NewResource E c a))
     \<and> (\<forall>c. soft S (otel_TraceExporter E c)) \<and> (\<forall>s x r w. S (snd (otel_SetTracerProvider E s x r w)) = S w)
     \<and> (\<forall>c. soft S (otel_MetricExporter E c)) \<and> (\<forall>x d r w. S (snd (otel_SetMeterProvider E x d r w)) = S w)
     \<and> (\<forall>h d. soft S (otel_StartRuntime E h d)) \<and> (\<forall>h c. soft S (otel_Shutdown E h c))"

lemma quiet_handle: "(\<And>w. S (snd (f w)) = S w) \<Longrightarrow> quiet S (handle f)"
  by (auto simp: quiet_def handle_def runs_def split: prod.splits) (metis snd_conv)

lemma quiet_world: "(\<And>w. S (f w) = S w) \<Longrightarrow> quiet S (\<lambda>w. (Ok (), f w))"
  by (simp add: quiet_def runs_def)

lemma telemetry_Init_quiet:
  assumes "runtime_ok S R" and "sdk_ok S E"
  shows "quiet S (telemetry_Init R PF E c)"
proof -
  note lines = quiet_lines [OF assms(1)]
  have E: "quiet S (\<lambda>w. (Ok (), otel_SetTextMapPropagator E ps w))" "soft S (otel_NewResource E c a)" "soft S (otel_TraceExporter E c)"
    "quiet S (handle (otel_SetTracerProvider E s x r))" "soft S (otel_MetricExporter E c)"
    "quiet S (handle (otel_SetMeterProvider E y d r))" "soft S (otel_StartRuntime E h d)" for ps a s x r y d h
    using assms(2) by (auto simp: sdk_ok_def intro: quiet_handle quiet_world)
  have local: "quiet S (installLocalTracerProvider R E res)" for res
    unfolding installLocalTracerProvider_def by (intro quiet_bindA E lines quiet_ret)
  have runtime: "quiet S (case mp of None \<Rightarrow> ret (None, False)
      | Some h \<Rightarrow> tryA (startRuntimeMetrics E h) (\<lambda>_. ret (Some h, True))
        (\<lambda>err. seqA (Errorw R (log_Logger R) ''failed to start Go runtime metrics'' [(''error'', LogError err)])
          (ret (Some h, False))))" for mp
    unfolding startRuntimeMetrics_def by (cases mp) (auto intro!: quiet_tryA quiet_bindA E lines)
  have metrics: "quiet S (start_metrics R E c res)" for res
    unfolding start_metrics_def initMetrics_def
    by (intro quiet_bindA [OF _ runtime] quiet_tryA soft_bindA E quiet_soft [OF E(6)] quiet_bindA lines quiet_ret)
  show ?thesis
    unfolding telemetry_Init_def Let_def newResource_def initTracer_def export_missing_def
    by (intro quiet_bindA quiet_if quiet_tryA local metrics lines E soft_bindA quiet_soft [OF E(4)] quiet_ret)
      (auto intro!: quiet_bindA lines)
qed

text \<open>The tracer behind a handle was made with this sampler and exporter.\<close>

definition installed :: "('w, 'r, 'x) Otel \<Rightarrow> Sampler \<Rightarrow> ('x option \<Rightarrow> bool) \<Rightarrow> nat \<Rightarrow> bool" where
  "installed E s X h \<longleftrightarrow> (\<exists>x res v v'. X x \<and> otel_SetTracerProvider E s x res v = (h, v'))"

definition as_configured ::
    "'w Runtime \<Rightarrow> (string \<Rightarrow> go_error + GoFloat) \<Rightarrow> ('w, 'r, 'x) Otel \<Rightarrow> Telemetry \<Rightarrow> bool" where
  "as_configured R PF E t \<longleftrightarrow> (case t of
      LocalTracer tp \<Rightarrow> installed E AlwaysSample (\<lambda>x. x = None) tp
    | Exporting tp mp runtime \<Rightarrow> missingOTLPConfig R = []
        \<and> TrimSpace (os_Getenv R ''OTEL_EXPORTER_OTLP_PROTOCOL'') = ''http/protobuf''
        \<and> installed E (traceSampler PF R) (\<lambda>x. x \<noteq> None) tp \<and> (runtime \<longrightarrow> mp \<noteq> None))"

lemma yields_provider: "X x \<Longrightarrow> yields (handle (otel_SetTracerProvider E s x res)) (installed E s X)"
  unfolding yields_def handle_def installed_def by (auto split: prod.splits)

lemma yields_local: "yields (installLocalTracerProvider R E res) (as_configured R PF E)"
  unfolding installLocalTracerProvider_def
  by (intro yields_bindA [OF yields_provider [where X = "\<lambda>x. x = None"]] yields_seqA yields_ret)
    (simp_all add: as_configured_def)

lemma yields_any: "yields m (\<lambda>_. True)"
  by (simp add: yields_def)

lemma yields_metrics: "yields (start_metrics R E c res) (\<lambda>(mp, runtime). runtime \<longrightarrow> mp \<noteq> None)"
proof -
  have "yields (case mp of None \<Rightarrow> ret (None, False)
      | Some h \<Rightarrow> tryA (startRuntimeMetrics E h) (\<lambda>_. ret (Some h, True))
        (\<lambda>err. seqA (Errorw R (log_Logger R) ''failed to start Go runtime metrics'' [(''error'', LogError err)])
          (ret (Some h, False)))) (\<lambda>(mp, runtime). runtime \<longrightarrow> mp \<noteq> None)" for mp
    by (cases mp) (simp_all add: yields_ret yields_tryA [OF yields_any] yields_seqA)
  then show ?thesis
    unfolding start_metrics_def by (intro yields_bindA [where Q = "\<lambda>_. True"]) (simp_all add: yields_def)
qed

lemma telemetry_Init_yields: "yields (telemetry_Init R PF E c) (as_configured R PF E)"
proof -
  have exported: "yields (seqA line (ret (Exporting tp (fst p) (snd p)))) (as_configured R PF E)"
    if "installed E (traceSampler PF R) (\<lambda>x. x \<noteq> None) tp" "case p of (mp, runtime) \<Rightarrow> runtime \<longrightarrow> mp \<noteq> None"
      "missingOTLPConfig R = []" "TrimSpace (os_Getenv R ''OTEL_EXPORTER_OTLP_PROTOCOL'') = ''http/protobuf''" for tp p and line :: "('a, unit) act"
    using that by (intro yields_seqA yields_ret) (auto simp: as_configured_def)
  have tracer: "yields (initTracer R PF E c res) (installed E (traceSampler PF R) (\<lambda>x. x \<noteq> None))" for res
    unfolding initTracer_def by (rule yields_bindA [OF yields_any]) (rule yields_provider, simp)
  show ?thesis
    unfolding telemetry_Init_def Let_def
    by (rule yields_bindA [OF yields_any], rule yields_bindA [OF yields_any],
      intro yields_if yields_seqA yields_local yields_tryA [OF tracer] yields_bindA [OF yields_metrics])
      (auto simp: case_prod_unfold intro!: exported)
qed

lemma none_missing: "missingOTLPConfig R = [] \<longleftrightarrow>
    (\<forall>key \<in> {''OTEL_EXPORTER_OTLP_ENDPOINT'', ''OTEL_EXPORTER_OTLP_HEADERS'', ''OTEL_EXPORTER_OTLP_PROTOCOL''}. TrimSpace (os_Getenv R key) \<noteq> [])"
  unfolding missingOTLPConfig_def filter_empty_conv set_simps ..

text \<open>
  Telemetry never keeps the process from starting: whatever the exporters answer, \<open>Init\<close>
  returns, leaves the stores alone and has installed a tracer. It is one that exports, with
  the configured sampling, only when all three OTLP variables are set and the protocol is
  HTTP with protobuf; otherwise, and when the exporter fails, it is one that keeps every span
  in the process.
\<close>

theorem telemetry_never_blocks:
  assumes "runtime_ok S R" and "sdk_ok S E" and "telemetry_Init R PF E c w = (r, w')"
  shows "S w' = S w \<and> (\<exists>t. r = Ok t \<and> (case t of
      LocalTracer tp \<Rightarrow> installed E AlwaysSample (\<lambda>x. x = None) tp
    | Exporting tp mp runtime \<Rightarrow>
        (\<forall>key \<in> {''OTEL_EXPORTER_OTLP_ENDPOINT'', ''OTEL_EXPORTER_OTLP_HEADERS'', ''OTEL_EXPORTER_OTLP_PROTOCOL''}.
           TrimSpace (os_Getenv R key) \<noteq> [])
        \<and> TrimSpace (os_Getenv R ''OTEL_EXPORTER_OTLP_PROTOCOL'') = ''http/protobuf''
        \<and> installed E (traceSampler PF R) (\<lambda>x. x \<noteq> None) tp \<and> (runtime \<longrightarrow> mp \<noteq> None)))"
proof -
  have "runs (telemetry_Init R PF E c) w (\<lambda>_ w'. S w' = S w) (\<lambda>_ _. False)"
    by (rule quietD [OF telemetry_Init_quiet [OF assms(1,2)]])
  then obtain t where t: "r = Ok t" "S w' = S w" using assms(3) by (cases r) (auto simp: runs_def)
  have "as_configured R PF E t" by (rule yieldsD [OF telemetry_Init_yields assms(3) [unfolded t(1)]])
  then have "case t of LocalTracer tp \<Rightarrow> installed E AlwaysSample (\<lambda>x. x = None) tp
    | Exporting tp mp runtime \<Rightarrow> missingOTLPConfig R = []
        \<and> TrimSpace (os_Getenv R ''OTEL_EXPORTER_OTLP_PROTOCOL'') = ''http/protobuf''
        \<and> installed E (traceSampler PF R) (\<lambda>x. x \<noteq> None) tp \<and> (runtime \<longrightarrow> mp \<noteq> None)"
    by (simp only: as_configured_def)
  then show ?thesis
    unfolding none_missing using t by blast
qed

text \<open>An exporter that answers, and the variables that ask for it.\<close>

definition otel_runtime :: "refw Runtime" where
  "otel_runtime = ref_runtime\<lparr>os_Getenv := (\<lambda>key. if key = ''OTEL_EXPORTER_OTLP_ENDPOINT'' then ''https://otlp.example''
     else if key = ''OTEL_EXPORTER_OTLP_HEADERS'' then ''k=v'' else if key = ''OTEL_EXPORTER_OTLP_PROTOCOL'' then ''http/protobuf'' else [])\<rparr>"

definition ref_otel :: "(refw, unit, unit) Otel" where
  "ref_otel = \<lparr>otel_SetTextMapPropagator = (\<lambda>ps w. w), otel_NewResource = (\<lambda>c a. ret ()), otel_EmptyResource = (),
     otel_TraceExporter = (\<lambda>c. ret ()), otel_SetTracerProvider = (\<lambda>s x r w. (1, w)), otel_MetricExporter = (\<lambda>c. ret ()),
     otel_SetMeterProvider = (\<lambda>x d r w. (2, w)), otel_StartRuntime = (\<lambda>h d. ret ()), otel_Shutdown = (\<lambda>h c. ret ())\<rparr>"

lemma ref_sdk_ok: "sdk_ok rw_stores ref_otel"
  by (simp add: sdk_ok_def ref_otel_def soft_def)

theorem telemetry_never_blocks_witness:
  "\<exists>w'. telemetry_Init otel_runtime (\<lambda>_. Inr (Finite 0)) ref_otel Background ref_start = (Ok (Exporting 1 (Some 2) True), w')
    \<and> rw_stores w' = rw_stores ref_start \<and> installed ref_otel (traceSampler (\<lambda>_. Inr (Finite 0)) otel_runtime) (\<lambda>x. x \<noteq> None) 1"
proof -
  let ?run = "telemetry_Init otel_runtime (\<lambda>_. Inr (Finite 0)) ref_otel Background ref_start"
  have "fst ?run = Ok (Exporting 1 (Some 2) True)" by code_simp
  then obtain w' where run: "?run = (Ok (Exporting 1 (Some 2) True), w')" by (metis prod.collapse)
  have "runtime_ok rw_stores otel_runtime"
    using ref_runtime_ok by (simp add: runtime_ok_def keeps_def now_def otel_runtime_def)
  from telemetry_never_blocks [OF this ref_sdk_ok run] run show ?thesis by auto
qed

text \<open>
  The sampling ratio is a probability: whatever number OTEL_TRACES_SAMPLER_ARG holds is
  clamped to the interval from 0 to 1, and 1 is taken if nothing or no number is written.
  The one exception is the word NaN, which passes both comparisons.
\<close>

theorem sampler_ratio_clamped:
  "sampler_ratio PF R = (let raw = TrimSpace (os_Getenv R ''OTEL_TRACES_SAMPLER_ARG'') in
     if raw = [] then Finite 1
     else case PF raw of
         Inl e \<Rightarrow> Finite 1
       | Inr (Finite p) \<Rightarrow> Finite (max 0 (min 1 p))
       | Inr PosInf \<Rightarrow> Finite 1
       | Inr NegInf \<Rightarrow> Finite 0
       | Inr NaN \<Rightarrow> NaN)"
  by (auto simp: sampler_ratio_def Let_def split: sum.split GoFloat.split)

end
