(* ===== verification/Process.thy ===== *)
theory Process
  imports Startup Telemetry Router
begin

section \<open>The process\<close>

text \<open>
  server/main.go with server/http/init.go and server/grpc/init.go: the order of start-up, the
  addresses and limits of the two servers, and what ends the process. Clients that open
  connections, the file system and the two servers' loops are arguments.
\<close>

subsection \<open>Start-up\<close>

record ('w, 'v, 'r, 'x) Boot =
  boot_Runtime :: "'w Runtime"
  boot_Files :: "'w Files"
  boot_ReadInConfig :: "ConfigSearch \<Rightarrow> ('w, 'v) act"
  boot_Unmarshal :: "'v \<Rightarrow> go_error + Conf"
  boot_production :: EncoderConfig
  boot_level :: "string \<Rightarrow> go_error + LogLevel"
  boot_Open :: "string \<Rightarrow> GormConfig \<Rightarrow> ('w, 'w GormDB) act"
  boot_AutoMigrate :: "'w GormDB \<Rightarrow> ('w, unit) act"
  boot_NewRedis :: "RedisOptions \<Rightarrow> 'w RedisClient"
  boot_Ping :: "'w RedisClient \<Rightarrow> ctx \<Rightarrow> ('w, unit) act"
  boot_Close :: "'w RedisClient \<Rightarrow> ('w, unit) act"
  boot_ParseFloat :: "string \<Rightarrow> go_error + GoFloat"
  boot_Otel :: "('w, 'r, 'x) Otel"
  boot_NewKgo :: "KgoOpt list \<Rightarrow> go_error + 'w KgoClient"

text \<open>The globals the initialisers leave behind.\<close>

record 'w Globals =
  glob_Conf :: Conf
  glob_Runtime :: "'w Runtime"
  glob_DB :: "'w GormDB"
  glob_Redis :: "'w RedisClient option"
  glob_Telemetry :: Telemetry
  glob_Producer :: "'w KafkaProducer"

definition bootstrap :: "('w, 'v, 'r, 'x) Boot \<Rightarrow> ('w, 'w Globals) act" where
  "bootstrap B =
    bindA (config_Init (file_Getwd (boot_Files B)) (boot_ReadInConfig B) (boot_Unmarshal B)) (\<lambda>conf.
    bindA (InitLogger (boot_Runtime B) (boot_Files B) (boot_production B) (boot_level B) (Some conf)) (\<lambda>R.
    bindA (repository_Init R (boot_Open B) (boot_AutoMigrate B)) (\<lambda>db.
    bindA (redis_Init R (boot_NewRedis B) (boot_Ping B) (boot_Close B)) (\<lambda>redis.
    bindA (telemetry_Init R (boot_ParseFloat B) (boot_Otel B) Background) (\<lambda>tel.
    bindA (buildProducer R (boot_NewKgo B) (Conf_Kafka conf)) (\<lambda>producer.
    seqA (if (case Conf_Kafka conf of None \<Rightarrow> True | Some k \<Rightarrow> \<not> Kafka_Enabled k)
          then Infow R (log_Logger R) ''kafka disabled'' [] else ret ())
      (ret \<lparr>glob_Conf = conf, glob_Runtime = R, glob_DB = db, glob_Redis = redis, glob_Telemetry = tel, glob_Producer = producer\<rparr>)))))))"

subsection \<open>The two servers\<close>

text \<open>
  How a server function ends: it returns, it returns after it has sent an interrupt to the
  channel that main waits on, or the process exits. zap's \<open>Fatal\<close> logs and exits with 1, so
  the statements after it, the argument \<open>rest\<close>, are not reached.
\<close>

datatype server_end = Returned | Interrupted | Exited int

definition Fatal :: "'w Runtime \<Rightarrow> string \<Rightarrow> ('w, server_end) act \<Rightarrow> ('w, server_end) act" where
  "Fatal R msg rest = seqA (log_line R FatalLevel (log_Logger R) msg []) (ret (Exited 1))"

definition interrupt :: "('w, server_end) act" where
  "interrupt = ret Interrupted"

text \<open>\<open>fmt.Sprintf("%s:%d", host, port)\<close> of a section; a missing one is a nil pointer.\<close>

definition host_port :: "string \<Rightarrow> int \<Rightarrow> string" where
  "host_port host port = host @ '':'' @ FormatInt port"

definition nil_dereference :: string where
  "nil_dereference = ''runtime error: invalid memory address or nil pointer dereference''"

definition http_Init :: "'w Runtime \<Rightarrow> (string \<Rightarrow> ('w, unit) act) \<Rightarrow> Conf \<Rightarrow> ('w, server_end) act" where
  "http_Init R Run conf =
    seqA (Infow R (log_Logger R) ''Cerami Craft ItemService start...'' [])
     (case Conf_Http conf of
        None \<Rightarrow> panic nil_dereference
      | Some h \<Rightarrow> tryA (Run (host_port (HttpConfig_Host h) (HttpConfig_Port h)))
          (\<lambda>_. ret Returned)
          (\<lambda>err. Fatal R (''Failed to run server: '' @ error_text err) interrupt))"

text \<open>
  The options of the gRPC server. Go's \<open>int\<close> has 64 bits: the product is taken modulo \<open>2 ^ 64\<close>,
  and the conversion to \<open>uint32\<close> modulo \<open>2 ^ 32\<close>.
\<close>

record GrpcOptions =
  Grpc_ConnectionTimeout :: duration
  Grpc_MaxConcurrentStreams :: int
  Grpc_MaxRecvMsgSize :: int
  Grpc_MaxSendMsgSize :: int

definition grpc_options :: "GrpcConfig \<Rightarrow> GrpcOptions" where
  "grpc_options g = \<lparr>Grpc_ConnectionTimeout = wrap64 (GrpcConfig_ConnectTimeout g * Second),
     Grpc_MaxConcurrentStreams = GrpcConfig_MaxPoolSize g mod 2 ^ 32,
     Grpc_MaxRecvMsgSize = 1024 * 1024, Grpc_MaxSendMsgSize = 1024 * 1024\<rparr>"

definition grpc_Init ::
    "'w Runtime \<Rightarrow> (string \<Rightarrow> ('w, 'l) act) \<Rightarrow> (GrpcOptions \<Rightarrow> 'l \<Rightarrow> ('w, unit) act) \<Rightarrow> Conf \<Rightarrow> ('w, server_end) act" where
  "grpc_Init R Listen Serve conf = (case Conf_Grpc conf of
      None \<Rightarrow> panic nil_dereference
    | Some g \<Rightarrow> let ipPort = host_port (GrpcConfig_Host g) (GrpcConfig_Port g) in
        tryA (Listen ipPort)
          (\<lambda>listener. seqA (Infow R (log_Logger R) ''grpc server is running'' [(''addr'', LogString ipPort)])
             (tryA (Serve (grpc_options g) listener)
               (\<lambda>_. ret Returned)
               (\<lambda>err. Fatal R (''Failed to serve: %v'' @ error_text err) interrupt)))
          (\<lambda>err. Fatal R (''Failed to listen: '' @ error_text err) interrupt))"

subsection \<open>The end of main\<close>

text \<open>
  After a signal: the line about it, and the deferred shutdown of telemetry, within five
  seconds.
\<close>

definition main_end :: "'w Runtime \<Rightarrow> ('w, 'r, 'x) Otel \<Rightarrow> Telemetry \<Rightarrow> string \<Rightarrow> ('w, unit) act" where
  "main_end R E tel sig =
    seqA (Infow R (log_Logger R) (''Received signal: '' @ sig @ '', shutting down...'') [])
     (tryA (telemetry_shutdown E tel (WithTimeout Background (5 * Second)))
       (\<lambda>_. ret ())
       (\<lambda>err. Errorw R (log_Logger R) ''telemetry shutdown failed'' [(''error'', LogError err)]))"

text \<open>
  The running process: both servers run beside main, which waits for a signal or an interrupt.
  A phase is where main is; the servers' ends and the signal may come in any order. The
  process ends with a status when main returns (0), when a server exits, or with 2 when a
  goroutine panics.
\<close>

datatype Phase = Waiting | Ended int

inductive process_step ::
    "('w, 'r, 'x) Otel \<Rightarrow> 'w Globals \<Rightarrow> ('w, server_end) act set \<Rightarrow> Phase \<times> 'w \<Rightarrow> Phase \<times> 'w \<Rightarrow> bool"
  for E :: "('w, 'r, 'x) Otel" and G :: "'w Globals" and servers :: "('w, server_end) act set" where
  signal: "main_end (glob_Runtime G) E (glob_Telemetry G) sig w = (r, w') \<Longrightarrow> process_step E G servers (Waiting, w) (Ended 0, w')"
| interrupted: "s \<in> servers \<Longrightarrow> s w = (Ok Interrupted, w1)
    \<Longrightarrow> main_end (glob_Runtime G) E (glob_Telemetry G) ''interrupt'' w1 = (r, w') \<Longrightarrow> process_step E G servers (Waiting, w) (Ended 0, w')"
| returned: "s \<in> servers \<Longrightarrow> s w = (Ok Returned, w') \<Longrightarrow> process_step E G servers (Waiting, w) (Waiting, w')"
| exited: "s \<in> servers \<Longrightarrow> s w = (Ok (Exited n), w') \<Longrightarrow> process_step E G servers (Waiting, w) (Ended n, w')"
| crashed: "s \<in> servers \<Longrightarrow> s w = (Panicked m, w') \<Longrightarrow> process_step E G servers (Waiting, w) (Ended 2, w')"
| other: "process_step E G servers (Waiting, w) (Waiting, w')"

inductive_cases process_stepE: "process_step E G servers p q"

subsection \<open>CORS\<close>

text \<open>The configuration handed to the CORS middleware.\<close>

record CorsConfig =
  Cors_AllowOrigins :: "string list"
  Cors_AllowMethods :: "string list"
  Cors_AllowHeaders :: "string list"
  Cors_ExposeHeaders :: "string list"
  Cors_AllowCredentials :: bool
  Cors_MaxAge :: duration

definition allowedOrigins :: "Conf option \<Rightarrow> string list" where
  "allowedOrigins config = (case config of
      None \<Rightarrow> []
    | Some conf \<Rightarrow> (case Conf_System conf of None \<Rightarrow> [] | Some s \<Rightarrow> System_AllowedOrigins s))"

definition corsMiddleware :: "(CorsConfig \<Rightarrow> 'm) \<Rightarrow> Conf option \<Rightarrow> 'm" where
  "corsMiddleware New config = New \<lparr>
     Cors_AllowOrigins = allowedOrigins config,
     Cors_AllowMethods = [''GET'', ''POST'', ''PUT'', ''DELETE'', ''OPTIONS''],
     Cors_AllowHeaders = [''Origin'', ''Content-Type'', ''Accept'', ''Authorization'',
       HeaderInternalUserID, HeaderUserRole, RequestIDHeader, TraceIDHeader],
     Cors_ExposeHeaders = [''Content-Length'', HeaderInternalUserID, HeaderUserRole, RequestIDHeader, TraceIDHeader],
     Cors_AllowCredentials = True,
     Cors_MaxAge = 12 * 3600 * Second\<rparr>"

subsection \<open>Start-up succeeds when the required parts do\<close>

definition good :: "('w \<Rightarrow> 'v) \<Rightarrow> ('w, 'a) act \<Rightarrow> ('a \<Rightarrow> bool) \<Rightarrow> bool" where
  "good S m P \<longleftrightarrow> (\<forall>w. runs m w (\<lambda>a w'. P a \<and> S w' = S w) (\<lambda>_ _. False))"

lemma goodD: "good S m P \<Longrightarrow> runs m w (\<lambda>a w'. P a \<and> S w' = S w) (\<lambda>_ _. False)"
  by (simp add: good_def)

lemma goodI: "quiet S m \<Longrightarrow> yields m P \<Longrightarrow> good S m P"
  unfolding good_def quiet_def yields_def by (fastforce simp: runs_def split: prod.splits res.splits)

lemma good_quiet: "quiet S m \<Longrightarrow> good S m (\<lambda>_. True)"
  by (simp add: goodI yields_any)

lemma good_ret: "P a \<Longrightarrow> good S (ret a) P"
  by (simp add: good_def)

lemma good_bindA:
  assumes "good S m P" and "\<And>a. P a \<Longrightarrow> good S (f a) Q"
  shows "good S (bindA m f) Q"
  unfolding good_def
proof
  show "runs (bindA m f) w (\<lambda>a w'. Q a \<and> S w' = S w) (\<lambda>_ _. False)" for w
    by (rule runs_bindA [OF goodD [OF assms(1)]]) (auto intro!: runs_mono [OF goodD [OF assms(2)]])
qed

lemma good_seqA: "quiet S m \<Longrightarrow> good S n P \<Longrightarrow> good S (seqA m n) P"
  by (rule good_bindA [OF good_quiet])

lemma good_tryA:
  assumes "good S m P" and "\<And>a. P a \<Longrightarrow> good S (f a) Q"
  shows "good S (tryA m f g) Q"
  unfolding good_def
proof
  show "runs (tryA m f g) w (\<lambda>a w'. Q a \<and> S w' = S w) (\<lambda>_ _. False)" for w
    by (rule runs_tryA [OF goodD [OF assms(1)]]) (auto intro!: runs_mono [OF goodD [OF assms(2)]])
qed

text \<open>
  What start-up cannot do without: a working directory, a configuration that can be read, the
  log file if one is configured, the database. And what it can: Redis and the OpenTelemetry
  SDK may refuse anything, as long as they do not panic.
\<close>

definition required_ok :: "('w \<Rightarrow> 'v) \<Rightarrow> ('w, 'y, 'r, 'x) Boot \<Rightarrow> bool" where
  "required_ok S B \<longleftrightarrow> runtime_ok S (boot_Runtime B)
     \<and> good S (file_Getwd (boot_Files B)) (\<lambda>(dir, err). err = None)
     \<and> (\<forall>d. quiet S (file_MkdirAll (boot_Files B) d)) \<and> (\<forall>f. quiet S (file_Append (boot_Files B) f))
     \<and> (\<forall>c out e w. S (file_Write (boot_Files B) c out e w) = S w)
     \<and> (\<forall>s. quiet S (boot_ReadInConfig B s)) \<and> (\<forall>v. \<exists>conf. boot_Unmarshal B v = Inr conf)
     \<and> os_Getenv (boot_Runtime B) ''MYSQL_DSN'' \<noteq> []
     \<and> (\<forall>dsn g. quiet S (boot_Open B dsn g)) \<and> (\<forall>db. quiet S (boot_AutoMigrate B db))"

definition optional_ok :: "('w \<Rightarrow> 'v) \<Rightarrow> ('w, 'y, 'r, 'x) Boot \<Rightarrow> bool" where
  "optional_ok S B \<longleftrightarrow> (\<forall>c x. soft S (boot_Ping B c x)) \<and> (\<forall>c. soft S (boot_Close B c)) \<and> sdk_ok S (boot_Otel B)"

lemma config_good:
  assumes "required_ok S B"
  shows "good S (config_Init (file_Getwd (boot_Files B)) (boot_ReadInConfig B) (boot_Unmarshal B)) (\<lambda>_. True)"
proof -
  have "good S (case boot_Unmarshal B v of Inl err \<Rightarrow> panic (error_text err) | Inr conf \<Rightarrow> ret conf) (\<lambda>_. True)" for v
  proof -
    obtain conf where "boot_Unmarshal B v = Inr conf" using assms unfolding required_ok_def by blast
    then show ?thesis by (simp add: good_ret)
  qed
  moreover have "good S (file_Getwd (boot_Files B)) (\<lambda>(dir, err). err = None)" "quiet S (boot_ReadInConfig B s)" for s
    using assms by (simp_all add: required_ok_def)
  ultimately show ?thesis
    unfolding config_Init_def
    by (auto intro!: good_bindA [where P = "\<lambda>(dir, err). err = None"] good_tryA [OF good_quiet])
qed

lemma fold_keeps: "(\<And>x w. S (f x w) = S w) \<Longrightarrow> S (fold f xs w) = S w"
  by (induction xs arbitrary: w) simp_all

lemma logger_good:
  assumes "required_ok S B"
  shows "good S (InitLogger (boot_Runtime B) (boot_Files B) P U config)
    (\<lambda>R. runtime_ok S R \<and> os_Getenv R = os_Getenv (boot_Runtime B))"
proof -
  have R: "runtime_ok S (boot_Runtime B)" and F: "good S (file_Getwd (boot_Files B)) (\<lambda>(dir, err). err = None)"
    "quiet S (file_MkdirAll (boot_Files B) d)" "quiet S (file_Append (boot_Files B) f)"
    and written: "S (file_Write (boot_Files B) c out e w) = S w" for d f c out e w
    using assms by (simp_all add: required_ok_def)
  have "good S (getLogWriter (boot_Files B) config) (\<lambda>_. True)"
    unfolding getLogWriter_def
    by (cases "log_path config = []") (auto intro!: good_ret good_bindA [OF F(1)] good_tryA [OF good_quiet] F(2,3) simp: Let_def)
  then show ?thesis
    unfolding InitLogger_def Let_def
  proof (rule good_bindA)
    fix out
    show "good S (ret ((boot_Runtime B)\<lparr>log_Logger := l, log_Write := (\<lambda>e. fold (\<lambda>out. file_Write (boot_Files B) c out e) outs)\<rparr>))
      (\<lambda>R. runtime_ok S R \<and> os_Getenv R = os_Getenv (boot_Runtime B))" for l c outs
      by (rule good_ret) (use R in \<open>simp add: runtime_ok_def keeps_def now_def fold_keeps written\<close>)
  qed
qed

text \<open>The producer: the stand-in, or one over a client for the configured brokers.\<close>

definition producer_for ::
    "'w Runtime \<Rightarrow> (KgoOpt list \<Rightarrow> go_error + 'w KgoClient) \<Rightarrow> KafkaConfig option \<Rightarrow> 'w KafkaProducer \<Rightarrow> bool" where
  "producer_for R New cfg publish \<longleftrightarrow> publish = nopKafkaProducer_Publish R
     \<or> (\<exists>k client. cfg = Some k \<and> Kafka_Enabled k \<and> Kafka_Brokers k \<noteq> [] \<and> New (producer_opts k) = Inr client
          \<and> publish = kafkaProducerImpl_Publish R client)"

lemma producer_good: "runtime_ok S R \<Longrightarrow> good S (buildProducer R New cfg) (producer_for R New cfg)"
  unfolding buildProducer_def validateConfig_def
  by (auto simp: producer_for_def split: option.splits sum.splits intro!: good_ret good_seqA quiet_lines)

lemma repository_good:
  assumes "required_ok S B" and "os_Getenv R = os_Getenv (boot_Runtime B)"
  shows "good S (repository_Init R (boot_Open B) (boot_AutoMigrate B)) (\<lambda>_. True)"
proof -
  have "os_Getenv R ''MYSQL_DSN'' \<noteq> []" "quiet S (boot_Open B dsn g)" "quiet S (boot_AutoMigrate B db)" for dsn g db
    using assms by (simp_all add: required_ok_def)
  then show ?thesis
    unfolding repository_Init_def by (auto intro!: good_tryA [OF good_quiet] good_ret simp: Let_def)
qed


subsection \<open>The log\<close>

lemma clean_parts_names: "list_all (\<lambda>p. p \<noteq> ''..'') ps
    \<Longrightarrow> clean_parts rooted acc ps = rev acc @ filter (\<lambda>p. p \<noteq> [] \<and> p \<noteq> ''.'') ps"
  by (induction ps arbitrary: acc) auto

lemma Split_at: "Split (a @ c # b) c = Split a c @ Split b c"
  by (induction a) (auto split: list.split)

definition path_names :: "string \<Rightarrow> string list" where
  "path_names path = filter (\<lambda>p. p \<noteq> [] \<and> p \<noteq> ''.'') (Split path CHR ''/'')"

text \<open>
  The log file lies below the working directory: for a rooted working directory and any
  configured path without parent steps, also one that is written as an absolute path, the
  file opened is the directory followed by the names of the path.
\<close>

theorem log_file_below_workdir:
  assumes "HasPrefix cwd ''/''" and "path \<noteq> []"
    and "''..'' \<notin> set (Split cwd CHR ''/'')" and "''..'' \<notin> set (Split path CHR ''/'')"
  shows "filepath_Join [cwd, path] = ''/'' @ Join (path_names cwd @ path_names path) ''/''"
proof -
  have cwd: "cwd \<noteq> []" using assms(1) by (auto simp: HasPrefix_def)
  have root: "HasPrefix (cwd @ CHR ''/'' # path) ''/''" using assms(1) by (auto simp: HasPrefix_def prefix_def)
  have parts: "list_all (\<lambda>p. p \<noteq> ''..'') (Split cwd CHR ''/'' @ Split path CHR ''/'')"
    using assms(3,4) by (auto simp: list_all_iff)
  have "filepath_Join [cwd, path] = filepath_Clean (cwd @ CHR ''/'' # path)"
    using cwd assms(2) by (simp add: filepath_Join_def)
  also have "\<dots> = ''/'' @ Join (clean_parts True [] (Split cwd CHR ''/'' @ Split path CHR ''/'')) ''/''"
    using root by (simp add: filepath_Clean_def Let_def Split_at)
  also have "\<dots> = ''/'' @ Join (path_names cwd @ path_names path) ''/''"
    unfolding clean_parts_names [OF parts] by (simp add: path_names_def)
  finally show ?thesis .
qed

text \<open>
  What the logger of the process writes: every line of a level at or above the configured
  one, INFO if none is configured or it is unknown, with service and environment in front of
  its own fields; to the standard output, and if a file is configured to that file first.
  Only a configured file can keep the process from logging.
\<close>

theorem logger_outcome:
  assumes "InitLogger R F production unmarshal config w = (r, w')"
  shows "case r of
      Ok R' \<Rightarrow> (\<exists>sinks. (log_path config = [] \<and> sinks = [Stdout]
            \<or> log_path config \<noteq> [] \<and> (\<exists>cwd v. file_Getwd F w = (Ok (cwd, None), v) \<and> sinks = [LogFile (filepath_Join [cwd, log_path config]), Stdout]))
          \<and> (\<forall>level msg fs v. log_line R' level (log_Logger R') msg fs v = (Ok (),
               if getLogLevel unmarshal config \<le> level
               then fold (\<lambda>out. file_Write F (getEncoder production) out \<lparr>Entry_Level = level, Entry_Message = msg,
                   Entry_Fields = [(''service'', LogString (log_serviceName R)), (''env'', LogString (envName R))] @ fs\<rparr>) sinks v
               else v)))
    | Err e \<Rightarrow> log_path config \<noteq> []
    | Panicked m \<Rightarrow> log_path config \<noteq> []"
proof (cases "log_path config = []")
  case True
  then show ?thesis
    using assms by (auto simp: InitLogger_def getLogWriter_def Let_def act_simps log_line_def)
next
  case False
  then show ?thesis
  proof (cases r)
    case (Ok R')
    obtain out v where out: "getLogWriter F config w = (Ok out, v)" and R': "R' = R\<lparr>
       log_Logger := \<lparr>Logger_Level = Some (getLogLevel unmarshal config),
         Logger_Fields = [(''service'', LogString (log_serviceName R)), (''env'', LogString (envName R))]\<rparr>,
       log_Write := (\<lambda>e. fold (\<lambda>out. file_Write F (getEncoder production) out e) [out, Stdout])\<rparr>"
      using assms Ok False by (auto simp: InitLogger_def bindA_def Let_def ret_def split: prod.splits res.splits)
    obtain cwd v1 where "file_Getwd F w = (Ok (cwd, None), v1)" "out = LogFile (filepath_Join [cwd, log_path config])"
      using out False by (auto simp: getLogWriter_def bindA_def tryA_def Let_def ret_def panic_def split: prod.splits res.splits option.splits)
    then show ?thesis
      unfolding Ok res.case
      by (intro exI [of _ "[LogFile (filepath_Join [cwd, log_path config]), Stdout]"])
        (use False in \<open>auto simp: R' log_line_def\<close>)
  qed simp_all
qed

subsection \<open>The limits of the gRPC server\<close>

lemma wrap64_id: "wrap64 x = x \<longleftrightarrow> - (2 ^ 63) \<le> x \<and> x < 2 ^ 63"
proof
  assume "wrap64 x = x"
  moreover have "0 \<le> (x + 2 ^ 63) mod 2 ^ 64" "(x + 2 ^ 63) mod 2 ^ 64 < 2 ^ 64" by simp_all
  moreover have "(2 :: int) ^ 64 = 2 * 2 ^ 63" by simp
  ultimately show "- (2 ^ 63) \<le> x \<and> x < 2 ^ 63" unfolding wrap64_def by linarith
next
  assume "- (2 ^ 63) \<le> x \<and> x < 2 ^ 63"
  then have "(x + 2 ^ 63) mod 2 ^ 64 = x + 2 ^ 63" by (intro mod_pos_pos_trivial) simp_all
  then show "wrap64 x = x" by (simp add: wrap64_def)
qed

text \<open>
  The limits of the gRPC server are those configured exactly for a connection timeout that
  is at most 9223372036 seconds in size, and a pool size that fits in 32 bits without a sign;
  any other value wraps around, and always stays within these bounds.
\<close>

theorem grpc_limits_exact:
  "(Grpc_ConnectionTimeout (grpc_options g) = GrpcConfig_ConnectTimeout g * Second
      \<longleftrightarrow> \<bar>GrpcConfig_ConnectTimeout g\<bar> \<le> 9223372036)
   \<and> (Grpc_MaxConcurrentStreams (grpc_options g) = GrpcConfig_MaxPoolSize g
      \<longleftrightarrow> 0 \<le> GrpcConfig_MaxPoolSize g \<and> GrpcConfig_MaxPoolSize g < 2 ^ 32)
   \<and> 0 \<le> Grpc_MaxConcurrentStreams (grpc_options g) \<and> Grpc_MaxConcurrentStreams (grpc_options g) < 2 ^ 32"
proof -
  have "(t :: int) mod 2 ^ 32 = t \<longleftrightarrow> 0 \<le> t \<and> t < 2 ^ 32" for t
    by (metis mod_pos_pos_trivial pos_mod_bound pos_mod_sign zero_less_numeral zero_less_power)
  moreover have "- (2 ^ 63) \<le> t * Second \<and> t * Second < 2 ^ 63 \<longleftrightarrow> \<bar>t\<bar> \<le> 9223372036" for t :: int
  proof -
    have "- (2 ^ 63) \<le> t * Second \<and> t * Second < 2 ^ 63 \<longleftrightarrow> - 9223372036 \<le> t \<and> t \<le> 9223372036"
      unfolding Second_def by (rule iffI; simp; linarith)
    then show ?thesis by (simp add: abs_le_iff) linarith
  qed
  ultimately show ?thesis by (simp add: grpc_options_def wrap64_id)
qed

subsection \<open>How the process ends\<close>

lemma Fatal_exits: "Fatal R msg rest w = (Ok (Exited 1), snd (log_line R FatalLevel (log_Logger R) msg [] w))"
  by (simp add: Fatal_def bindA_def log_line_def ret_def)

text \<open>A server function ends in one of three ways; it never interrupts main.\<close>

lemma yields_Fatal: "yields (Fatal R msg rest) (\<lambda>e. e = Returned \<or> e = Exited 1)"
  unfolding yields_def by (simp add: Fatal_exits)

lemma http_Init_yields: "yields (http_Init R Run conf) (\<lambda>e. e = Returned \<or> e = Exited 1)"
proof -
  have "yields (case Conf_Http conf of None \<Rightarrow> panic nil_dereference
      | Some h \<Rightarrow> tryA (Run (host_port (HttpConfig_Host h) (HttpConfig_Port h))) (\<lambda>_. ret Returned)
          (\<lambda>err. Fatal R (''Failed to run server: '' @ error_text err) interrupt)) (\<lambda>e. e = Returned \<or> e = Exited 1)"
    by (cases "Conf_Http conf") (simp_all add: yields_panic yields_tryA [OF yields_any] yields_ret yields_Fatal)
  then show ?thesis unfolding http_Init_def by (rule yields_seqA)
qed

lemma grpc_Init_yields: "yields (grpc_Init R Listen Serve conf) (\<lambda>e. e = Returned \<or> e = Exited 1)"
  unfolding grpc_Init_def
  by (cases "Conf_Grpc conf")
    (simp_all add: Let_def yields_panic yields_tryA [OF yields_any] yields_seqA yields_ret yields_Fatal)

text \<open>\<open>D\<close> counts the shutdowns of telemetry providers; nothing else moves it.\<close>

definition counts :: "('w \<Rightarrow> int) \<Rightarrow> ('w, 'r, 'x) Otel \<Rightarrow> 'w Runtime \<Rightarrow> bool" where
  "counts D E R \<longleftrightarrow> (\<forall>e w. D (log_Write R e w) = D w) \<and> (\<forall>h c w. D (snd (otel_Shutdown E h c w)) = D w + 1)"

lemma line_counts: "counts D E R \<Longrightarrow> keeps D (log_line R level l msg fs)"
  by (auto simp: keeps_def log_line_def counts_def split: option.split)

lemma keeps_Fatal: "counts D E R \<Longrightarrow> keeps D (Fatal R msg rest)"
  using line_counts [of D E R FatalLevel] by (simp add: keeps_def Fatal_exits)

lemma http_Init_counts:
  assumes "counts D E R" and "\<And>a. keeps D (Run a)"
  shows "keeps D (http_Init R Run conf)"
  unfolding http_Init_def Infow_def
  by (cases "Conf_Http conf")
    (auto intro!: keeps_bindA keeps_tryA keeps_panic keeps_ret keeps_Fatal [OF assms(1)] line_counts [OF assms(1)] assms(2))

lemma grpc_Init_counts:
  assumes "counts D E R" and "\<And>a. keeps D (Listen a)" and "\<And>q l. keeps D (Serve q l)"
  shows "keeps D (grpc_Init R Listen Serve conf)"
  unfolding grpc_Init_def Infow_def
  by (cases "Conf_Grpc conf")
    (auto intro!: keeps_bindA keeps_tryA keeps_panic keeps_ret keeps_Fatal [OF assms(1)] line_counts [OF assms(1)] assms(2,3) simp: Let_def)

lemma shutdown_counts:
  assumes "counts D E R"
  shows "D w < D (snd (telemetry_shutdown E tel c w))"
proof -
  have step: "D (snd (otel_Shutdown E h c v)) = D v + 1" for h v using assms by (simp add: counts_def)
  show ?thesis
  proof (cases tel)
    case (LocalTracer tp)
    then show ?thesis by (simp add: telemetry_shutdown_def step)
  next
    case (Exporting tp mp rt)
    have tail: "D v < D (snd (tryA (otel_Shutdown E tp c) (\<lambda>_. case x of None \<Rightarrow> ret () | Some e \<Rightarrow> throw e)
        (\<lambda>err. case x of None \<Rightarrow> throw err | Some e \<Rightarrow> throw e) v))" for x v
      using step [of tp v] by (auto simp: tryA_def act_simps split: prod.splits res.splits option.splits)
    show ?thesis
    proof (cases mp)
      case None
      then show ?thesis using tail [of w None] by (simp add: telemetry_shutdown_def Exporting bindA_ret)
    next
      case (Some m)
      obtain r v where m: "otel_Shutdown E m c w = (r, v)" by fastforce
      have v: "D v = D w + 1" using step [of m w] m by simp
      show ?thesis
        using m v tail [of v None] tail [of v "err_of r"] 
        by (cases r) (auto simp: telemetry_shutdown_def Exporting Some bindA_def tryA_def ret_def split: prod.splits res.splits)
    qed
  qed
qed

lemma main_end_counts:
  assumes "counts D E R" and "main_end R E tel sig w = (r, w')"
  shows "D w < D w'"
proof -
  obtain w1 where w1: "Infow R (log_Logger R) (''Received signal: '' @ sig @ '', shutting down...'') [] w = (Ok (), w1)" "D w1 = D w"
    using line_counts [OF assms(1), of InfoLevel] by (auto simp: keeps_def Infow_def log_line_def)
  obtain x w2 where x: "telemetry_shutdown E tel (WithTimeout Background (5 * Second)) w1 = (x, w2)" by fastforce
  have "D w1 < D w2" using shutdown_counts [OF assms(1), of w1 tel] x by (metis snd_conv)
  moreover have "D (snd (Errorw R (log_Logger R) msg fs v)) = D v" for msg fs v
    using line_counts [OF assms(1), of ErrorLevel] by (simp add: keeps_def Errorw_def)
  ultimately show ?thesis
    using assms(2) w1 x by (cases x) (auto simp: main_end_def bindA_def tryA_def ret_def, metis snd_conv)
qed

text \<open>
  C31. How the process ends: with status 0 exactly by a signal to main, which has then shut
  telemetry down; a server that cannot listen or stops serving, or a section that is missing
  from the configuration, ends it with 1 or 2 on the spot, and the spans and metrics not yet
  exported are lost: the interrupt that the servers are meant to send after the fatal line
  is never sent.
\<close>

theorem failing_server_skips_shutdown:
  assumes "process_step E G {http_Init R Run (glob_Conf G), grpc_Init R Listen Serve (glob_Conf G)} (Waiting, w) (Ended n, w')"
    and "R = glob_Runtime G" and "counts D E R"
    and "\<And>a. keeps D (Run a)" and "\<And>a. keeps D (Listen a)" and "\<And>q l. keeps D (Serve q l)"
  shows "n = 0 \<and> D w < D w' \<and> (\<exists>sig r. main_end R E (glob_Telemetry G) sig w = (r, w')) \<or> n \<in> {1, 2} \<and> D w' = D w"
proof -
  let ?servers = "{http_Init R Run (glob_Conf G), grpc_Init R Listen Serve (glob_Conf G)}"
  have ends: "e = Returned \<or> e = Exited 1" if "s \<in> ?servers" "s v = (Ok e, v')" for s v e v'
  proof -
    from that(1) consider "s = http_Init R Run (glob_Conf G)" | "s = grpc_Init R Listen Serve (glob_Conf G)" by blast
    then show ?thesis
      by cases (rule yieldsD [OF http_Init_yields], use that(2) in simp, rule yieldsD [OF grpc_Init_yields], use that(2) in simp)
  qed
  have kept: "D v' = D v" if "s \<in> ?servers" "s v = (x, v')" for s v x v'
  proof -
    from that(1) consider "s = http_Init R Run (glob_Conf G)" | "s = grpc_Init R Listen Serve (glob_Conf G)" by blast
    then show ?thesis
      by cases (rule keepsD [OF http_Init_counts [OF assms(3,4)]], use that(2) in simp,
        rule keepsD [OF grpc_Init_counts [OF assms(3,5,6)]], use that(2) in simp)
  qed
  show ?thesis
    using assms(1)
  proof (cases rule: process_step.cases)
    case (signal sig r)
    then show ?thesis using main_end_counts [OF assms(3)] assms(2) by blast
  next
    case (interrupted s w1 r)
    then show ?thesis using ends [of s w Interrupted w1] by blast
  next
    case (exited s)
    then show ?thesis using ends [of s w "Exited n" w'] kept by blast
  next
    case (crashed s m)
    then show ?thesis using kept by blast
  qed
qed

subsection \<open>Witnesses\<close>

text \<open>Files that can be written, a Redis that refuses, no OTLP variables, a Kafka without brokers.\<close>

definition ref_files :: "refw Files" where
  "ref_files = \<lparr>file_Getwd = ret (''/app'', None), file_MkdirAll = (\<lambda>d. ret ()), file_Append = (\<lambda>f. ret ()),
     file_Write = (\<lambda>c out e w. w)\<rparr>"

definition ref_conf :: Conf where
  "ref_conf = \<lparr>Conf_Grpc = None, Conf_Log = Some \<lparr>Log_Level = ''info'', Log_FilePath = ''/logs/id.log''\<rparr>,
     Conf_Http = Some \<lparr>HttpConfig_Host = ''0.0.0.0'', HttpConfig_Port = 8080\<rparr>, Conf_System = None, Conf_Singpass = None,
     Conf_Kafka = Some \<lparr>Kafka_Enabled = True, Kafka_Brokers = [], Kafka_ClientID = []\<rparr>\<rparr>"

definition ref_production :: EncoderConfig where
  "ref_production = \<lparr>Encoder_TimeKey = ''ts'', Encoder_LevelKey = ''level'', Encoder_MessageKey = ''msg'',
     Encoder_EncodeTime = EpochTimeEncoder, Encoder_EncodeLevel = LowercaseLevelEncoder\<rparr>"

definition boot_env :: "string \<Rightarrow> string" where
  "boot_env key = (if key = ''MYSQL_DSN'' then ''dsn'' else if key = ''REDIS_ADDR'' then ''redis:6379'' else [])"

definition ref_boot :: "(refw, unit, unit, unit) Boot" where
  "ref_boot = \<lparr>boot_Runtime = ref_runtime\<lparr>os_Getenv := boot_env\<rparr>, boot_Files = ref_files,
     boot_ReadInConfig = (\<lambda>s. ret ()), boot_Unmarshal = (\<lambda>v. Inr ref_conf), boot_production = ref_production,
     boot_level = (\<lambda>s. Inr InfoLevel), boot_Open = (\<lambda>s g. ret ref_gorm), boot_AutoMigrate = (\<lambda>db. ret ()),
     boot_NewRedis = (\<lambda>options. ref_redis), boot_Ping = (\<lambda>c x. throw (External ''refused'')), boot_Close = (\<lambda>c. ret ()),
     boot_ParseFloat = (\<lambda>s. Inr (Finite 1)), boot_Otel = ref_otel, boot_NewKgo = (\<lambda>opts. Inr ref_kafka)\<rparr>"

lemma ref_boot_ok: "required_ok rw_stores ref_boot" "optional_ok rw_stores ref_boot"
proof -
  have "runtime_ok rw_stores (ref_runtime\<lparr>os_Getenv := boot_env\<rparr>)"
    using ref_runtime_ok by (simp add: runtime_ok_def keeps_def now_def)
  moreover have "boot_env ''MYSQL_DSN'' \<noteq> []" by (simp add: boot_env_def)
  ultimately show "required_ok rw_stores ref_boot"
    by (simp add: required_ok_def ref_boot_def ref_files_def good_ret)
  show "optional_ok rw_stores ref_boot"
    by (simp add: optional_ok_def ref_boot_def ref_sdk_ok quiet_soft)
qed


theorem log_file_below_workdir_witness:
  "filepath_Join [''/app'', ''/logs//id.log''] = ''/app/logs/id.log''"
proof -
  have "filepath_Join [''/app'', ''/logs//id.log''] = ''/'' @ Join (path_names ''/app'' @ path_names ''/logs//id.log'') ''/''"
    by (rule log_file_below_workdir) code_simp+
  also have "\<dots> = ''/app/logs/id.log''" by code_simp
  finally show ?thesis .
qed

text \<open>A world that is the messages written, by the place they were written to.\<close>

definition sink_files :: "(WriteSyncer \<times> string) list Files" where
  "sink_files = \<lparr>file_Getwd = ret (''/app'', None), file_MkdirAll = (\<lambda>d. ret ()), file_Append = (\<lambda>f. ret ()),
     file_Write = (\<lambda>c out e w. w @ [(out, Entry_Message e)])\<rparr>"

definition sink_runtime :: "(WriteSyncer \<times> string) list Runtime" where
  "sink_runtime = \<lparr>time_Now = (\<lambda>w. (0, w)), rand_Read = (\<lambda>n. throw (External ''no entropy'')),
     rand_Int = (\<lambda>n. throw (External ''no entropy'')), os_Getenv = (\<lambda>k. []),
     log_Logger = \<lparr>Logger_Level = None, Logger_Fields = []\<rparr>, log_Write = (\<lambda>e w. w),
     otel_Start = (\<lambda>t n k a c w. ((c, None), w)), otel_Span = (\<lambda>h k w. w), otel_Inject = (\<lambda>c. [])\<rparr>"

theorem logger_outcome_witness:
  "case fst (InitLogger sink_runtime sink_files ref_production (\<lambda>s. Inr InfoLevel) (Some ref_conf) []) of
      Ok R' \<Rightarrow> snd (log_line R' ErrorLevel (log_Logger R') ''boom'' [] []) = [(LogFile ''/app/logs/id.log'', ''boom''), (Stdout, ''boom'')]
    | _ \<Rightarrow> False"
proof -
  let ?run = "InitLogger sink_runtime sink_files ref_production (\<lambda>s. Inr InfoLevel) (Some ref_conf) []"
  have path: "log_path (Some ref_conf) \<noteq> []" and at: "filepath_Join [''/app'', log_path (Some ref_conf)] = ''/app/logs/id.log''"
    and level: "getLogLevel (\<lambda>s. Inr InfoLevel) (Some ref_conf) \<le> ErrorLevel" by code_simp+
  obtain R' where R': "fst ?run = Ok R'"
    using path by (simp add: InitLogger_def getLogWriter_def sink_files_def Let_def act_simps tryA_def bindA_def)
  from logger_outcome [OF prod.collapse [symmetric], where R = sink_runtime and F = sink_files and production = ref_production
      and unmarshal = "\<lambda>s. Inr InfoLevel" and config = "Some ref_conf" and w = "[]"] path
  obtain sinks where sinks: "\<exists>cwd v. file_Getwd sink_files [] = (Ok (cwd, None), v) \<and> sinks = [LogFile (filepath_Join [cwd, log_path (Some ref_conf)]), Stdout]"
    and line: "\<And>level msg fs v. log_line R' level (log_Logger R') msg fs v = (Ok (),
               if getLogLevel (\<lambda>s. Inr InfoLevel) (Some ref_conf) \<le> level
               then fold (\<lambda>out. file_Write sink_files (getEncoder ref_production) out \<lparr>Entry_Level = level, Entry_Message = msg,
                   Entry_Fields = [(''service'', LogString (log_serviceName sink_runtime)), (''env'', LogString (envName sink_runtime))] @ fs\<rparr>) sinks v
               else v)"
    unfolding R' res.case by (elim exE conjE disjE) simp_all
  have "sinks = [LogFile ''/app/logs/id.log'', Stdout]" using sinks at by (auto simp: sink_files_def act_simps)
  then show ?thesis unfolding R' res.case line using level by (simp add: sink_files_def)
qed

text \<open>A count of shutdowns in the counter of the reference world, and a port that is taken.\<close>

definition counting_otel :: "(refw, unit, unit) Otel" where
  "counting_otel = ref_otel\<lparr>otel_Shutdown := (\<lambda>h c w. (Ok (), w\<lparr>rw_next := rw_next w + 1\<rparr>))\<rparr>"

definition ref_globals :: "refw Globals" where
  "ref_globals = \<lparr>glob_Conf = ref_conf, glob_Runtime = ref_runtime, glob_DB = ref_gorm, glob_Redis = None,
     glob_Telemetry = LocalTracer 1, glob_Producer = nopKafkaProducer_Publish ref_runtime\<rparr>"

theorem failing_server_skips_shutdown_witness:
  "\<exists>w'. process_step counting_otel ref_globals {http_Init ref_runtime (\<lambda>a. throw (External ''address in use'')) ref_conf,
      grpc_Init ref_runtime ret (\<lambda>q l. ret ()) ref_conf} (Waiting, ref_start) (Ended 1, w') \<and> rw_next w' = rw_next ref_start"
proof -
  let ?http = "http_Init ref_runtime (\<lambda>a. throw (External ''address in use'')) ref_conf"
  let ?grpc = "grpc_Init ref_runtime ret (\<lambda>q l. ret ()) ref_conf"
  have "fst (?http ref_start) = Ok (Exited 1)" by code_simp
  then obtain w' where w': "?http ref_start = (Ok (Exited 1), w')" by (metis prod.collapse)
  have step: "process_step counting_otel ref_globals {?http, ?grpc} (Waiting, ref_start) (Ended 1, w')"
    by (rule process_step.exited [where s = ?http]) (simp, rule w')
  have conf: "glob_Conf ref_globals = ref_conf" "ref_runtime = glob_Runtime ref_globals" by (simp_all add: ref_globals_def)
  have counts: "counts rw_next counting_otel ref_runtime"
    by (simp add: counts_def counting_otel_def ref_runtime_def)
  from failing_server_skips_shutdown [where Listen = ret and Serve = "\<lambda>q l. ret ()", OF step [folded conf(1)] conf(2) counts]
  show ?thesis using step by (auto simp: keeps_ret keeps_throw)
qed

end
