(* ===== verification/Singletons.thy ===== *)
theory Singletons
  imports ServerLaws
begin

section \<open>The singletons behind the services\<close>

text \<open>
  The getters of server/repository/dao, server/kafka/producer, server/proxy and server/service:
  each makes one object per process, on its first call, guarded by a \<open>sync.Once\<close>, out of what
  the getters it calls return. The objects made so far are a state beside the world. That the
  services so obtained are those of \<open>wired\<close> is proved at the end.
\<close>

subsection \<open>One object\<close>

text \<open>
  A guard and the variable beside it, which is nil at first. \<open>sync.Once\<close> counts a function that
  panicked as done: the variable then stays nil.
\<close>

record 'a Once =
  once_done :: bool
  once_value :: "'a option"

definition fresh_once :: "'a Once" where
  "fresh_once = \<lparr>once_done = False, once_value = None\<rparr>"

abbreviation made :: "'a \<Rightarrow> 'a Once" where
  "made a \<equiv> \<lparr>once_done = True, once_value = Some a\<rparr>"

definition once_get :: "('g \<Rightarrow> 'a Once) \<Rightarrow> ('a Once \<Rightarrow> 'g \<Rightarrow> 'g) \<Rightarrow> ('g \<times> 'w, 'a) act \<Rightarrow> ('g \<times> 'w, 'a option) act" where
  "once_get sel upd build = (\<lambda>(g, w). if once_done (sel g) then (Ok (once_value (sel g)), (g, w))
     else case build (g, w) of
         (Ok a, (g', w')) \<Rightarrow> (Ok (Some a), (upd (made a) g', w'))
       | (Err e, (g', w')) \<Rightarrow> (Err e, (upd \<lparr>once_done = True, once_value = None\<rparr> g', w'))
       | (Panicked m, (g', w')) \<Rightarrow> (Panicked m, (upd \<lparr>once_done = True, once_value = None\<rparr> g', w')))"

lemma runs_once_get:
  assumes "once_done (sel g) \<Longrightarrow> P (once_value (sel g)) (g, w)"
    and "\<not> once_done (sel g) \<Longrightarrow> runs build (g, w) (\<lambda>a s. P (Some a) (upd (made a) (fst s), snd s)) (\<lambda>_ _. False)"
  shows "runs (once_get sel upd build) (g, w) P Q"
proof (cases "once_done (sel g)")
  case True
  then show ?thesis using assms(1) by (simp add: runs_def once_get_def)
next
  case False
  from assms(2) [OF this] show ?thesis
    using False by (cases rule: runsE) (auto simp: runs_def once_get_def)
qed

subsection \<open>The objects\<close>

text \<open>A field of an interface or pointer type is \<open>None\<close> for nil.\<close>

record 'w userRegisteredProducerImpl =
  Registered_Producer :: "'w KafkaProducer option"
  Registered_Topic :: string

record 'w userKYCCompleteProducerImpl =
  Complete_Producer :: "'w KafkaProducer option"
  Complete_Topic :: string

record 'w UserProfileServiceImpl =
  Profiles_Users :: "'w UserDao option"
  Profiles_Mappings :: "'w UserAuthMappingDao option"

record 'w userServiceImpl =
  Service_Mappings :: "'w UserAuthMappingDao option"
  Service_Users :: "'w UserDao option"
  Service_Tx :: "'w GormDB"
  Service_Registered :: "'w userRegisteredProducerImpl option"

record ('w, 'k, 's) kycServiceImpl =
  KYC_Proxy :: "('k, 's) singpassProxyImpl option"
  KYC_Users :: "'w UserDao option"
  KYC_Store :: "memoryKYCStateStore option"
  KYC_Complete :: "'w userKYCCompleteProducerImpl option"

definition NewUserProfileService :: "'w UserDao option \<Rightarrow> 'w UserAuthMappingDao option \<Rightarrow> 'w UserProfileServiceImpl" where
  "NewUserProfileService users mappings = \<lparr>Profiles_Users = users, Profiles_Mappings = mappings\<rparr>"

definition newUserMappingService ::
    "'w UserAuthMappingDao option \<Rightarrow> 'w UserDao option \<Rightarrow> 'w GormDB \<Rightarrow> 'w userRegisteredProducerImpl option \<Rightarrow> 'w userServiceImpl" where
  "newUserMappingService mappings users tx registered =
    \<lparr>Service_Mappings = mappings, Service_Users = users, Service_Tx = tx, Service_Registered = registered\<rparr>"

definition newKYCService ::
    "('k, 's) singpassProxyImpl option \<Rightarrow> 'w UserDao option \<Rightarrow> memoryKYCStateStore option \<Rightarrow> 'w userKYCCompleteProducerImpl option
      \<Rightarrow> ('w, 'k, 's) kycServiceImpl" where
  "newKYCService proxy users store kycComplete =
    \<lparr>KYC_Proxy = proxy, KYC_Users = users, KYC_Store = store, KYC_Complete = kycComplete\<rparr>"

subsection \<open>The getters\<close>

record ('w, 'k, 's) Singletons =
  single_users :: "'w UserDao Once"
  single_mappings :: "'w UserAuthMappingDao Once"
  single_kafka :: "'w KafkaProducer Once"
  single_registered :: "'w userRegisteredProducerImpl Once"
  single_complete :: "'w userKYCCompleteProducerImpl Once"
  single_proxy :: "('k, 's) singpassProxyImpl Once"
  single_store :: "memoryKYCStateStore Once"
  single_profiles :: "'w UserProfileServiceImpl Once"
  single_service :: "'w userServiceImpl Once"
  single_kyc :: "('w, 'k, 's) kycServiceImpl Once"

definition fresh_singletons :: "('w, 'k, 's) Singletons" where
  "fresh_singletons = \<lparr>single_users = fresh_once, single_mappings = fresh_once, single_kafka = fresh_once,
     single_registered = fresh_once, single_complete = fresh_once, single_proxy = fresh_once, single_store = fresh_once,
     single_profiles = fresh_once, single_service = fresh_once, single_kyc = fresh_once\<rparr>"

text \<open>
  \<open>d\<close> holds the globals the getters read: the database that start-up has opened, the clients,
  the configuration of Singpass. \<open>New\<close> and \<open>cfg\<close> are franz-go's constructor and the section of
  the configuration about Kafka.
\<close>

type_synonym ('w, 'k, 's, 'a) getter = "(('w, 'k, 's) Singletons \<times> 'w, 'a option) act"

definition GetUserDao :: "('w, 'k, 's) Deployment \<Rightarrow> ('w, 'k, 's, 'w UserDao) getter" where
  "GetUserDao d = once_get single_users (\<lambda>x. single_users_update (\<lambda>_. x)) (ret (UserDaoImpl (Some (dep_DB d))))"

definition GetUserAuthMappingDao :: "('w, 'k, 's) Deployment \<Rightarrow> ('w, 'k, 's, 'w UserAuthMappingDao) getter" where
  "GetUserAuthMappingDao d = once_get single_mappings (\<lambda>x. single_mappings_update (\<lambda>_. x))
     (ret (UserAuthMappingDaoImpl (Some (dep_DB d)) (dep_Redis d) (dep_MappingJson d)))"

definition GetKafkaProducer ::
    "('w, 'k, 's) Deployment \<Rightarrow> (KgoOpt list \<Rightarrow> go_error + 'w KgoClient) \<Rightarrow> KafkaConfig option \<Rightarrow> ('w, 'k, 's, 'w KafkaProducer) getter" where
  "GetKafkaProducer d New cfg = once_get single_kafka (\<lambda>x. single_kafka_update (\<lambda>_. x))
     (onSnd (buildProducer (dep_Runtime d) New cfg))"

definition Ensure ::
    "('w, 'k, 's) Deployment \<Rightarrow> (KgoOpt list \<Rightarrow> go_error + 'w KgoClient) \<Rightarrow> KafkaConfig option
      \<Rightarrow> (('w, 'k, 's) Singletons \<times> 'w, unit) act" where
  "Ensure d New cfg = bindA (GetKafkaProducer d New cfg) (\<lambda>_. ret ())"

definition GetUserRegisteredProducer ::
    "('w, 'k, 's) Deployment \<Rightarrow> (KgoOpt list \<Rightarrow> go_error + 'w KgoClient) \<Rightarrow> KafkaConfig option
      \<Rightarrow> ('w, 'k, 's, 'w userRegisteredProducerImpl) getter" where
  "GetUserRegisteredProducer d New cfg = once_get single_registered (\<lambda>x. single_registered_update (\<lambda>_. x))
     (bindA (GetKafkaProducer d New cfg) (\<lambda>p. ret \<lparr>Registered_Producer = p, Registered_Topic = UserRegisteredTopic\<rparr>))"

definition GetUserKYCCompleteProducer ::
    "('w, 'k, 's) Deployment \<Rightarrow> (KgoOpt list \<Rightarrow> go_error + 'w KgoClient) \<Rightarrow> KafkaConfig option
      \<Rightarrow> ('w, 'k, 's, 'w userKYCCompleteProducerImpl) getter" where
  "GetUserKYCCompleteProducer d New cfg = once_get single_complete (\<lambda>x. single_complete_update (\<lambda>_. x))
     (bindA (GetKafkaProducer d New cfg) (\<lambda>p. ret \<lparr>Complete_Producer = p, Complete_Topic = UserKYCCompleteTopic\<rparr>))"

definition GetSingpassProxy :: "('w, 'k, 's) Deployment \<Rightarrow> ('w, 'k, 's, ('k, 's) singpassProxyImpl) getter" where
  "GetSingpassProxy d = once_get single_proxy (\<lambda>x. single_proxy_update (\<lambda>_. x))
     (onSnd (newSingpassProxy (dep_Singpass d) (dep_Runtime d) (dep_Http d) (dep_Jose d) (dep_SingpassJson d)))"

definition GetKYCStateStore :: "('w, 'k, 's, memoryKYCStateStore) getter" where
  "GetKYCStateStore = once_get single_store (\<lambda>x. single_store_update (\<lambda>_. x)) (ret (newMemoryKYCStateStore defaultKYCStateTTL))"

definition GetUserProfileService :: "('w, 'k, 's) Deployment \<Rightarrow> ('w, 'k, 's, 'w UserProfileServiceImpl) getter" where
  "GetUserProfileService d = once_get single_profiles (\<lambda>x. single_profiles_update (\<lambda>_. x))
     (bindA (GetUserDao d) (\<lambda>users. bindA (GetUserAuthMappingDao d) (\<lambda>mappings. ret (NewUserProfileService users mappings))))"

definition GetUserMappingService ::
    "('w, 'k, 's) Deployment \<Rightarrow> (KgoOpt list \<Rightarrow> go_error + 'w KgoClient) \<Rightarrow> KafkaConfig option \<Rightarrow> ('w, 'k, 's, 'w userServiceImpl) getter" where
  "GetUserMappingService d New cfg = once_get single_service (\<lambda>x. single_service_update (\<lambda>_. x))
     (bindA (GetUserAuthMappingDao d) (\<lambda>mappings. bindA (GetUserDao d) (\<lambda>users.
      bindA (GetUserRegisteredProducer d New cfg) (\<lambda>registered.
        ret (newUserMappingService mappings users (dep_DB d) registered)))))"

definition GetKYCService ::
    "('w, 'k, 's) Deployment \<Rightarrow> (KgoOpt list \<Rightarrow> go_error + 'w KgoClient) \<Rightarrow> KafkaConfig option
      \<Rightarrow> ('w, 'k, 's, ('w, 'k, 's) kycServiceImpl) getter" where
  "GetKYCService d New cfg = once_get single_kyc (\<lambda>x. single_kyc_update (\<lambda>_. x))
     (bindA (GetSingpassProxy d) (\<lambda>proxy. bindA (GetUserDao d) (\<lambda>users. bindA GetKYCStateStore (\<lambda>store.
      bindA (GetUserKYCCompleteProducer d New cfg) (\<lambda>kycComplete. ret (newKYCService proxy users store kycComplete))))))"

subsection \<open>What the getters keep\<close>

text \<open>The Kafka producer is always made, and always the same one.\<close>

definition the_producer ::
    "'w Runtime \<Rightarrow> (KgoOpt list \<Rightarrow> go_error + 'w KgoClient) \<Rightarrow> KafkaConfig option \<Rightarrow> 'w KafkaProducer" where
  "the_producer R New cfg = (case cfg of
      Some k \<Rightarrow> if Kafka_Enabled k \<and> validateConfig cfg = None
        then (case New (producer_opts k) of Inr client \<Rightarrow> kafkaProducerImpl_Publish R client | Inl e \<Rightarrow> nopKafkaProducer_Publish R)
        else nopKafkaProducer_Publish R
    | None \<Rightarrow> nopKafkaProducer_Publish R)"

lemma buildProducer_runs: "runs (buildProducer R New cfg) w (\<lambda>p _. p = the_producer R New cfg) Q"
proof -
  have line: "runs (log_line R level l msg fs) w (\<lambda>_ _. True) Q" for level l msg fs
    by (simp add: runs_def log_line_def)
  show ?thesis
    by (auto simp: buildProducer_def the_producer_def Infow_def Errorw_def split: option.splits sum.splits
        intro!: runs_bindA [OF line])
qed

lemma newSingpassProxy_runs:
  assumes "http_ok S H"
  shows "runs (newSingpassProxy cfg R H X D) w (\<lambda>_ w'. S w' = S w) Q"
proof -
  have raw: "runs (fetchJWKSRaw H uri) w1 (\<lambda>_ w'. S w' = S w) (\<lambda>_ w'. S w' = S w)" if "S w1 = S w" for uri w1
    unfolding fetchJWKSRaw_def
    by (rule runs_tryA [OF http_runs [OF assms]]) (auto simp: that split: sum.splits)
  have keys: "runs (if uri \<noteq> [] then tryA (fetchJWKS X H uri) (\<lambda>s. ret (Some s)) (\<lambda>err. ret None) else ret None) w
      (\<lambda>_ w'. S w' = S w) (\<lambda>_ _. False)" for uri
  proof -
    have "runs (fetchJWKS X H uri) w (\<lambda>_ w'. S w' = S w) (\<lambda>_ w'. S w' = S w)"
      unfolding fetchJWKS_def by (rule runs_bindA [OF raw [OF refl]]) (auto split: sum.splits)
    then show ?thesis by (auto intro: runs_tryA)
  qed
  have client: "runs (loadClientKeys R H X D) w1 (\<lambda>_ w'. S w' = S w) (\<lambda>_ w'. S w' = S w)" if "S w1 = S w" for w1
  proof -
    have "runs (loadClientJWKSRaw R H) w1 (\<lambda>_ w'. S w' = S w) (\<lambda>_ w'. S w' = S w)"
      unfolding loadClientJWKSRaw_def Let_def using raw [OF that] that by simp
    then show ?thesis
      unfolding loadClientKeys_def by (rule runs_bindA) (auto split: sum.splits)
  qed
  show ?thesis
    unfolding newSingpassProxy_def Let_def
    by (rule runs_bindA [OF keys], rule runs_bindA [OF runs_tryA [OF client]]) auto
qed

text \<open>What loading the keys of Singpass may have given.\<close>

definition fetched :: "('w, 'k, 's) Deployment \<Rightarrow> ('k, 's) singpassProxyImpl \<Rightarrow> bool" where
  "fetched d p \<longleftrightarrow> (\<exists>v v'. newSingpassProxy (dep_Singpass d) (dep_Runtime d) (dep_Http d) (dep_Jose d) (dep_SingpassJson d) v = (Ok p, v'))"

text \<open>
  Every variable is nil or holds the one object it can hold; that of the KYC service is made
  of the one proxy.
\<close>

definition holds :: "'a Once \<Rightarrow> 'a \<Rightarrow> bool" where
  "holds x a \<longleftrightarrow> x = fresh_once \<or> x = made a"

definition the_kyc ::
    "('w, 'k, 's) Deployment \<Rightarrow> 'w KafkaProducer \<Rightarrow> ('k, 's) singpassProxyImpl \<Rightarrow> ('w, 'k, 's) kycServiceImpl" where
  "the_kyc d publish p = newKYCService (Some p) (Some (UserDaoImpl (Some (dep_DB d))))
     (Some (newMemoryKYCStateStore defaultKYCStateTTL))
     (Some \<lparr>Complete_Producer = Some publish, Complete_Topic = UserKYCCompleteTopic\<rparr>)"

abbreviation dep_mapping_dao :: "('w, 'k, 's) Deployment \<Rightarrow> 'w UserAuthMappingDao" where
  "dep_mapping_dao d \<equiv> UserAuthMappingDaoImpl (Some (dep_DB d)) (dep_Redis d) (dep_MappingJson d)"

definition the_profiles :: "('w, 'k, 's) Deployment \<Rightarrow> 'w UserProfileServiceImpl" where
  "the_profiles d = NewUserProfileService (Some (UserDaoImpl (Some (dep_DB d)))) (Some (dep_mapping_dao d))"

definition the_service :: "('w, 'k, 's) Deployment \<Rightarrow> 'w KafkaProducer \<Rightarrow> 'w userServiceImpl" where
  "the_service d publish = newUserMappingService (Some (dep_mapping_dao d)) (Some (UserDaoImpl (Some (dep_DB d)))) (dep_DB d)
     (Some \<lparr>Registered_Producer = Some publish, Registered_Topic = UserRegisteredTopic\<rparr>)"

definition singletons_ok :: "('w, 'k, 's) Deployment \<Rightarrow> 'w KafkaProducer \<Rightarrow> ('w, 'k, 's) Singletons \<Rightarrow> bool" where
  "singletons_ok d publish g \<longleftrightarrow> holds (single_users g) (UserDaoImpl (Some (dep_DB d))) \<and> holds (single_mappings g) (dep_mapping_dao d)
     \<and> holds (single_kafka g) publish
     \<and> holds (single_registered g) \<lparr>Registered_Producer = Some publish, Registered_Topic = UserRegisteredTopic\<rparr>
     \<and> holds (single_complete g) \<lparr>Complete_Producer = Some publish, Complete_Topic = UserKYCCompleteTopic\<rparr>
     \<and> holds (single_store g) (newMemoryKYCStateStore defaultKYCStateTTL)
     \<and> holds (single_profiles g) (the_profiles d) \<and> holds (single_service g) (the_service d publish)
     \<and> (single_proxy g = fresh_once \<and> single_kyc g = fresh_once
        \<or> (\<exists>p. fetched d p \<and> single_proxy g = made p \<and> holds (single_kyc g) (the_kyc d publish p)))"

text \<open>\<open>grown\<close>: a getter may make the proxy, but never another one.\<close>

definition grown :: "('w, 'k, 's) Deployment \<Rightarrow> 'w KafkaProducer \<Rightarrow> ('w, 'k, 's) Singletons \<Rightarrow> ('w, 'k, 's) Singletons \<Rightarrow> bool" where
  "grown d publish g g' \<longleftrightarrow> singletons_ok d publish g' \<and> (\<forall>p. single_proxy g = made p \<longrightarrow> single_proxy g' = made p)"

lemma grown_trans: "grown d P g g' \<Longrightarrow> grown d P g' g'' \<Longrightarrow> grown d P g g''"
  by (simp add: grown_def)

lemma holds_simps [simp]: "holds (made a) a" "holds fresh_once a"
  by (simp_all add: holds_def)

lemma holds_value: "holds x a \<Longrightarrow> once_done x \<Longrightarrow> once_value x = Some a"
  by (auto simp: holds_def fresh_once_def)

lemma grown_refl: "singletons_ok d P g \<Longrightarrow> grown d P g g"
  by (simp add: grown_def)

lemma runs_get_bind:
  fixes d :: "('w, 'k, 's) Deployment" and w :: 'w
  assumes "runs m (g, w) (\<lambda>r s. grown d P g (fst s) \<and> A r (fst s)) F"
    and "\<And>r g' w'. grown d P g g' \<Longrightarrow> A r g' \<Longrightarrow> runs (f r) (g', w') (\<lambda>a s. grown d P g' (fst s) \<and> B a (fst s)) F"
  shows "runs (bindA m f) (g, w) (\<lambda>a s. grown d P g (fst s) \<and> B a (fst s)) F"
proof (rule runs_bindA [OF assms(1)])
  fix r and s :: "('w, 'k, 's) Singletons \<times> 'w" assume "grown d P g (fst s) \<and> A r (fst s)"
  then show "runs (f r) s (\<lambda>a s. grown d P g (fst s) \<and> B a (fst s)) F"
    using assms(2) [of "fst s" r "snd s"] by (cases s) (auto elim!: runs_mono intro: grown_trans)
qed

lemma runs_get_ret: "singletons_ok d P g \<Longrightarrow> B a g \<Longrightarrow> runs (ret a) (g, w) (\<lambda>a s. grown d P g (fst s) \<and> B a (fst s)) F"
  by (simp add: grown_refl)

lemma grownD: "grown d P g g' \<Longrightarrow> singletons_ok d P g'" "grown d P g g' \<Longrightarrow> single_proxy g = made p \<Longrightarrow> single_proxy g' = made p"
  by (simp_all add: grown_def)

text \<open>The daos and the store are made of what start-up has left.\<close>

lemma plain_getters_run:
  assumes ok: "singletons_ok d P g"
  shows "runs (GetUserDao d) (g, w) (\<lambda>r s. grown d P g (fst s) \<and> r = Some (UserDaoImpl (Some (dep_DB d)))) F"
    and "runs (GetUserAuthMappingDao d) (g, w) (\<lambda>r s. grown d P g (fst s) \<and> r = Some (dep_mapping_dao d)) F"
    and "runs GetKYCStateStore (g, w) (\<lambda>r s. grown d P g (fst s) \<and> r = Some (newMemoryKYCStateStore defaultKYCStateTTL)) F"
  unfolding GetUserDao_def GetUserAuthMappingDao_def GetKYCStateStore_def
  by (rule runs_once_get; use ok in \<open>simp add: grown_def singletons_ok_def holds_value\<close>)+

lemma GetKafkaProducer_runs:
  assumes "singletons_ok d P g" and P: "P = the_producer (dep_Runtime d) New cfg"
  shows "runs (GetKafkaProducer d New cfg) (g, w) (\<lambda>r s. grown d P g (fst s) \<and> r = Some P) F"
  unfolding GetKafkaProducer_def
proof (rule runs_once_get)
  have "runs (onSnd (buildProducer (dep_Runtime d) New cfg)) (g, w) (\<lambda>p s. p = P \<and> fst s = g) (\<lambda>_ _. False)"
    unfolding P by (rule runs_mono [OF runs_onSnd [OF buildProducer_runs [where Q = "\<lambda>_ _. False"]]]) auto
  then show "runs (onSnd (buildProducer (dep_Runtime d) New cfg)) (g, w)
      (\<lambda>a s. grown d P g (fst (single_kafka_update (\<lambda>_. made a) (fst s), snd s)) \<and> Some a = Some P) (\<lambda>_ _. False)"
    by (rule runs_mono) (use assms(1) in \<open>auto simp: grown_def singletons_ok_def\<close>)
qed (use assms(1) in \<open>simp add: grown_def singletons_ok_def holds_value\<close>)

lemma producers_run:
  assumes ok: "singletons_ok d P g" and P: "P = the_producer (dep_Runtime d) New cfg"
  shows "runs (GetUserRegisteredProducer d New cfg) (g, w)
      (\<lambda>r s. grown d P g (fst s) \<and> r = Some \<lparr>Registered_Producer = Some P, Registered_Topic = UserRegisteredTopic\<rparr>) F"
    and "runs (GetUserKYCCompleteProducer d New cfg) (g, w)
      (\<lambda>r s. grown d P g (fst s) \<and> r = Some \<lparr>Complete_Producer = Some P, Complete_Topic = UserKYCCompleteTopic\<rparr>) F"
  unfolding GetUserRegisteredProducer_def GetUserKYCCompleteProducer_def
  by (rule runs_once_get, use ok in \<open>simp add: grown_def singletons_ok_def holds_value\<close>,
    rule runs_bindA [OF GetKafkaProducer_runs [OF ok P]], auto simp: grown_def singletons_ok_def)+

lemma GetSingpassProxy_runs:
  assumes ok: "singletons_ok d P g" and H: "http_ok S (dep_Http d)"
  shows "runs (GetSingpassProxy d) (g, w) (\<lambda>r s. grown d P g (fst s) \<and> (\<exists>p. r = Some p \<and> single_proxy (fst s) = made p)) F"
  unfolding GetSingpassProxy_def
proof (rule runs_once_get)
  let ?new = "newSingpassProxy (dep_Singpass d) (dep_Runtime d) (dep_Http d) (dep_Jose d) (dep_SingpassJson d)"
  assume "\<not> once_done (single_proxy g)"
  then have fresh: "single_proxy g = fresh_once" "single_kyc g = fresh_once" using ok by (auto simp: singletons_ok_def)
  have "runs ?new w (\<lambda>p _. fetched d p) (\<lambda>_ _. False)"
    using newSingpassProxy_runs [OF H, of "dep_Singpass d" "dep_Runtime d" "dep_Jose d" "dep_SingpassJson d" w "\<lambda>_ _. False"]
    by (cases rule: runsE) (auto simp: runs_def fetched_def)
  from runs_onSnd [OF this, of g]
  show "runs (onSnd ?new) (g, w) (\<lambda>a s. grown d P g (fst (single_proxy_update (\<lambda>_. made a) (fst s), snd s))
      \<and> (\<exists>p. Some a = Some p \<and> single_proxy (fst (single_proxy_update (\<lambda>_. made a) (fst s), snd s)) = made p)) (\<lambda>_ _. False)"
    by (rule runs_mono) (use ok fresh in \<open>auto simp: grown_def singletons_ok_def fresh_once_def [symmetric]\<close>,
      simp add: fresh_once_def)
qed (use ok in \<open>auto simp: grown_def singletons_ok_def fresh_once_def\<close>)

lemma services_run:
  assumes ok: "singletons_ok d P g" and P: "P = the_producer (dep_Runtime d) New cfg"
  shows "runs (GetUserProfileService d) (g, w) (\<lambda>r s. grown d P g (fst s) \<and> r = Some (the_profiles d)) F"
    and "runs (GetUserMappingService d New cfg) (g, w) (\<lambda>r s. grown d P g (fst s) \<and> r = Some (the_service d P)) F"
proof -
  have "runs (bindA (GetUserDao d) (\<lambda>users. bindA (GetUserAuthMappingDao d) (\<lambda>mappings. ret (NewUserProfileService users mappings))))
      (g, w) (\<lambda>a s. grown d P g (fst s) \<and> a = the_profiles d) (\<lambda>_ _. False)"
    by (rule runs_get_bind [OF plain_getters_run(1) [OF ok]], rule runs_get_bind [OF plain_getters_run(2) [OF grownD(1)]], assumption,
      rule runs_get_ret) (auto simp: grown_def the_profiles_def)
  then have build: "runs (bindA (GetUserDao d) (\<lambda>users. bindA (GetUserAuthMappingDao d) (\<lambda>mappings. ret (NewUserProfileService users mappings))))
      (g, w) (\<lambda>a s. grown d P g (fst (single_profiles_update (\<lambda>_. made a) (fst s), snd s)) \<and> Some a = Some (the_profiles d)) (\<lambda>_ _. False)"
    by (rule runs_mono) (auto simp: grown_def singletons_ok_def)
  show "runs (GetUserProfileService d) (g, w) (\<lambda>r s. grown d P g (fst s) \<and> r = Some (the_profiles d)) F"
    unfolding GetUserProfileService_def
    by (rule runs_once_get [OF _ build]) (use ok in \<open>simp add: grown_def singletons_ok_def holds_value\<close>)
  let ?b = "bindA (GetUserAuthMappingDao d) (\<lambda>mappings. bindA (GetUserDao d) (\<lambda>users.
      bindA (GetUserRegisteredProducer d New cfg) (\<lambda>registered. ret (newUserMappingService mappings users (dep_DB d) registered))))"
  have "runs ?b (g, w) (\<lambda>a s. grown d P g (fst s) \<and> a = the_service d P) (\<lambda>_ _. False)"
    by (rule runs_get_bind [OF plain_getters_run(2) [OF ok]], rule runs_get_bind [OF plain_getters_run(1) [OF grownD(1)]], assumption,
      rule runs_get_bind [OF producers_run(1) [OF grownD(1) P]], assumption, rule runs_get_ret) (auto simp: grown_def the_service_def)
  then have build: "runs ?b (g, w) (\<lambda>a s. grown d P g (fst (single_service_update (\<lambda>_. made a) (fst s), snd s)) \<and> Some a = Some (the_service d P))
      (\<lambda>_ _. False)"
    by (rule runs_mono) (auto simp: grown_def singletons_ok_def)
  show "runs (GetUserMappingService d New cfg) (g, w) (\<lambda>r s. grown d P g (fst s) \<and> r = Some (the_service d P)) F"
    unfolding GetUserMappingService_def
    by (rule runs_once_get [OF _ build]) (use ok in \<open>simp add: grown_def singletons_ok_def holds_value\<close>)
qed

lemma GetKYCService_runs:
  assumes ok: "singletons_ok d P g" and P: "P = the_producer (dep_Runtime d) New cfg" and H: "http_ok S (dep_Http d)"
  shows "runs (GetKYCService d New cfg) (g, w)
    (\<lambda>r s. grown d P g (fst s) \<and> (\<exists>p. r = Some (the_kyc d P p) \<and> single_proxy (fst s) = made p)) F"
proof -
  let ?b = "bindA (GetSingpassProxy d) (\<lambda>proxy. bindA (GetUserDao d) (\<lambda>users. bindA GetKYCStateStore (\<lambda>store.
      bindA (GetUserKYCCompleteProducer d New cfg) (\<lambda>kycComplete. ret (newKYCService proxy users store kycComplete)))))"
  have rest: "runs (bindA (GetUserDao d) (\<lambda>users. bindA GetKYCStateStore (\<lambda>store.
      bindA (GetUserKYCCompleteProducer d New cfg) (\<lambda>kycComplete. ret (newKYCService (Some p) users store kycComplete)))))
      (g1, w1) (\<lambda>a s. grown d P g1 (fst s) \<and> a = the_kyc d P p) F" if "singletons_ok d P g1" for p g1 w1 F
    by (rule runs_get_bind [OF plain_getters_run(1) [OF that]], rule runs_get_bind [OF plain_getters_run(3) [OF grownD(1)]], assumption,
      rule runs_get_bind [OF producers_run(2) [OF grownD(1) P]], assumption, rule runs_get_ret) (auto simp: grown_def the_kyc_def)
  have "runs ?b (g, w) (\<lambda>a s. grown d P g (fst s) \<and> (\<exists>p. a = the_kyc d P p \<and> single_proxy (fst s) = made p)) (\<lambda>_ _. False)"
  proof (rule runs_get_bind [OF GetSingpassProxy_runs [OF ok H]], elim exE conjE)
    fix r g1 w1 p assume g1: "grown d P g g1" and p: "r = Some p" "single_proxy g1 = made p"
    show "runs (bindA (GetUserDao d) (\<lambda>users. bindA GetKYCStateStore (\<lambda>store.
        bindA (GetUserKYCCompleteProducer d New cfg) (\<lambda>kycComplete. ret (newKYCService r users store kycComplete)))))
        (g1, w1) (\<lambda>a s. grown d P g1 (fst s) \<and> (\<exists>p. a = the_kyc d P p \<and> single_proxy (fst s) = made p)) (\<lambda>_ _. False)"
      unfolding p(1) by (rule runs_mono [OF rest [OF grownD(1) [OF g1]]]) (use grownD(2) [OF _ p(2)] in auto)
  qed
  then have build: "runs ?b (g, w) (\<lambda>a s. grown d P g (fst (single_kyc_update (\<lambda>_. made a) (fst s), snd s))
      \<and> (\<exists>p. Some a = Some (the_kyc d P p) \<and> single_proxy (fst (single_kyc_update (\<lambda>_. made a) (fst s), snd s)) = made p)) (\<lambda>_ _. False)"
    by (rule runs_mono) (auto simp: grown_def singletons_ok_def fresh_once_def)
  show ?thesis
    unfolding GetKYCService_def
  proof (rule runs_once_get [OF _ build])
    assume "once_done (single_kyc g)"
    then have "single_kyc g \<noteq> fresh_once" by (auto simp: fresh_once_def)
    with ok obtain p where "single_proxy g = made p" "holds (single_kyc g) (the_kyc d P p)" by (auto simp: singletons_ok_def)
    then show "grown d P g (fst (g, w)) \<and> (\<exists>p. once_value (single_kyc g) = Some (the_kyc d P p) \<and> single_proxy (fst (g, w)) = made p)"
      using ok holds_value \<open>once_done (single_kyc g)\<close> by (auto intro: grown_refl)
  qed
qed

subsection \<open>The services are those the application is wired of\<close>

text \<open>
  A history of calls of the getters the handlers use, each after whatever else has happened to
  the world; what they return.
\<close>

datatype Getter = ForProfiles | ForRegistration | ForKYC | ForAuthenticator

datatype ('w, 'k, 's) Got =
    GotProfiles "'w UserProfileServiceImpl option"
  | GotRegistration "'w userServiceImpl option"
  | GotKYC "('w, 'k, 's) kycServiceImpl option"
  | GotMappings "'w UserAuthMappingDao option"

fun call_getter ::
    "('w, 'k, 's) Deployment \<Rightarrow> (KgoOpt list \<Rightarrow> go_error + 'w KgoClient) \<Rightarrow> KafkaConfig option \<Rightarrow> Getter
      \<Rightarrow> (('w, 'k, 's) Singletons \<times> 'w, ('w, 'k, 's) Got) act" where
  "call_getter d New cfg ForProfiles = bindA (GetUserProfileService d) (\<lambda>x. ret (GotProfiles x))"
| "call_getter d New cfg ForRegistration = bindA (GetUserMappingService d New cfg) (\<lambda>x. ret (GotRegistration x))"
| "call_getter d New cfg ForKYC = bindA (GetKYCService d New cfg) (\<lambda>x. ret (GotKYC x))"
| "call_getter d New cfg ForAuthenticator = bindA (GetUserAuthMappingDao d) (\<lambda>x. ret (GotMappings x))"

fun run_getters ::
    "('w, 'k, 's) Deployment \<Rightarrow> (KgoOpt list \<Rightarrow> go_error + 'w KgoClient) \<Rightarrow> KafkaConfig option \<Rightarrow> (('w \<Rightarrow> 'w) \<times> Getter) list
      \<Rightarrow> ('w, 'k, 's) Singletons \<times> 'w \<Rightarrow> ('w, 'k, 's) Got res list \<times> ('w, 'k, 's) Singletons \<times> 'w" where
  "run_getters d New cfg [] s = ([], s)"
| "run_getters d New cfg ((f, x) # xs) s = (case call_getter d New cfg x (fst s, f (snd s)) of
      (r, s') \<Rightarrow> (case run_getters d New cfg xs s' of (rs, s'') \<Rightarrow> (r # rs, s'')))"

text \<open>What each getter gives, \<open>p\<close> being the one proxy.\<close>

fun the_got ::
    "('w, 'k, 's) Deployment \<Rightarrow> 'w KafkaProducer \<Rightarrow> ('k, 's) singpassProxyImpl \<Rightarrow> Getter \<Rightarrow> ('w, 'k, 's) Got" where
  "the_got d P p ForProfiles = GotProfiles (Some (the_profiles d))"
| "the_got d P p ForRegistration = GotRegistration (Some (the_service d P))"
| "the_got d P p ForKYC = GotKYC (Some (the_kyc d P p))"
| "the_got d P p ForAuthenticator = GotMappings (Some (dep_mapping_dao d))"

lemma the_got_eq: "x \<noteq> ForKYC \<Longrightarrow> the_got d P p x = the_got d P q x"
  by (cases x) simp_all

lemma call_getter_runs:
  assumes ok: "singletons_ok d P g" and P: "P = the_producer (dep_Runtime d) New cfg" and H: "http_ok S (dep_Http d)"
  shows "runs (call_getter d New cfg x) (g, w)
    (\<lambda>r s. grown d P g (fst s) \<and> (\<exists>q. r = the_got d P q x \<and> (x = ForKYC \<longrightarrow> single_proxy (fst s) = made q))) F"
proof (cases x)
  case ForProfiles
  show ?thesis unfolding ForProfiles call_getter.simps
    by (rule runs_bindA [OF services_run(1) [OF ok P, where F = "\<lambda>_ _. False"]]) auto
next
  case ForRegistration
  show ?thesis unfolding ForRegistration call_getter.simps
    by (rule runs_bindA [OF services_run(2) [OF ok P, where F = "\<lambda>_ _. False"]]) auto
next
  case ForKYC
  show ?thesis unfolding ForKYC call_getter.simps
    by (rule runs_bindA [OF GetKYCService_runs [OF ok P H, where F = "\<lambda>_ _. False"]]) auto
next
  case ForAuthenticator
  show ?thesis unfolding ForAuthenticator call_getter.simps
    by (rule runs_bindA [OF plain_getters_run(2) [OF ok, where F = "\<lambda>_ _. False"]]) auto
qed

lemma run_getters_all:
  assumes P: "P = the_producer (dep_Runtime d) New cfg" and H: "http_ok S (dep_Http d)"
    and "run_getters d New cfg xs (g, w) = (rs, s)" and "singletons_ok d P g"
  shows "grown d P g (fst s) \<and> (\<exists>p. rs = map (\<lambda>x. Ok (the_got d P p (snd x))) xs
    \<and> (single_proxy (fst s) = fresh_once \<or> single_proxy (fst s) = made p) \<and> (ForKYC \<in> snd ` set xs \<longrightarrow> single_proxy (fst s) = made p))"
  using assms(3,4)
proof (induction xs arbitrary: g w rs)
  case Nil
  then show ?case by (auto simp: grown_refl singletons_ok_def)
next
  case (Cons h xs)
  obtain f x where h: "h = (f, x)" by (cases h)
  obtain q g1 w1 where call: "call_getter d New cfg x (g, f w) = (Ok (the_got d P q x), (g1, w1))" and g1: "grown d P g g1"
    and q: "x = ForKYC \<longrightarrow> single_proxy g1 = made q"
    using call_getter_runs [where x = x and w = "f w" and F = "\<lambda>_ _. False", OF Cons.prems(2) P H] by (cases rule: runsE) auto
  obtain rs1 where run: "run_getters d New cfg xs (g1, w1) = (rs1, s)" and rs: "rs = Ok (the_got d P q x) # rs1"
    using Cons.prems(1) h call by (auto split: prod.splits)
  from Cons.IH [OF run grownD(1) [OF g1]] obtain p where s: "grown d P g1 (fst s)"
    and p: "rs1 = map (\<lambda>x. Ok (the_got d P p (snd x))) xs" "single_proxy (fst s) = fresh_once \<or> single_proxy (fst s) = made p"
      "ForKYC \<in> snd ` set xs \<longrightarrow> single_proxy (fst s) = made p" by blast
  have one: "single_proxy (fst s) = made q \<and> q = p" if "x = ForKYC"
    using grownD(2) [OF s, of q] q p(2) that by (auto simp: fresh_once_def)
  then have "the_got d P q x = the_got d P p x" using the_got_eq by (cases "x = ForKYC") auto
  then show ?case using one p rs h grown_trans [OF g1 s] by auto
qed

text \<open>\<open>serves A d r\<close>: the handlers of \<open>A\<close> that use what \<open>r\<close> returns call its methods.\<close>

fun serves :: "(memoryKYCStateStore \<times> 'w) App \<Rightarrow> ('w, 'k, 's) Deployment \<Rightarrow> ('w, 'k, 's) Got \<Rightarrow> bool" where
  "serves A d (GotProfiles x) = (\<exists>s users. x = Some s \<and> Profiles_Users s = Some users
     \<and> app_GetUser A = (\<lambda>c i. onSnd (svc_GetUser users c i)) \<and> app_GetProfile A = (\<lambda>c i email. onSnd (svc_GetProfile users c i email))
     \<and> app_UpdateProfile A = (\<lambda>c i req. onSnd (svc_UpdateProfile users (dep_Redis d) c i req)))"
| "serves A d (GotRegistration x) = (\<exists>s users mappings producer publish. x = Some s \<and> Service_Users s = Some users
     \<and> Service_Mappings s = Some mappings \<and> Service_Registered s = Some producer
     \<and> Registered_Producer producer = Some publish \<and> Registered_Topic producer = UserRegisteredTopic
     \<and> app_CreateUser A = (\<lambda>c data. onSnd (svc_CreateUser mappings users (gorm_Transaction (Service_Tx s))
         (PublishUserRegistered (dep_Runtime d) (dep_RegisteredJson d) publish) (dep_Runtime d) (dep_Redis d) c data)))"
| "serves A d (GotKYC x) = (\<exists>s p users producer publish. x = Some s \<and> KYC_Proxy s = Some p \<and> KYC_Users s = Some users
     \<and> KYC_Store s = Some (newMemoryKYCStateStore defaultKYCStateTTL) \<and> KYC_Complete s = Some producer
     \<and> Complete_Producer producer = Some publish \<and> Complete_Topic producer = UserKYCCompleteTopic
     \<and> app_StartSingpassLogin A = svc_StartSingpassLogin (memory_store (dep_Runtime d)) (dep_Singpass d) (lift_runtime (dep_Runtime d))
     \<and> app_SingpassCallback A = svc_SingpassCallback
         (lift_proxy (singpassProxy (dep_Singpass d) (dep_Runtime d) (dep_Http d) (dep_Jose d) (dep_SingpassJson d) p))
         (lift_users users) (memory_store (dep_Runtime d))
         (\<lambda>c i s t. onSnd (PublishUserKYCComplete (dep_Runtime d) (dep_KYCJson d) publish c i s t))
         (map_option lift_redis (dep_Redis d)) (lift_runtime (dep_Runtime d)) (dep_orbit d))"
| "serves A d (GotMappings x) = (\<exists>mappings. x = Some mappings
     \<and> app_Authenticate A = (\<lambda>c token. onSnd (NewAuthenticator_Authenticate (dep_oor d) (dep_Verifier d) (dep_Http d) (dep_Runtime d)
         (dep_ClerkJson d) mappings c token)))"

lemma the_got_serves:
  "serves (wired (d\<lparr>dep_Keys := p\<rparr>)) d (the_got d (kafkaProducerImpl_Publish (dep_Runtime d) (dep_Kafka d)) p x)"
  by (cases x) (simp_all add: the_profiles_def NewUserProfileService_def the_service_def newUserMappingService_def the_kyc_def
      newKYCService_def GetUserMappingService_CreateUser_def GetKYCService_Start_def GetKYCService_Callback_def)



end
