(* ===== verification/Spec2Isabelle.thy ===== *)
theory Spec2Isabelle
  imports Answers ClerkData Client Concurrency Grpc Mask Observed Process ServerLaws Singletons
begin

section \<open>The identity service\<close>

text \<open>
  The service keeps the users of a platform: Clerk (the login provider) tells it of new
  accounts by a signed webhook, the gateway asks it who a bearer token belongs to, users read
  and change their profile, prove who they are with Singpass, and other services read
  profiles by gRPC. Users and their Clerk identities are two MySQL tables, Redis caches rows
  of both, registrations and KYC results are announced on Kafka, and pending Singpass
  attempts live in the memory of the process.

  \<^bold>\<open>How code becomes definitions.\<close> A Go function that calls the outside is an action
  (Prelude): a function of the world that returns a value, an error or a panic, and the new
  world. Errors are values with their wrap chain, so \<open>errors.Is\<close> is what it is in Go. Structs
  are records, interfaces records of functions; \<open>int64\<close> is \<open>int\<close> with \<open>int64\<close> and \<open>wrap64\<close>
  where the width matters; strings are byte lists; instants are nanoseconds since year 1.
  What lies outside the repository is an argument: gorm, go-redis, franz-go, the HTTP client,
  clock, random source, environment, the sink of log lines and the tracer (Clients), the JOSE
  libraries and JSON decoders (Singpass, ClerkAuth), Svix, gin's binding and the third-party
  middlewares (Http, Router), viper, the file system, the OpenTelemetry SDK and the listeners
  (Process). An uninitialised or nil value is \<open>None\<close>.
  Its documented behaviour on what the servers store (\<open>Stores\<close>: two tables, cache, topics) is
  stated by predicates such as \<open>gorm_ok\<close>, \<open>redis_ok\<close>, \<open>kafka_ok\<close>, \<open>runtime_ok\<close>, which allow every
  call to fail and Redis to forget; RefEnv implements them in memory, for the witnesses.
  The standard library is written out: white space, cutting, splitting, case folding and
  number texts (GoStrings), query strings (Url), base64 (Base64), addresses (Net), dates
  (ProfileService), header names and the request context (Gin, Prelude).

  \<^bold>\<open>Contracts.\<close> Where a component relies on another the promise is a locale, proved for the
  model's definitions by an interpretation in the provider's theory:

  \<^item> \<open>user_table\<close> (UserDaos) and \<open>mapping_table\<close> (MappingDao): the data access objects; a read
    through the cache gives what the table holds;
  \<^item> \<open>tx_beginner\<close> (UserMapping): both writes of a transaction or none;
  \<^item> \<open>kafka_producer\<close>, \<open>announcer\<close>, \<open>event_sources\<close> (Kafka): at most one record, with the right
    topic, key and value, for the real producer and for its stand-in;
  \<^item> \<open>one_time_store\<close> (KYCStore): what was saved is redeemed at most once;
  \<^item> \<open>identity_provider\<close> (Singpass): the proxy touches no store;
  \<^item> \<open>profile_service\<close> (ProfileLaws), \<open>registration\<close> (UserMapping), \<open>kyc_service\<close> (KYCService): the
    services over these contracts, interpreted as the getters of the code wire them.

  \<^bold>\<open>Parts.\<close>

  \<^item> Model, UserDaos, MappingDao: server/repository/model and dao. The lemmas give the effect
    of every operation on the tables and the cache, on success and on failure.
  \<^item> Config: server/config, the sections and where they are read from.
  \<^item> Logging: server/log/logger.go without its middlewares: the logger of the process and of a
    context, its level and files, request ids. A line is an entry with level, message and
    fields, given to \<open>log_Write\<close> when its level is enabled. \<open>quiet\<close> and \<open>soft\<close> calls leave the stores
    alone.
  \<^item> KafkaTrace, Kafka: server/kafka. The span, headers and lines of a publication, the
    producers and the two events. Stripping the topic prefix undoes adding it.
  \<^item> ClerkData, UserMapping: server/http/data/clerk_callback_data.go and
    server/service/user_mapping_service.go. Outcome of a registration on every path; users
    and mappings stay one to one; repeated deliveries; the event that can be lost.
  \<^item> ProfileService, ProfileLaws, Mask: server/service/user_profile_service.go and
    server/util/mask.go. Outcome of an update; the market is set once; cached reads refine
    the join of the tables; two races.
  \<^item> KYCStore, Singpass, SingpassLaws, ProcessWorld, KYCService: server/service/kyc_state_store.go,
    server/proxy and server/service/kyc_service.go. The world of these operations is a pair of
    the store in memory and the rest, and \<open>onSnd\<close> lifts a call to the pair. Outcome of
    a callback, replay, expiry, who can be affected by any history of calls; the authorize
    URL, the token request and what is believed of the answers.
  \<^item> Accounts: the two tables as a ledger of accounts with four operations. Every request is one
    of them that it permits (a simulation); reachable states are well formed, accounts last.
  \<^item> Concurrency: the services cut into pieces that may interleave, as a step relation on the
    multiset of calls under way; types are kept, the uniqueness of addresses is not.
  \<^item> Answers: every request to a route ends with a response.
  \<^item> Net, Gin, Identity: common/auth. The identity headers, roles, the internal network and
    the audit line. A handler maps the request and the response so far to the next one.
  \<^item> ClerkAuth: server/auth. Tokens are checked against the keys Clerk publishes; soundness
    and completeness of that, the time window, the decoding of keys.
  \<^item> Http, HttpLaws: server/http/api, server/http/data and the middlewares of server/log. Each
    handler takes the service calls it makes as arguments. Forwarded identities are read
    back as they were; an unsigned webhook does nothing.
  \<^item> Router, Server, ServerLaws: server/http/router and the wiring of the services. \<open>App\<close> is
    what the handlers call, \<open>wired\<close> the application over one database, one Redis, one Kafka
    client and the store in memory. \<open>ends m w P\<close> says that a request leaves \<open>P\<close> whatever its
    outcome; from it follows who may change which column of which row.
  \<^item> Singletons: the getters behind \<open>sync.Once\<close> in server/service, server/proxy, server/kafka/producer
    and server/repository/dao. The services they give are those of \<open>wired\<close>.
  \<^item> Grpc: server/grpc, the service and its interceptor, over the profile service.
  \<^item> Startup, Telemetry, Process: server/repository/init.go, server/repository/redis/init.go,
    server/telemetry/init.go, server/main.go and the \<open>Init\<close> of both servers. The database is
    required, the rest degrades; \<open>process_step\<close> is the process with both servers beside main.
  \<^item> Observed: what the outside sees of a request and of a publication, as a sequence of lines,
    calls of spans and records.
  \<^item> Client: the client package for other services.

  \<^bold>\<open>Bounds.\<close> No definition uses fuel. The recursive definitions are structural or have a
  measure (the scanners of GoStrings, the length of the text); the loops of the code run over
  lists and maps that are finite. Histories of calls are lists of any length.

  \<^bold>\<open>Ordering.\<close> Each service call is one function; where another request may run in between,
  the code is cut there (\<open>plan_update\<close> and \<open>finish_update\<close>, \<open>load_profile\<close> and
  \<open>setUserProfileCache\<close>, the pieces of Concurrency), and the races are stated on the pieces.
  Methods of the store hold its mutex and are single steps. A registration is cut around its
  transaction, not within.

  \<^bold>\<open>Not modelled.\<close> The lines that services, proxy and data access objects log in passing (those of
  middlewares, interceptor, start-up and publications are modelled), and the text zap makes of
  a line; generated code (protobuf, Swagger) and mocks; the third-party handlers of the router
  (tracing, CORS, Swagger), of which CORS is modelled up to its configuration. The text of
  errors that the code formats from values is abbreviated. What was sent before a panic is not
  modelled: the recovery sees it as the argument \<open>struck\<close>.
\<close>

end
